(* ===== verification/Op_Prelude.thy ===== *)
theory Op_Prelude
  imports Main "HOL-Library.Word" "HOL-Library.Char_ord" "HOL-Library.List_Lexorder"
begin

text \<open>
  Shared vocabulary of the development: the parts of the Go language and of its standard
  library that the operator uses (byte strings with the functions of package \<open>strings\<close>,
  decimal numbers with \<open>strconv.Atoi\<close> and the verb \<open>%d\<close>, wrap-around of \<open>int32\<close> and
  \<open>int64\<close>, maps keyed by strings) and errors as values.

  A Go string is a list of bytes (\<^typ>\<open>string\<close>). A Go map keyed by strings is an
  association list in strictly increasing key order, so that equal maps are equal lists;
  a nil map and an empty map are both the empty list (the comparisons of the program,
  \<open>Semantic.DeepEqual\<close> and key-wise subset tests, do not tell them apart).
\<close>

section \<open>Collections of facts\<close>

named_theorems go_strings \<open>equations of the string functions\<close>
named_theorems go_maps \<open>equations of the maps keyed by strings\<close>

section \<open>Durations\<close>

text \<open>A \<open>time.Duration\<close> and a \<open>time.Time\<close> are counted in nanoseconds.\<close>

abbreviation seconds :: "int \<Rightarrow> int" where
  "seconds n \<equiv> n * 1000000000"

section \<open>Errors as values\<close>

text \<open>
  What the program observes of an error: the Kubernetes API classes it tests for
  (\<open>apierrors.IsNotFound\<close>, \<open>apierrors.IsConflict\<close>, \<open>meta.IsNoMatchError\<close>) and the text.
  \<open>Wrapped p e\<close> is \<open>fmt.Errorf("p: %w", e)\<close>.
\<close>

datatype gerror =
    NotFound string
  | Conflict string
  | NoMatch string
  | OtherError string
  | Wrapped string gerror

type_synonym 'a result = "gerror + 'a"

fun IsNotFound :: "gerror \<Rightarrow> bool" where
  "IsNotFound (NotFound _) = True"
| "IsNotFound (Wrapped _ e) = IsNotFound e"
| "IsNotFound _ = False"

fun IsConflict :: "gerror \<Rightarrow> bool" where
  "IsConflict (Conflict _) = True"
| "IsConflict (Wrapped _ e) = IsConflict e"
| "IsConflict _ = False"

fun IsNoMatchError :: "gerror \<Rightarrow> bool" where
  "IsNoMatchError (NoMatch _) = True"
| "IsNoMatchError (Wrapped _ e) = IsNoMatchError e"
| "IsNoMatchError _ = False"

fun Error :: "gerror \<Rightarrow> string" where
  "Error (NotFound m) = m"
| "Error (Conflict m) = m"
| "Error (NoMatch m) = m"
| "Error (OtherError m) = m"
| "Error (Wrapped p e) = p @ '': '' @ Error e"

text \<open>The verb \<open>%v\<close> on an error that may be nil.\<close>

definition show_err :: "gerror option \<Rightarrow> string" where
  "show_err e = (case e of None \<Rightarrow> ''<nil>'' | Some x \<Rightarrow> Error x)"

text \<open>Sequencing of fallible steps: the first error is returned.\<close>

definition res_bind :: "'a result \<Rightarrow> ('a \<Rightarrow> 'b result) \<Rightarrow> 'b result" where
  "res_bind m f = (case m of Inl e \<Rightarrow> Inl e | Inr x \<Rightarrow> f x)"

lemma res_bind_simps [simp]:
  "res_bind (Inl e) f = Inl e"
  "res_bind (Inr x) f = f x"
  by (simp_all add: res_bind_def)

lemma res_bind_eq_Inr [simp]:
  "res_bind m f = Inr y \<longleftrightarrow> (\<exists>x. m = Inr x \<and> f x = Inr y)"
  by (cases m) auto

text \<open>A check that fails with a message.\<close>

definition fail_if :: "bool \<Rightarrow> string \<Rightarrow> unit result" where
  "fail_if b msg = (if b then Inl (OtherError msg) else Inr ())"

lemma fail_if_eq_Inr [simp]: "fail_if b msg = Inr u \<longleftrightarrow> \<not> b"
  by (simp add: fail_if_def)

section \<open>Machine integers\<close>

definition wrap32 :: "int \<Rightarrow> int" where
  "wrap32 x = sint (word_of_int x :: 32 word)"

definition wrap64 :: "int \<Rightarrow> int" where
  "wrap64 x = sint (word_of_int x :: 64 word)"

definition int64_ok :: "int \<Rightarrow> bool" where
  "int64_ok x \<longleftrightarrow> - (2 ^ 63) \<le> x \<and> x < 2 ^ 63"

lemma wrap32_id: "- (2 ^ 31) \<le> x \<Longrightarrow> x < 2 ^ 31 \<Longrightarrow> wrap32 x = x"
  by (simp add: wrap32_def sint_sbintrunc' signed_take_bit_int_eq_self)

lemma wrap64_id: "int64_ok x \<Longrightarrow> wrap64 x = x"
  by (simp add: wrap64_def int64_ok_def sint_sbintrunc' signed_take_bit_int_eq_self)

lemma wrap64_ok: "int64_ok (wrap64 x)"
  using sint_ge [of "word_of_int x :: 64 word"] sint_lt [of "word_of_int x :: 64 word"]
  by (simp add: wrap64_def int64_ok_def)

lemma wrap64_add_left [simp]: "wrap64 (wrap64 x + y) = wrap64 (x + y)"
  by (simp add: wrap64_def)

lemma wrap64_add_right [simp]: "wrap64 (x + wrap64 y) = wrap64 (x + y)"
  by (simp add: wrap64_def)

section \<open>Strings\<close>

definition hasPrefix :: "string \<Rightarrow> string \<Rightarrow> bool" where
  "hasPrefix s p \<longleftrightarrow> take (length p) s = p"

definition hasSuffix :: "string \<Rightarrow> string \<Rightarrow> bool" where
  "hasSuffix s p \<longleftrightarrow> length p \<le> length s \<and> drop (length s - length p) s = p"

definition trimPrefix :: "string \<Rightarrow> string \<Rightarrow> string" where
  "trimPrefix s p = (if hasPrefix s p then drop (length p) s else s)"

definition trimSuffix :: "string \<Rightarrow> string \<Rightarrow> string" where
  "trimSuffix s p = (if hasSuffix s p then take (length s - length p) s else s)"

text \<open>\<open>strings.Cut\<close> with a one-byte separator.\<close>

definition cut :: "string \<Rightarrow> char \<Rightarrow> string \<times> string \<times> bool" where
  "cut s c = (case dropWhile (\<lambda>x. x \<noteq> c) s of
     [] \<Rightarrow> (s, [], False)
   | _ # rest \<Rightarrow> (takeWhile (\<lambda>x. x \<noteq> c) s, rest, True))"

text \<open>\<open>strings.LastIndex\<close> with a one-byte separator.\<close>

fun lastIndex :: "string \<Rightarrow> char \<Rightarrow> int" where
  "lastIndex [] c = - 1"
| "lastIndex (x # xs) c =
     (let i = lastIndex xs c in if 0 \<le> i then i + 1 else if x = c then 0 else - 1)"

text \<open>\<open>strings.SplitN\<close> with a one-byte separator and a positive count.\<close>

fun splitN :: "string \<Rightarrow> char \<Rightarrow> nat \<Rightarrow> string list" where
  "splitN s c 0 = []"
| "splitN s c (Suc 0) = [s]"
| "splitN s c (Suc (Suc n)) =
     (case cut s c of (before, after, found) \<Rightarrow>
        if found then before # splitN after c (Suc n) else [s])"

text \<open>\<open>strings.Join\<close>.\<close>

fun join :: "string list \<Rightarrow> string \<Rightarrow> string" where
  "join [] sep = []"
| "join [x] sep = x"
| "join (x # y # ys) sep = x @ sep @ join (y # ys) sep"

lemma hasPrefix_iff: "hasPrefix s p \<longleftrightarrow> (\<exists>t. s = p @ t)"
proof
  assume "hasPrefix s p"
  then have "s = p @ drop (length p) s"
    by (metis append_take_drop_id hasPrefix_def)
  then show "\<exists>t. s = p @ t" ..
qed (auto simp: hasPrefix_def)

lemma hasPrefix_append [simp, go_strings]: "hasPrefix (p @ t) p"
  by (simp add: hasPrefix_def)

lemma hasPrefix_Nil [simp]: "hasPrefix s []"
  by (simp add: hasPrefix_def)

lemma trimPrefix_append [simp, go_strings]: "trimPrefix (p @ t) p = t"
  by (simp add: trimPrefix_def)

lemma trimSuffix_append [simp, go_strings]: "trimSuffix (t @ p) p = t"
  by (simp add: trimSuffix_def hasSuffix_def)

lemma cut_notin [simp, go_strings]:
  assumes "c \<notin> set s"
  shows "cut s c = (s, [], False)"
proof -
  from assms have "dropWhile (\<lambda>x. x \<noteq> c) s = []"
    by (induction s) auto
  then show ?thesis unfolding cut_def by (simp only: list.case)
qed

lemma cut_append [simp, go_strings]: "c \<notin> set s \<Longrightarrow> cut (s @ c # t) c = (s, t, True)"
proof -
  assume c: "c \<notin> set s"
  then have "dropWhile (\<lambda>x. x \<noteq> c) (s @ c # t) = c # t"
    by (induction s) auto
  moreover from c have "takeWhile (\<lambda>x. x \<noteq> c) (s @ c # t) = s"
    by (induction s) auto
  ultimately show ?thesis by (simp add: cut_def)
qed

lemma lastIndex_notin [simp, go_strings]: "c \<notin> set s \<Longrightarrow> lastIndex s c = - 1"
  by (induction s) auto

lemma lastIndex_ge: "- 1 \<le> lastIndex s c"
  by (induction s) (auto simp: Let_def)

lemma lastIndex_append [simp, go_strings]:
  "c \<notin> set t \<Longrightarrow> lastIndex (s @ c # t) c = int (length s)"
  by (induction s) (auto simp: Let_def)

lemma join_eq_Nil: "[] \<notin> set xs \<Longrightarrow> join xs sep = [] \<longleftrightarrow> xs = []"
  by (induction xs sep rule: join.induct) auto

section \<open>Decimal numbers\<close>

definition digit_val :: "char \<Rightarrow> int" where
  "digit_val c = int (of_char c) - 48"

definition is_digit :: "char \<Rightarrow> bool" where
  "is_digit c \<longleftrightarrow> (48::nat) \<le> of_char c \<and> of_char c \<le> (57::nat)"

definition digits_val :: "string \<Rightarrow> int" where
  "digits_val s = foldl (\<lambda>n c. 10 * n + digit_val c) 0 s"

text \<open>
  \<open>strconv.Atoi\<close>: an optional sign, at least one decimal digit, nothing else, and a value
  that fits in 64 bits.
\<close>

definition atoi :: "string \<Rightarrow> int option" where
  "atoi s =
     (let neg = hasPrefix s ''-'';
          body = (if neg \<or> hasPrefix s ''+'' then drop 1 s else s);
          n = (if neg then - digits_val body else digits_val body)
      in if body \<noteq> [] \<and> list_all is_digit body \<and> int64_ok n then Some n else None)"

fun show_nat :: "nat \<Rightarrow> string" where
  "show_nat n =
     (if n < 10 then [char_of (48 + n)] else show_nat (n div 10) @ [char_of (48 + n mod 10)])"

declare show_nat.simps [simp del]

text \<open>The verb \<open>%d\<close>.\<close>

definition show_int :: "int \<Rightarrow> string" where
  "show_int i = (if i < 0 then ''-'' @ show_nat (nat (- i)) else show_nat (nat i))"

lemma is_digit_char_of [simp]: "n < 10 \<Longrightarrow> is_digit (char_of (48 + n :: nat))"
  by (simp add: is_digit_def)

lemma digit_val_char_of [simp]: "n < 10 \<Longrightarrow> digit_val (char_of (48 + n :: nat)) = int n"
  by (simp add: digit_val_def)

lemma digits_val_snoc [simp]: "digits_val (s @ [c]) = 10 * digits_val s + digit_val c"
  by (simp add: digits_val_def)

lemma show_nat_digits: "list_all is_digit (show_nat n) \<and> show_nat n \<noteq> []"
  by (induction n rule: show_nat.induct) (subst (1 2) show_nat.simps, simp)

lemma digits_val_show_nat: "digits_val (show_nat n) = int n"
proof (induction n rule: show_nat.induct)
  case (1 n)
  show ?case
  proof (cases "n < 10")
    case True
    then have "digits_val ([] @ show_nat n) = int n"
      by (subst show_nat.simps) (simp add: digits_val_def)
    then show ?thesis by simp
  next
    case False
    with 1 have "digits_val (show_nat (n div 10)) = int (n div 10)" by simp
    with False show ?thesis
      by (subst show_nat.simps) (simp, presburger)
  qed
qed

lemma show_nat_inject [simp]: "show_nat m = show_nat n \<longleftrightarrow> m = n"
  by (metis digits_val_show_nat of_nat_eq_iff)

lemma length_show_nat: "n < 10 ^ k \<Longrightarrow> 0 < k \<Longrightarrow> length (show_nat n) \<le> k"
proof (induction k arbitrary: n)
  case (Suc k)
  show ?case
  proof (cases "n < 10")
    case False
    with Suc.prems have k: "0 < k" by (cases k) auto
    from Suc.prems have "n div 10 < 10 ^ k" by (simp add: less_mult_imp_div_less)
    with Suc.IH k have "length (show_nat (n div 10)) \<le> k" by blast
    with False show ?thesis by (subst show_nat.simps) simp
  qed (subst show_nat.simps, simp)
qed simp

lemma show_nat_no_sep: "\<not> is_digit c \<Longrightarrow> c \<notin> set (show_nat n)"
  using show_nat_digits [of n] by (auto simp: list_all_iff)

lemma show_nat_no_sign:
  "\<not> hasPrefix (show_nat n) ''-''" "\<not> hasPrefix (show_nat n) ''+''"
proof -
  have "hasPrefix (show_nat n) [c] \<longleftrightarrow> (\<exists>t. show_nat n = c # t)" for c
    by (simp add: hasPrefix_iff)
  moreover have "show_nat n = c # t \<Longrightarrow> is_digit c" for c t
    using show_nat_digits [of n] by (auto simp: list_all_iff)
  ultimately show "\<not> hasPrefix (show_nat n) ''-''" "\<not> hasPrefix (show_nat n) ''+''"
    by (auto simp: is_digit_def)
qed

lemma atoi_show_nat: "n < 2 ^ 63 \<Longrightarrow> atoi (show_nat n) = Some (int n)"
  using show_nat_digits [of n]
  by (simp add: atoi_def Let_def show_nat_no_sign digits_val_show_nat int64_ok_def)

lemma atoi_show_int:
  assumes "int64_ok i"
  shows "atoi (show_int i) = Some i"
proof (cases "i < 0")
  case True
  moreover have "hasPrefix (''-'' @ t) ''-''" for t by (rule hasPrefix_append)
  ultimately show ?thesis
    using assms show_nat_digits [of "nat (- i)"]
    by (simp add: atoi_def show_int_def Let_def digits_val_show_nat)
next
  case False
  with assms have "nat i < 2 ^ 63" by (simp add: int64_ok_def nat_less_iff)
  with False show ?thesis
    by (simp add: show_int_def atoi_show_nat)
qed

lemma show_int_inject [simp]: "show_int i = show_int j \<longleftrightarrow> i = j"
proof
  assume eq: "show_int i = show_int j"
  have neg: "show_int k = ''-'' @ show_nat (nat (- k))" if "k < 0" for k
    using that by (simp add: show_int_def)
  have pos: "show_int k = show_nat (nat k)" if "\<not> k < 0" for k
    using that by (simp add: show_int_def)
  have no_minus: "show_nat n \<noteq> ''-'' @ s" for n s
    using show_nat_no_sign(1) [of n] hasPrefix_append by metis
  show "i = j"
  proof (cases "i < 0"; cases "j < 0")
    assume "i < 0" "j < 0" with eq neg show ?thesis by simp
  next
    assume "i < 0" "\<not> j < 0" with eq neg pos no_minus show ?thesis by metis
  next
    assume "\<not> i < 0" "j < 0" with eq neg pos no_minus show ?thesis by metis
  next
    assume "\<not> i < 0" "\<not> j < 0" with eq pos show ?thesis by simp
  qed
qed simp

section \<open>Hexadecimal text\<close>

text \<open>\<open>hex.EncodeToString\<close>.\<close>

definition hex_digit :: "nat \<Rightarrow> char" where
  "hex_digit n = (''0123456789abcdef'' ! (n mod 16))"

definition hex :: "string \<Rightarrow> string" where
  "hex s = concat (map (\<lambda>c. [hex_digit (of_char c div 16), hex_digit (of_char c mod 16)]) s)"

end
