(* ===== verification/Go_Map.thy ===== *)
theory Go_Map
  imports Op_Prelude
begin

text \<open>
  Go maps keyed by strings (labels, annotations, Secret data, per-pod samples) as
  association lists in strictly increasing key order. The interface the controllers rely
  on is the locale \<open>keyed_store\<close>; its client lemmas (copying one map over another) are
  proved once there and reach the model through the interpretation \<open>gm\<close>.
\<close>

type_synonym 'v gomap = "(string \<times> 'v) list"
type_synonym smap = "string gomap"

section \<open>Operations\<close>

text \<open>\<open>m[k] = v\<close>.\<close>

fun gm_set :: "string \<Rightarrow> 'v \<Rightarrow> 'v gomap \<Rightarrow> 'v gomap" where
  "gm_set k v [] = [(k, v)]"
| "gm_set k v (e # m) =
     (if k = fst e then (k, v) # m
      else if k < fst e then (k, v) # e # m
      else e # gm_set k v m)"

text \<open>\<open>delete(m, k)\<close>.\<close>

definition gm_del :: "string \<Rightarrow> 'v gomap \<Rightarrow> 'v gomap" where
  "gm_del k m = filter (\<lambda>e. fst e \<noteq> k) m"

text \<open>\<open>maps.Copy(dst, src)\<close>.\<close>

definition gm_copy :: "'v gomap \<Rightarrow> 'v gomap \<Rightarrow> 'v gomap" where
  "gm_copy dst src = foldl (\<lambda>d e. gm_set (fst e) (snd e) d) dst src"

text \<open>\<open>m[k]\<close> read as a value: the zero value of a string where the key is missing.\<close>

definition gm_index :: "smap \<Rightarrow> string \<Rightarrow> string" where
  "gm_index m k = (case map_of m k of None \<Rightarrow> [] | Some v \<Rightarrow> v)"

definition gm_wf :: "'v gomap \<Rightarrow> bool" where
  "gm_wf m \<longleftrightarrow> sorted_wrt (<) (map fst m)"

section \<open>The interface\<close>

locale keyed_store =
  fixes get :: "'m \<Rightarrow> string \<Rightarrow> 'v option"
    and put :: "string \<Rightarrow> 'v \<Rightarrow> 'm \<Rightarrow> 'm"
    and del :: "string \<Rightarrow> 'm \<Rightarrow> 'm"
    and ok :: "'m \<Rightarrow> bool"
  assumes get_put: "ok m \<Longrightarrow> get (put k v m) j = (if j = k then Some v else get m j)"
    and get_del: "ok m \<Longrightarrow> get (del k m) j = (if j = k then None else get m j)"
    and ok_put: "ok m \<Longrightarrow> ok (put k v m)"
    and ok_del: "ok m \<Longrightarrow> ok (del k m)"
    and ext: "ok m \<Longrightarrow> ok n \<Longrightarrow> (\<And>j. get m j = get n j) \<Longrightarrow> m = n"
begin

lemma ok_puts: "ok m \<Longrightarrow> ok (foldl (\<lambda>d e. put (fst e) (snd e) d) m es)"
  by (induction es arbitrary: m) (simp_all add: ok_put)

lemma get_puts:
  "ok m \<Longrightarrow> distinct (map fst es) \<Longrightarrow>
   get (foldl (\<lambda>d e. put (fst e) (snd e) d) m es) j =
     (case map_of es j of None \<Rightarrow> get m j | Some v \<Rightarrow> Some v)"
proof (induction es arbitrary: m)
  case Nil
  then show ?case by simp
next
  case (Cons e es)
  then have "get (foldl (\<lambda>d e. put (fst e) (snd e) d) (put (fst e) (snd e) m) es) j =
      (case map_of es j of None \<Rightarrow> get (put (fst e) (snd e) m) j | Some v \<Rightarrow> Some v)"
    by (simp add: ok_put)
  moreover have "map_of es (fst e) = None"
    using Cons.prems by (simp add: map_of_eq_None_iff)
  ultimately show ?case
    using Cons.prems by (cases e) (auto simp: get_put split: option.splits)
qed

lemma ok_dels: "ok m \<Longrightarrow> ok (foldl (\<lambda>d k. del k d) m ks)"
  by (induction ks arbitrary: m) (simp_all add: ok_del)

lemma get_dels:
  "ok m \<Longrightarrow> get (foldl (\<lambda>d k. del k d) m ks) j = (if j \<in> set ks then None else get m j)"
  by (induction ks arbitrary: m) (auto simp: ok_del get_del)

lemma put_same: "ok m \<Longrightarrow> get m k = Some v \<Longrightarrow> put k v m = m"
  by (rule ext) (auto simp: ok_put get_put)

lemma puts_same:
  "ok m \<Longrightarrow> (\<And>e. e \<in> set es \<Longrightarrow> get m (fst e) = Some (snd e)) \<Longrightarrow>
   foldl (\<lambda>d e. put (fst e) (snd e) d) m es = m"
  by (induction es) (simp_all add: put_same)

end

section \<open>The implementation meets the interface\<close>

lemma gm_wf_Nil [simp]: "gm_wf []"
  by (simp add: gm_wf_def)

lemma gm_wf_Cons [simp]: "gm_wf (e # m) \<longleftrightarrow> (\<forall>e' \<in> set m. fst e < fst e') \<and> gm_wf m"
  by (auto simp: gm_wf_def)

lemma gm_wf_distinct: "gm_wf m \<Longrightarrow> distinct (map fst m)"
  by (auto simp: gm_wf_def strict_sorted_iff)

lemma gm_set_keys: "fst ` set (gm_set k v m) = insert k (fst ` set m)"
  by (induction k v m rule: gm_set.induct) auto

lemma gm_wf_set: "gm_wf m \<Longrightarrow> gm_wf (gm_set k v m)"
proof (induction k v m rule: gm_set.induct)
  case (2 k v e m)
  have "fst e < fst e'" if "e' \<in> set (gm_set k v m)" "\<not> k < fst e" "k \<noteq> fst e" for e'
  proof -
    from that(1) have "fst e' \<in> insert k (fst ` set m)"
      by (metis gm_set_keys imageI)
    with that(2,3) "2.prems" show ?thesis by auto
  qed
  with 2 show ?case by auto
qed simp

lemma map_of_gm_set:
  "gm_wf m \<Longrightarrow> map_of (gm_set k v m) j = (if j = k then Some v else map_of m j)"
  by (induction k v m rule: gm_set.induct) auto

lemma map_of_gm_del: "map_of (gm_del k m) j = (if j = k then None else map_of m j)"
  by (induction m) (auto simp: gm_del_def)

lemma gm_wf_del: "gm_wf m \<Longrightarrow> gm_wf (gm_del k m)"
  by (induction m) (auto simp: gm_del_def)

lemma gm_ext:
  assumes "gm_wf m" "gm_wf n" "\<And>j. map_of m j = map_of n j"
  shows "m = n"
proof -
  from assms(1,2) have d: "distinct (map fst m)" "distinct (map fst n)"
    by (simp_all add: gm_wf_distinct)
  from assms(3) have "map_of m = map_of n" ..
  then have set_eq: "set m = set n"
    using d by (metis map_of_inject_set)
  from assms(1,2) have "sorted (map fst m)" "sorted (map fst n)"
    by (simp_all add: gm_wf_def strict_sorted_iff)
  moreover from set_eq have "set (map fst m) = set (map fst n)" by simp
  ultimately have keys: "map fst m = map fst n"
    using d by (metis sorted_distinct_set_unique)
  have "map snd m = map snd n"
  proof (rule nth_equalityI)
    show "length (map snd m) = length (map snd n)"
      using keys by (metis length_map)
    fix i assume i: "i < length (map snd m)"
    then have i': "i < length n" using keys by (metis length_map)
    have "map_of m (fst (m ! i)) = Some (snd (m ! i))"
      using d(1) i by simp
    moreover have "map_of n (fst (n ! i)) = Some (snd (n ! i))"
      using d(2) i' by simp
    moreover have "fst (m ! i) = fst (n ! i)"
      using keys i i' by (metis length_map nth_map)
    ultimately show "map snd m ! i = map snd n ! i"
      using assms(3) i i' by simp
  qed
  with keys show ?thesis by (metis zip_map_fst_snd)
qed

interpretation gm: keyed_store "map_of :: 'v gomap \<Rightarrow> string \<Rightarrow> 'v option" gm_set gm_del gm_wf
  by unfold_locales
    (simp_all only: map_of_gm_set map_of_gm_del gm_wf_set gm_wf_del gm_ext)

lemma gm_wf_copy [simp, intro]: "gm_wf dst \<Longrightarrow> gm_wf (gm_copy dst src)"
  unfolding gm_copy_def by (rule gm.ok_puts)

lemma map_of_gm_copy [go_maps]:
  "gm_wf dst \<Longrightarrow> gm_wf src \<Longrightarrow>
   map_of (gm_copy dst src) j =
     (case map_of src j of None \<Rightarrow> map_of dst j | Some v \<Rightarrow> Some v)"
  unfolding gm_copy_def by (rule gm.get_puts) (simp_all add: gm_wf_distinct)

declare map_of_gm_set [go_maps] map_of_gm_del [go_maps]
declare gm_wf_set [simp, intro] gm_wf_del [simp, intro]

lemma gm_copy_same:
  "gm_wf m \<Longrightarrow> gm_wf src \<Longrightarrow> (\<And>k v. map_of src k = Some v \<Longrightarrow> map_of m k = Some v) \<Longrightarrow>
   gm_copy m src = m"
  unfolding gm_copy_def
  by (rule gm.puts_same) (auto simp: gm_wf_distinct)

lemma gm_set_elems: "set (gm_set k v m) \<subseteq> insert (k, v) (set m)"
  by (induction k v m rule: gm_set.induct) auto

lemma gm_copy_elems: "set (gm_copy m src) \<subseteq> set m \<union> set src"
  unfolding gm_copy_def
proof (induction src arbitrary: m)
  case (Cons e src)
  then show ?case using gm_set_elems [of "fst e" "snd e" m] Cons [of "gm_set (fst e) (snd e) m"] by auto
qed simp

lemma gm_copy_keys: "fst ` set (gm_copy m src) = fst ` set m \<union> fst ` set src"
  unfolding gm_copy_def by (induction src arbitrary: m) (auto simp: gm_set_keys)

end
