(* ===== verification/K8s_Types.thy ===== *)
theory K8s_Types
  imports Go_Map
begin

text \<open>
  The Kubernetes data the operator reads and writes, restricted to the fields the sources
  under \<open>src/internal/controller\<close> use. A pointer that may be nil is an option; a slice is a
  list; quantities keep the unit they are built with; times are integers (nanoseconds).
\<close>

section \<open>Object metadata\<close>

record ownerref =
  or_uid :: string
  or_controller :: bool

record objmeta =
  om_name :: string
  om_namespace :: string
  om_uid :: string
  om_resourceVersion :: string
  om_generation :: int
  om_labels :: smap
  om_annotations :: smap
  om_ownerRefs :: "ownerref list"
  om_deleting :: bool

text \<open>The metadata a builder starts from: name, namespace and labels, the rest zero.\<close>

definition new_meta :: "string \<Rightarrow> string \<Rightarrow> smap \<Rightarrow> smap \<Rightarrow> objmeta" where
  "new_meta name namespace labels annotations =
     \<lparr>om_name = name, om_namespace = namespace, om_uid = [], om_resourceVersion = [],
      om_generation = 0, om_labels = labels, om_annotations = annotations,
      om_ownerRefs = [], om_deleting = False\<rparr>"

section \<open>Pod templates\<close>

record EnvVar =
  ev_name :: string
  ev_value :: string
  ev_fieldPath :: "string option"

abbreviation env_val :: "string \<Rightarrow> string \<Rightarrow> EnvVar" where
  "env_val n v \<equiv> \<lparr>ev_name = n, ev_value = v, ev_fieldPath = None\<rparr>"

datatype probe_handler = HTTPGet string int | TCPSocket int

record probe =
  pr_handler :: probe_handler
  pr_periodSeconds :: int
  pr_failureThreshold :: int

datatype quantity = Milli int | Gi int

record container_security =
  cs_allowPrivilegeEscalation :: bool
  cs_readOnlyRootFilesystem :: bool
  cs_dropCapabilities :: "string list"

record VolumeMount =
  vm_name :: string
  vm_mountPath :: string
  vm_readOnly :: bool

record Container =
  co_name :: string
  co_image :: string
  co_args :: "string list"
  co_env :: "EnvVar list"
  co_envFromSecrets :: "string list"
  co_ports :: "(string \<times> int) list"
  co_startupProbe :: "probe option"
  co_readinessProbe :: "probe option"
  co_livenessProbe :: "probe option"
  co_requests :: "quantity gomap"
  co_limits :: "quantity gomap"
  co_volumeMounts :: "VolumeMount list"
  co_securityContext :: "container_security option"

datatype volume_source = EmptyDir | SecretVolume string

record Volume =
  vo_name :: string
  vo_source :: volume_source

record pod_security =
  psc_runAsNonRoot :: bool
  psc_runAsUser :: int
  psc_runAsGroup :: int
  psc_fsGroup :: int
  psc_seccompProfile :: string

record toleration =
  tol_key :: string
  tol_operator :: string
  tol_value :: string
  tol_effect :: string
  tol_seconds :: "int option"

record affinity_term =
  at_topologyKey :: string
  at_matchLabels :: smap

record spread_constraint =
  sp_maxSkew :: int
  sp_topologyKey :: string
  sp_whenUnsatisfiable :: string
  sp_matchLabels :: smap

record PodSpec =
  ps_automountServiceAccountToken :: "bool option"
  ps_securityContext :: "pod_security option"
  ps_nodeSelector :: smap
  ps_tolerations :: "toleration list"
  ps_antiAffinity :: "affinity_term list option"
  ps_serviceAccountName :: string
  ps_terminationGracePeriodSeconds :: "int option"
  ps_containers :: "Container list"
  ps_volumes :: "Volume list"
  ps_topologySpread :: "spread_constraint list"

record PodTemplateSpec =
  pt_labels :: smap
  pt_annotations :: smap
  pt_spec :: PodSpec

section \<open>StatefulSets, pods, Secrets, autoscalers\<close>

record pvc =
  pvc_name :: string
  pvc_accessModes :: "string list"
  pvc_storageClassName :: "string option"
  pvc_storage :: quantity

text \<open>
  \<open>su_rollingUpdate\<close>: the pointer to the rolling-update settings, and inside it the pointer
  to the partition.
\<close>

record update_strategy =
  su_type :: string
  su_rollingUpdate :: "int option option"

record sts_status =
  ss_observedGeneration :: int
  ss_replicas :: int
  ss_readyReplicas :: int
  ss_updatedReplicas :: int
  ss_updateRevision :: string

definition zero_sts_status :: sts_status where
  "zero_sts_status = \<lparr>ss_observedGeneration = 0, ss_replicas = 0, ss_readyReplicas = 0,
     ss_updatedReplicas = 0, ss_updateRevision = []\<rparr>"

record StatefulSet =
  st_meta :: objmeta
  st_replicas :: "int option"
  st_selector :: smap
  st_serviceName :: string
  st_template :: PodTemplateSpec
  st_updateStrategy :: update_strategy
  st_volumeClaims :: "pvc list"
  st_pvcRetention :: "string \<times> string"
  st_status :: sts_status

record container_status =
  cst_name :: string
  cst_restartCount :: int
  cst_lastExitCode :: "int option"

record Pod =
  pod_meta :: objmeta
  pod_spec :: PodSpec
  pod_ip :: string
  pod_phase :: string
  pod_conditions :: "(string \<times> string) list"
  pod_containerStatuses :: "container_status list"

record Secret =
  sec_uid :: string
  sec_resourceVersion :: string
  sec_data :: smap

record hpa =
  hpa_targetKind :: string
  hpa_targetName :: string

text \<open>\<open>ptr.Deref(p, 0)\<close>.\<close>

definition deref0 :: "int option \<Rightarrow> int" where
  "deref0 p = (case p of None \<Rightarrow> 0 | Some n \<Rightarrow> n)"

lemma deref0_simps [simp]: "deref0 None = 0" "deref0 (Some n) = n"
  by (simp_all add: deref0_def)

section \<open>JSON values and unstructured objects\<close>

text \<open>
  Numbers keep their literal, objects the order of their members (and duplicates), as
  \<open>encoding/json\<close> sees them. In unstructured objects the members are in key order.
\<close>

datatype json =
    JNull
  | JBool bool
  | JNum string
  | JStr string
  | JArr "json list"
  | JObj "(string \<times> json) list"

abbreviation JInt :: "int \<Rightarrow> json" where
  "JInt n \<equiv> JNum (show_int n)"

text \<open>A literal \<open>map[string]any\<close>: its members in key order.\<close>

definition jobj :: "(string \<times> json) list \<Rightarrow> json" where
  "jobj es = JObj (foldl (\<lambda>m e. gm_set (fst e) (snd e) m) [] es)"

text \<open>
  An object of a kind the operator links no types for: envelope, specification and the
  conditions of its status (type and status of each).
\<close>

record Unstructured =
  un_apiVersion :: string
  un_kind :: string
  un_meta :: objmeta
  un_spec :: json
  un_conditions :: "(string \<times> string) list"

section \<open>Network objects\<close>

record ServiceAccount =
  sa_meta :: objmeta

record ServicePort =
  spt_name :: string
  spt_port :: int
  spt_targetPort :: int
  spt_nodePort :: int

record Service =
  svc_meta :: objmeta
  svc_type :: string
  svc_clusterIP :: string
  svc_selector :: smap
  svc_publishNotReadyAddresses :: bool
  svc_ports :: "ServicePort list"

record np_peer =
  npp_podSelector :: "smap option"
  npp_namespaceSelector :: "smap option"

text \<open>A rule without peers admits every source.\<close>

record np_rule =
  npr_ports :: "(string \<times> int) list"
  npr_from :: "np_peer list"

record NetworkPolicy =
  np_meta :: objmeta
  np_podSelector :: smap
  np_policyTypes :: "string list"
  np_ingress :: "np_rule list"

record PodDisruptionBudget =
  pdb_meta :: objmeta
  pdb_maxUnavailable :: "int option"
  pdb_selector :: smap

record ingress_rule =
  igr_host :: string
  igr_path :: string
  igr_pathType :: string
  igr_serviceName :: string
  igr_servicePort :: int

record ingress_tls =
  igt_hosts :: "string list"
  igt_secretName :: string

record Ingress =
  ing_meta :: objmeta
  ing_className :: "string option"
  ing_rules :: "ingress_rule list"
  ing_tls :: "ingress_tls list"

record route_retry =
  rtr_codes :: "int list"
  rtr_attempts :: int

record route_rule =
  rr_backendName :: string
  rr_backendPort :: int
  rr_retry :: "route_retry option"
  rr_requestTimeout :: "string option"

record observed_condition =
  oc_type :: string
  oc_status :: string
  oc_observedGeneration :: int

record route_parent =
  rp_name :: string
  rp_namespace :: "string option"
  rp_conditions :: "observed_condition list"

record HTTPRoute =
  hr_meta :: objmeta
  hr_parentRefs :: "(string \<times> string option) list"
  hr_hostnames :: "string list"
  hr_rules :: "route_rule list"
  hr_parents :: "route_parent list"

record Gateway =
  gw_generation :: int
  gw_conditions :: "observed_condition list"

text \<open>Every kind of child object the operator writes.\<close>

datatype kobject =
    KStatefulSet StatefulSet
  | KServiceAccount ServiceAccount
  | KService Service
  | KNetworkPolicy NetworkPolicy
  | KPodDisruptionBudget PodDisruptionBudget
  | KIngress Ingress
  | KHTTPRoute HTTPRoute
  | KUnstructured Unstructured

text \<open>
  The write requests of one pass, in the order in which they are issued; a request that
  the API server refuses is in the list too. An operation that issues requests returns
  them together with its result.
\<close>

datatype request = Create kobject | Update kobject | Delete kobject

type_synonym 'a eff = "request list \<times> 'a result"

definition eff_bind :: "'a eff \<Rightarrow> ('a \<Rightarrow> 'b eff) \<Rightarrow> 'b eff" where
  "eff_bind m f =
     (case snd m of
        Inl e \<Rightarrow> (fst m, Inl e)
      | Inr x \<Rightarrow> (fst m @ fst (f x), snd (f x)))"

abbreviation eff_return :: "'a \<Rightarrow> 'a eff" where
  "eff_return x \<equiv> ([], Inr x)"

abbreviation eff_fail :: "gerror \<Rightarrow> 'a eff" where
  "eff_fail e \<equiv> ([], Inl e)"

lemma eff_bind_simps [simp]:
  "eff_bind (w, Inl e) f = (w, Inl e)"
  "eff_bind (w, Inr x) f = (w @ fst (f x), snd (f x))"
  by (simp_all add: eff_bind_def)

end
