(* ===== verification/Api_Types.thy ===== *)
theory Api_Types
  imports K8s_Types
begin

text \<open>
  The WorkerApp API (\<open>src/api/v1alpha1/workerapp_types.go\<close>): specification, status and
  the method \<open>ResolvedSink\<close>. A field of a Go string type with named constants
  (\<open>UpdateStrategy\<close>, \<open>Durability\<close>, \<open>TelemetrySink\<close>) stays a string, because objects
  admitted under older schemas reach the controller with any value; the phase, which only
  the operator writes, is a datatype.
\<close>

section \<open>Named values\<close>

definition UpdateStrategyRolling :: string where
  "UpdateStrategyRolling = ''Rolling''"

definition UpdateStrategyRecreate :: string where
  "UpdateStrategyRecreate = ''Recreate''"

definition TelemetrySinkBucket :: string where
  "TelemetrySinkBucket = ''bucket''"

definition TelemetrySinkOTLP :: string where
  "TelemetrySinkOTLP = ''otlp''"

definition DurabilityFleet :: string where
  "DurabilityFleet = ''fleet''"

definition DurabilityBucket :: string where
  "DurabilityBucket = ''bucket''"

lemmas api_consts [code_unfold] = UpdateStrategyRolling_def UpdateStrategyRecreate_def
  TelemetrySinkBucket_def TelemetrySinkOTLP_def DurabilityFleet_def DurabilityBucket_def

section \<open>Specification\<close>

record CelldSpec =
  cd_image :: string
  cd_updateStrategy :: string

record BucketCredentials =
  bc_iamRole :: string
  bc_secretRef :: string
  bc_azureClientID :: string

record BucketSpec =
  bk_name :: string
  bk_endpoint :: string
  bk_storageAccount :: string
  bk_region :: string
  bk_credentialsFrom :: BucketCredentials

record ResourcesSpec =
  rs_cpuMillis :: int
  rs_ephemeralStorageGi :: int
  rs_memoryGi :: int
  rs_maxResidentCells :: int

record VarsSpec =
  va_secretRef :: string

record ServiceSpec =
  sv_type :: string
  sv_annotations :: smap

record AutoscalingTargets =
  tg_residentCellUtilization :: "int option"
  tg_p95LatencyMs :: "int option"

record AutoscalingSpec =
  as_enabled :: bool
  as_minReplicas :: int
  as_maxReplicas :: int
  as_targets :: AutoscalingTargets

record TelemetrySpec =
  tl_enabled :: "bool option"
  tl_sink :: string
  tl_otlpEndpoint :: string
  tl_retention :: string

text \<open>\<open>(t *TelemetrySpec) ResolvedSink\<close>.\<close>

definition ResolvedSink :: "TelemetrySpec \<Rightarrow> string" where
  "ResolvedSink t =
     (if tl_sink t = TelemetrySinkOTLP \<or> tl_sink t = [] \<and> tl_otlpEndpoint t \<noteq> []
      then TelemetrySinkOTLP else TelemetrySinkBucket)"

record StorageSpec =
  sg_sizeGi :: int
  sg_storageClassName :: "string option"

record SchedulingSpec =
  sc_nodeSelector :: smap
  sc_tolerations :: "toleration list"
  sc_spreadAcrossZones :: bool

record WorkerAppSpec =
  ws_deployTrackingSecretRef :: string
  ws_deploymentPolicy :: string
  ws_clusterDomain :: string
  ws_storage :: "StorageSpec option"
  ws_scheduling :: SchedulingSpec
  ws_hostnames :: "string list"
  ws_appVersion :: string
  ws_celld :: CelldSpec
  ws_replicas :: "int option"
  ws_bucket :: BucketSpec
  ws_resources :: ResourcesSpec
  ws_service :: ServiceSpec
  ws_vars :: "VarsSpec option"
  ws_websockets :: bool
  ws_autoscaling :: "AutoscalingSpec option"
  ws_telemetry :: TelemetrySpec
  ws_durability :: string
  ws_trustForwardedHeaders :: bool

section \<open>Status\<close>

text \<open>\<open>PhaseUnset\<close> is the empty string of a status that was never written.\<close>

datatype WorkerAppPhase =
  PhaseUnset | PhasePending | PhaseReady | PhaseRollingOut | PhaseRecreating | PhaseDegraded

fun phase_string :: "WorkerAppPhase \<Rightarrow> string" where
  "phase_string PhaseUnset = []"
| "phase_string PhasePending = ''Pending''"
| "phase_string PhaseReady = ''Ready''"
| "phase_string PhaseRollingOut = ''RollingOut''"
| "phase_string PhaseRecreating = ''Recreating''"
| "phase_string PhaseDegraded = ''Degraded''"

record RolloutStatus =
  rl_partition :: int
  rl_waitingOn :: string

record FleetStatus =
  fs_ready :: int
  fs_restoring :: int

record PodDeployment =
  pd_name :: string
  pd_version :: string
  pd_generation :: int
  pd_draining :: int
  pd_swapping :: int

datatype ConditionStatus = ConditionTrue | ConditionFalse | ConditionUnknown

record Condition =
  cn_type :: string
  cn_status :: ConditionStatus
  cn_reason :: string
  cn_message :: string
  cn_observedGeneration :: int

record WorkerAppStatus =
  wst_expectedAppVersion :: string
  wst_deployments :: "PodDeployment list"
  wst_phase :: WorkerAppPhase
  wst_rolledOutAppVersion :: string
  wst_rollout :: RolloutStatus
  wst_fleet :: FleetStatus
  wst_conditions :: "Condition list"

record WorkerApp =
  wa_meta :: objmeta
  wa_spec :: WorkerAppSpec
  wa_status :: WorkerAppStatus

abbreviation app_name :: "WorkerApp \<Rightarrow> string" where
  "app_name app \<equiv> om_name (wa_meta app)"

abbreviation app_namespace :: "WorkerApp \<Rightarrow> string" where
  "app_namespace app \<equiv> om_namespace (wa_meta app)"

abbreviation app_credentials :: "WorkerApp \<Rightarrow> BucketCredentials" where
  "app_credentials app \<equiv> bk_credentialsFrom (ws_bucket (wa_spec app))"

abbreviation app_image :: "WorkerApp \<Rightarrow> string" where
  "app_image app \<equiv> cd_image (ws_celld (wa_spec app))"

section \<open>External code\<close>

text \<open>
  The functions of third-party packages that the controllers call (and the digest of package
  \<open>crypto/sha256\<close>, the JSON text of a pod template and of a bucket specification, and the
  address syntax of package \<open>net/netip\<close>, none of whose particulars matter to the properties),
  as one record of parameters. Nothing is assumed
  about them here; a property that needs some of their documented behaviour says so in its
  hypotheses.
\<close>

record platform =
  pf_IsControlledBy :: "objmeta \<Rightarrow> objmeta \<Rightarrow> bool"
  pf_SetControllerReference :: "objmeta \<Rightarrow> objmeta \<Rightarrow> objmeta result"
  pf_IsDNS1123Label :: "string \<Rightarrow> bool"
  pf_IsDNS1123Subdomain :: "string \<Rightarrow> bool"
  pf_IsWildcardDNS1123Subdomain :: "string \<Rightarrow> bool"
  pf_marshalTemplate :: "PodTemplateSpec \<Rightarrow> string option"
  pf_sha256 :: "string \<Rightarrow> string"
  pf_isIPv6Literal :: "string \<Rightarrow> bool"
  pf_SetStatusCondition :: "Condition \<Rightarrow> Condition list \<Rightarrow> Condition list"
  pf_RemoveStatusCondition :: "string \<Rightarrow> Condition list \<Rightarrow> Condition list"
  pf_marshalIdentity :: "string \<times> BucketSpec \<times> string \<times> string \<times> string \<Rightarrow> string"

end
