(* ===== verification/Celld_Version.thy ===== *)
theory Celld_Version
  imports Op_Prelude
begin

text \<open>
  celld versions as the rollout controller reads them from image references
  (\<open>src/internal/controller/rollout.go\<close>: \<open>minorVersion\<close>, \<open>versionBoundary\<close>,
  \<open>breakingBoundaries\<close>, \<open>minorOf\<close>, \<open>breakingReason\<close>, \<open>isBreakingUpgrade\<close>).
  The order on versions is an interface (locale \<open>version_order\<close>), interpreted by
  \<open>mv_cmp\<close> on the versions whose components are not negative.
\<close>

section \<open>Versions and boundaries\<close>

record minorVersion =
  major :: int
  minor :: int

abbreviation mk_version :: "int \<Rightarrow> int \<Rightarrow> minorVersion" where
  "mk_version a b \<equiv> \<lparr>major = a, minor = b\<rparr>"

definition mv_String :: "minorVersion \<Rightarrow> string" where
  "mv_String v = show_int (major v) @ ''.'' @ show_int (minor v)"

text \<open>\<open>cmp\<close> subtracts in the 64-bit type \<open>int\<close>.\<close>

definition mv_cmp :: "minorVersion \<Rightarrow> minorVersion \<Rightarrow> int" where
  "mv_cmp v w =
     (if major v \<noteq> major w then wrap64 (major v - major w) else wrap64 (minor v - minor w))"

record versionBoundary =
  vb_lower :: minorVersion
  vb_upper :: minorVersion
  vb_upward :: bool
  vb_downward :: bool
  vb_reason :: string

definition breakingBoundaries :: "versionBoundary list" where
  "breakingBoundaries =
   [\<lparr>vb_lower = mk_version 0 1, vb_upper = mk_version 0 2, vb_upward = True, vb_downward = True,
     vb_reason = ''v0.1 and v0.2 nodes cannot share a fleet (ownership records changed address ''
       @ ''semantics and block objects changed format); upstream requires stop-all-then-start''\<rparr>,
    \<lparr>vb_lower = mk_version 0 2, vb_upper = mk_version 0 3, vb_upward = False, vb_downward = True,
     vb_reason = ''a v0.2 node cannot read writes waiting in v0.3's replicated log, so the downgrade ''
       @ ''can lose acknowledged writes unless every node's shutdown log shows ''
       @ [CHR 0x22] @ ''node-log close: sealed epoch'' @ [CHR 0x22]\<rparr>,
    \<lparr>vb_lower = mk_version 0 3, vb_upper = mk_version 0 4, vb_upward = True, vb_downward = True,
     vb_reason = ''v0.3 and v0.4 nodes cannot share a fleet (the peer tunnel protocols are ''
       @ ''incompatible and v0.3 cannot read v0.4 large Workers KV value references); ''
       @ ''upstream requires stop-all-then-start''\<rparr>,
    \<lparr>vb_lower = mk_version 0 4, vb_upper = mk_version 0 5, vb_upward = True, vb_downward = True,
     vb_reason = ''v0.4 and v0.5 nodes cannot share a fleet; upstream requires stop-all-then-start''\<rparr>]"

section \<open>Reading an image reference\<close>

definition minorOf :: "string \<Rightarrow> minorVersion option" where
  "minorOf ref =
     (let image = fst (cut ref CHR ''@'');
          idx = lastIndex image CHR '':''
      in if idx < 0 then None
         else let tag = trimPrefix (drop (nat (idx + 1)) image) ''v'';
                  parts = splitN tag CHR ''.'' 3
              in if length parts < 2 then None
                 else case atoi (parts ! 0) of
                        None \<Rightarrow> None
                      | Some a \<Rightarrow> (case atoi (parts ! 1) of
                          None \<Rightarrow> None
                        | Some b \<Rightarrow> Some (mk_version a b)))"

definition crossesUp :: "minorVersion \<Rightarrow> minorVersion \<Rightarrow> versionBoundary \<Rightarrow> bool" where
  "crossesUp from to b \<longleftrightarrow> mv_cmp from (vb_lower b) \<le> 0 \<and> mv_cmp to (vb_upper b) \<ge> 0"

definition crossesDown :: "minorVersion \<Rightarrow> minorVersion \<Rightarrow> versionBoundary \<Rightarrow> bool" where
  "crossesDown from to b \<longleftrightarrow> mv_cmp from (vb_upper b) \<ge> 0 \<and> mv_cmp to (vb_lower b) \<le> 0"

definition breakingReason :: "string \<Rightarrow> string \<Rightarrow> string" where
  "breakingReason fromImage toImage =
     (case (minorOf fromImage, minorOf toImage) of
        (Some from, Some to) \<Rightarrow>
          if from = to then []
          else join (map vb_reason (filter (\<lambda>b. vb_upward b \<and> crossesUp from to b
                                              \<or> vb_downward b \<and> crossesDown from to b)
                                           breakingBoundaries)) ''; ''
      | _ \<Rightarrow> [])"

definition isBreakingUpgrade :: "string \<Rightarrow> string \<Rightarrow> bool" where
  "isBreakingUpgrade fromImage toImage \<longleftrightarrow> breakingReason fromImage toImage \<noteq> []"

section \<open>The order on versions\<close>

definition version_ok :: "minorVersion \<Rightarrow> bool" where
  "version_ok v \<longleftrightarrow> 0 \<le> major v \<and> major v < 2 ^ 63 \<and> 0 \<le> minor v \<and> minor v < 2 ^ 63"

locale version_order =
  fixes cmp :: "'v \<Rightarrow> 'v \<Rightarrow> int" and ok :: "'v \<Rightarrow> bool"
  assumes cmp_flip: "ok v \<Longrightarrow> ok w \<Longrightarrow> cmp v w \<le> 0 \<longleftrightarrow> 0 \<le> cmp w v"
    and cmp_trans: "ok u \<Longrightarrow> ok v \<Longrightarrow> ok w \<Longrightarrow> cmp u v \<le> 0 \<Longrightarrow> cmp v w \<le> 0 \<Longrightarrow> cmp u w \<le> 0"
    and cmp_total: "ok v \<Longrightarrow> ok w \<Longrightarrow> cmp v w \<le> 0 \<or> cmp w v \<le> 0"
    and cmp_antisym: "ok v \<Longrightarrow> ok w \<Longrightarrow> cmp v w \<le> 0 \<Longrightarrow> cmp w v \<le> 0 \<Longrightarrow> v = w"
begin

text \<open>
  A boundary between two neighbours \<open>lo\<close> and \<open>hi\<close> is crossed by a walk exactly when one
  of the walk's two legs crosses it.
\<close>

lemma cross_split:
  assumes ok: "ok a" "ok b" "ok c" "ok lo" "ok hi"
    and ord: "cmp a b \<le> 0" "cmp b c \<le> 0"
    and nb: "cmp lo hi \<le> 0" "cmp b lo \<le> 0 \<or> cmp hi b \<le> 0"
  shows "cmp a lo \<le> 0 \<and> cmp hi c \<le> 0 \<longleftrightarrow>
    cmp a lo \<le> 0 \<and> cmp hi b \<le> 0 \<or> cmp b lo \<le> 0 \<and> cmp hi c \<le> 0"
  using ok ord nb by (meson cmp_trans)

text \<open>A walk that goes up crosses a proper boundary downwards never.\<close>

lemma no_cross_back:
  assumes ok: "ok a" "ok c" "ok lo" "ok hi"
    and ord: "cmp a c \<le> 0" and nb: "cmp lo hi \<le> 0" "lo \<noteq> hi"
  shows "\<not> (cmp hi a \<le> 0 \<and> cmp c lo \<le> 0)"
  using assms by (meson cmp_antisym cmp_trans)

end

lemma mv_cmp_le_iff:
  assumes "version_ok v" "version_ok w"
  shows "mv_cmp v w \<le> 0 \<longleftrightarrow> major v < major w \<or> major v = major w \<and> minor v \<le> minor w"
    and "0 \<le> mv_cmp v w \<longleftrightarrow> major w < major v \<or> major v = major w \<and> minor w \<le> minor v"
proof -
  from assms have "wrap64 (major v - major w) = major v - major w"
      "wrap64 (minor v - minor w) = minor v - minor w"
    by (auto simp: version_ok_def int64_ok_def intro!: wrap64_id)
  then show "mv_cmp v w \<le> 0 \<longleftrightarrow> major v < major w \<or> major v = major w \<and> minor v \<le> minor w"
    and "0 \<le> mv_cmp v w \<longleftrightarrow> major w < major v \<or> major v = major w \<and> minor w \<le> minor v"
    by (auto simp: mv_cmp_def)
qed

interpretation mv: version_order mv_cmp version_ok
  by unfold_locales (auto simp: mv_cmp_le_iff)

lemma version_ok_mk [simp]: "version_ok (mk_version a b) \<longleftrightarrow> 0 \<le> a \<and> a < 2 ^ 63 \<and> 0 \<le> b \<and> b < 2 ^ 63"
  by (auto simp: version_ok_def)

section \<open>Lemmas on the table\<close>

lemma boundary_props:
  assumes "b \<in> set breakingBoundaries"
  shows "version_ok (vb_lower b)" "version_ok (vb_upper b)" "vb_reason b \<noteq> []"
    and "mv_cmp (vb_lower b) (vb_upper b) \<le> 0" "vb_lower b \<noteq> vb_upper b"
    and "version_ok v \<Longrightarrow> mv_cmp v (vb_lower b) \<le> 0 \<or> mv_cmp (vb_upper b) v \<le> 0"
  using assms by (auto simp: breakingBoundaries_def mv_cmp_le_iff)

lemma breakingReason_iff:
  assumes "minorOf f = Some from" "minorOf t = Some to"
  shows "breakingReason f t \<noteq> [] \<longleftrightarrow> from \<noteq> to \<and>
    (\<exists>b \<in> set breakingBoundaries.
       vb_upward b \<and> crossesUp from to b \<or> vb_downward b \<and> crossesDown from to b)"
proof -
  let ?P = "\<lambda>b. vb_upward b \<and> crossesUp from to b \<or> vb_downward b \<and> crossesDown from to b"
  have "[] \<notin> set (map vb_reason (filter ?P breakingBoundaries))"
    using boundary_props(3) by (auto simp: eq_commute [of "[]"])
  from join_eq_Nil [OF this] assms show ?thesis
    by (auto simp: breakingReason_def filter_empty_conv)
qed

lemma crosses_as_cmp:
  assumes "version_ok from" "version_ok to" "b \<in> set breakingBoundaries"
  shows "crossesUp from to b \<longleftrightarrow> mv_cmp from (vb_lower b) \<le> 0 \<and> mv_cmp (vb_upper b) to \<le> 0"
    and "crossesDown from to b \<longleftrightarrow> mv_cmp to (vb_lower b) \<le> 0 \<and> mv_cmp (vb_upper b) from \<le> 0"
  using assms boundary_props(1,2) [OF assms(3)] mv.cmp_flip
  by (auto simp: crossesUp_def crossesDown_def)

lemma crosses_split:
  assumes "version_ok x" "version_ok y" "version_ok z" "mv_cmp x y \<le> 0" "mv_cmp y z \<le> 0"
    and b: "b \<in> set breakingBoundaries"
  shows "crossesUp x z b \<longleftrightarrow> crossesUp x y b \<or> crossesUp y z b"
    and "crossesDown z x b \<longleftrightarrow> crossesDown z y b \<or> crossesDown y x b"
  using mv.cross_split [OF assms(1-3) boundary_props(1,2) [OF b] assms(4,5) boundary_props(4) [OF b]
      boundary_props(6) [OF b assms(2)]] assms(1-3)
  by (auto simp: crosses_as_cmp [OF _ _ b])

lemma crosses_one_way:
  assumes "version_ok x" "version_ok z" "mv_cmp x z \<le> 0" and b: "b \<in> set breakingBoundaries"
  shows "\<not> crossesDown x z b" and "\<not> crossesUp z x b"
  using mv.no_cross_back [OF assms(1,2) boundary_props(1,2) [OF b] assms(3) boundary_props(4,5) [OF b]]
    assms(1,2)
  by (auto simp: crosses_as_cmp [OF _ _ b])

section \<open>Images of a release\<close>

text \<open>An image reference: repository, release tag, optional digest.\<close>

definition image_ref :: "string \<Rightarrow> nat \<Rightarrow> nat \<Rightarrow> string \<Rightarrow> string \<Rightarrow> string" where
  "image_ref repo a b patch digest =
     repo @ '':v'' @ show_nat a @ ''.'' @ show_nat b @ ''.'' @ patch
       @ (if digest = [] then [] else ''@'' @ digest)"

lemma minorOf_image_ref:
  assumes repo: "CHR ''@'' \<notin> set repo"
    and patch: "CHR '':'' \<notin> set patch" "CHR ''@'' \<notin> set patch"
    and bnd: "a < 2 ^ 63" "b < 2 ^ 63"
  shows "minorOf (image_ref repo a b patch digest) = Some (mk_version (int a) (int b))"
proof -
  let ?tag = "show_nat a @ ''.'' @ show_nat b @ ''.'' @ patch"
  let ?img = "repo @ '':v'' @ ?tag"
  have nd: "c \<notin> set (show_nat k)" if "c \<in> {CHR ''@'', CHR '':'', CHR ''.''}" for c k
    using that by (intro show_nat_no_sep) (auto simp: is_digit_def)
  have at: "CHR ''@'' \<notin> set ?img" using repo patch nd by simp
  have img: "fst (cut (image_ref repo a b patch digest) CHR ''@'') = ?img"
  proof (cases "digest = []")
    case True
    with at show ?thesis by (simp add: image_ref_def)
  next
    case False
    then have "image_ref repo a b patch digest = ?img @ CHR ''@'' # digest"
      by (simp add: image_ref_def)
    with cut_append [OF at] show ?thesis by simp
  qed
  have idx: "lastIndex ?img CHR '':'' = int (length repo)"
    using lastIndex_append [of "CHR '':''" "''v'' @ ?tag" repo] patch nd by simp
  have drop: "trimPrefix (drop (nat (int (length repo) + 1)) ?img) ''v'' = ?tag"
    using trimPrefix_append [of "''v''" ?tag] by (simp add: nat_add_distrib)
  have "splitN ?tag CHR ''.'' 3 = [show_nat a, show_nat b, patch]"
    using cut_append [of "CHR ''.''" "show_nat a" "show_nat b @ ''.'' @ patch"]
      cut_append [of "CHR ''.''" "show_nat b" patch] nd
    by (simp add: numeral_3_eq_3)
  with img idx drop bnd show ?thesis
    by (simp add: minorOf_def atoi_show_nat)
qed

lemma breaking_up_split:
  assumes a: "minorOf a = Some x" "minorOf b = Some y" "minorOf c = Some z"
    and ok: "version_ok x" "version_ok y" "version_ok z"
    and ord: "mv_cmp x y \<le> 0" "mv_cmp y z \<le> 0"
  shows "isBreakingUpgrade a c \<longleftrightarrow> isBreakingUpgrade a b \<or> isBreakingUpgrade b c"
    and "isBreakingUpgrade c a \<longleftrightarrow> isBreakingUpgrade c b \<or> isBreakingUpgrade b a"
proof -
  from ok ord have xz: "mv_cmp x z \<le> 0" by (rule mv.cmp_trans)
  note one_way = crosses_one_way [OF ok(1,2) ord(1)] crosses_one_way [OF ok(2,3) ord(2)]
    crosses_one_way [OF ok(1,3) xz]
  have refl: "mv_cmp v v \<le> 0" for v by (simp add: mv_cmp_def wrap64_def)
  have self: "\<not> crossesUp v v b'" "\<not> crossesDown v v b'"
    if "version_ok v" "b' \<in> set breakingBoundaries" for v b'
    using crosses_one_way [OF that(1,1) refl that(2)] by simp_all
  note iffs = breakingReason_iff [OF a(1) a(3)] breakingReason_iff [OF a(1) a(2)]
    breakingReason_iff [OF a(2) a(3)] breakingReason_iff [OF a(3) a(1)]
    breakingReason_iff [OF a(3) a(2)] breakingReason_iff [OF a(2) a(1)]
  show "isBreakingUpgrade a c \<longleftrightarrow> isBreakingUpgrade a b \<or> isBreakingUpgrade b c"
    unfolding isBreakingUpgrade_def iffs
    using one_way crosses_split(1) [OF ok ord] self ok by blast
  show "isBreakingUpgrade c a \<longleftrightarrow> isBreakingUpgrade c b \<or> isBreakingUpgrade b a"
    unfolding isBreakingUpgrade_def iffs
    using one_way crosses_split(2) [OF ok ord] self ok by blast
qed

section \<open>Properties\<close>

text \<open>
  C33. A change of version crosses a refused boundary exactly when one of its legs does:
  for versions \<open>x \<le> y \<le> z\<close> the jump between \<open>x\<close> and \<open>z\<close> is breaking if and only if the
  step between \<open>x\<close> and \<open>y\<close> or the step between \<open>y\<close> and \<open>z\<close> is, upwards and
  downwards. A jump that skips minors is refused whenever some consecutive step is, and
  no detour makes a refused jump acceptable.
\<close>

theorem breaking_jump_iff_leg:
  assumes "minorOf a = Some x" "minorOf b = Some y" "minorOf c = Some z"
    and "version_ok x" "version_ok y" "version_ok z"
    and "mv_cmp x y \<le> 0" "mv_cmp y z \<le> 0"
  shows "(isBreakingUpgrade a c \<longleftrightarrow> isBreakingUpgrade a b \<or> isBreakingUpgrade b c) \<and>
    (isBreakingUpgrade c a \<longleftrightarrow> isBreakingUpgrade c b \<or> isBreakingUpgrade b a)"
  using breaking_up_split [OF assms] by blast

theorem breaking_jump_iff_leg_witness:
  "isBreakingUpgrade ''celld:v0.2.1'' ''celld:v0.4.0'' \<longleftrightarrow>
     isBreakingUpgrade ''celld:v0.2.1'' ''celld:v0.3.0'' \<or>
     isBreakingUpgrade ''celld:v0.3.0'' ''celld:v0.4.0''"
proof -
  have v: "minorOf ''celld:v0.2.1'' = Some (mk_version 0 2)"
      "minorOf ''celld:v0.3.0'' = Some (mk_version 0 3)"
      "minorOf ''celld:v0.4.0'' = Some (mk_version 0 4)"
    by code_simp+
  have ok: "version_ok (mk_version 0 2)" "version_ok (mk_version 0 3)" "version_ok (mk_version 0 4)"
    by simp_all
  have ord: "mv_cmp (mk_version 0 2) (mk_version 0 3) \<le> 0" "mv_cmp (mk_version 0 3) (mk_version 0 4) \<le> 0"
    by (simp_all add: mv_cmp_le_iff)
  show ?thesis using breaking_jump_iff_leg [OF v ok ord] by blast
qed

text \<open>
  C40. Reading the version back from an image reference: for every repository (a registry
  port included), patch part and digest, \<open>minorOf\<close> returns the major and minor numbers
  the tag was rendered with.
\<close>

theorem minorOf_reads_release:
  assumes "CHR ''@'' \<notin> set repo" "CHR '':'' \<notin> set patch" "CHR ''@'' \<notin> set patch"
    and "a < 2 ^ 63" "b < 2 ^ 63"
  shows "minorOf (image_ref repo a b patch digest) = Some (mk_version (int a) (int b))"
  using assms by (rule minorOf_image_ref)

theorem minorOf_reads_release_witness:
  "minorOf (image_ref ''registry:5000/celld'' 0 6 ''2'' ''sha256:7c22'') = Some (mk_version 0 6)"
  using minorOf_reads_release [of "''registry:5000/celld''" "''2''" 0 6 "''sha256:7c22''"] by simp

end
