(* ===== verification/Fleet_Resources.thy ===== *)
theory Fleet_Resources
  imports Api_Types Celld_Version
begin

text \<open>
  The builders of \<open>src/internal/controller/fleet_resources.go\<close>: names, labels and sizes
  derived from a WorkerApp, the pod template and its fingerprint, and the StatefulSet.
\<close>

section \<open>Constants\<close>

definition celldContainerName :: string where "celldContainerName = ''celld''"
definition watchVolumeName :: string where "watchVolumeName = ''watch''"
definition varsVolumeName :: string where "varsVolumeName = ''vars''"
definition annotationTrue :: string where "annotationTrue = ''true''"
definition iamRoleAuto :: string where "iamRoleAuto = ''auto''"
definition defaultBucketRegion :: string where "defaultBucketRegion = ''auto''"
definition workerAppLabel :: string where "workerAppLabel = ''celld-operator.io/workerapp''"
definition appVersionAnnotation :: string where
  "appVersionAnnotation = ''celld-operator.io/app-version''"
definition templateHashAnnotation :: string where
  "templateHashAnnotation = ''celld-operator.io/template-hash''"
definition kedaPausedAnnotation :: string where
  "kedaPausedAnnotation = ''autoscaling.keda.sh/paused''"
definition publicPort :: int where "publicPort = 8080"
definition internalPort :: int where "internalPort = 8081"
definition healthPath :: string where "healthPath = ''/.well-known/celld/health''"
definition shutdownTotalMs :: int where "shutdownTotalMs = 40000"
definition terminationGraceS :: int where "terminationGraceS = 60"
definition watchDir :: string where "watchDir = ''/var/lib/celld''"
definition varsDir :: string where "varsDir = ''/etc/celld/vars''"
definition varsKey :: string where "varsKey = ''vars.env''"
definition configHashAnnotation :: string where
  "configHashAnnotation = ''celld-operator.io/config-hash''"
definition azureWorkloadIdentityUseLabel :: string where
  "azureWorkloadIdentityUseLabel = ''azure.workload.identity/use''"
definition azureClientIDAnnotation :: string where
  "azureClientIDAnnotation = ''azure.workload.identity/client-id''"

lemmas fleet_consts [code_unfold] = celldContainerName_def watchVolumeName_def varsVolumeName_def
  annotationTrue_def iamRoleAuto_def defaultBucketRegion_def workerAppLabel_def
  appVersionAnnotation_def templateHashAnnotation_def kedaPausedAnnotation_def publicPort_def
  internalPort_def healthPath_def shutdownTotalMs_def terminationGraceS_def watchDir_def
  varsDir_def varsKey_def configHashAnnotation_def azureWorkloadIdentityUseLabel_def
  azureClientIDAnnotation_def

section \<open>Names, labels and sizes\<close>

definition isAzureBucket :: "WorkerApp \<Rightarrow> bool" where
  "isAzureBucket app \<longleftrightarrow> hasPrefix (bk_name (ws_bucket (wa_spec app))) ''az://''"

definition fleetName :: "WorkerApp \<Rightarrow> string" where
  "fleetName app = app_name app @ ''-celld''"

definition internalServiceName :: "WorkerApp \<Rightarrow> string" where
  "internalServiceName app = app_name app @ ''-celld-internal''"

definition fleetLabels :: "WorkerApp \<Rightarrow> smap" where
  "fleetLabels app =
     gm_copy [] [(''app.kubernetes.io/instance'', app_name app),
                 (''app.kubernetes.io/name'', celldContainerName),
                 (workerAppLabel, app_name app)]"

definition selectorLabels :: "WorkerApp \<Rightarrow> smap" where
  "selectorLabels app = [(workerAppLabel, app_name app)]"

definition desiredReplicas :: "WorkerApp \<Rightarrow> int" where
  "desiredReplicas app = (case ws_replicas (wa_spec app) of Some n \<Rightarrow> n | None \<Rightarrow> 3)"

definition memoryGi :: "WorkerApp \<Rightarrow> int" where
  "memoryGi app =
     (let n = rs_memoryGi (ws_resources (wa_spec app)) in if n > 0 then n else 8)"

definition maxResidentCells :: "WorkerApp \<Rightarrow> int" where
  "maxResidentCells app =
     (let n = rs_maxResidentCells (ws_resources (wa_spec app)) in if n > 0 then n else 1000)"

definition clusterDomain :: "WorkerApp \<Rightarrow> string" where
  "clusterDomain app =
     (if ws_clusterDomain (wa_spec app) \<noteq> [] then ws_clusterDomain (wa_spec app)
      else ''cluster.local'')"

definition defaultPositive :: "int \<Rightarrow> int \<Rightarrow> int" where
  "defaultPositive value fallback = (if value > 0 then value else fallback)"

definition autoscalingEnabled :: "WorkerApp \<Rightarrow> bool" where
  "autoscalingEnabled app \<longleftrightarrow>
     (case ws_autoscaling (wa_spec app) of None \<Rightarrow> False | Some as \<Rightarrow> as_enabled as)"

section \<open>The pod template\<close>

text \<open>\<open>int64(memGi) * 1024 * 4 / 5\<close>; the quotient of a non-negative product.\<close>

definition rssMb :: "WorkerApp \<Rightarrow> int" where
  "rssMb app = wrap64 (wrap64 (memoryGi app * 1024) * 4) div 5"

definition templateEnv :: "WorkerApp \<Rightarrow> EnvVar list" where
  "templateEnv app =
     (let spec = wa_spec app; bk = ws_bucket spec; tel = ws_telemetry spec;
          dur = (if ws_durability spec = [] then DurabilityBucket else ws_durability spec);
          telemetryOn = (tl_enabled tel = None \<or> tl_enabled tel = Some True);
          legacyTelemetry = (case minorOf (app_image app) of
                               None \<Rightarrow> False | Some v \<Rightarrow> mv_cmp v (mk_version 0 5) < 0);
          otlp = (ResolvedSink tel = TelemetrySinkOTLP);
          otelValue = (if otlp \<and> \<not> legacyTelemetry
                       then (if tl_otlpEndpoint tel = [] then ''http://localhost:4318''
                             else tl_otlpEndpoint tel)
                       else ''1'')
      in [env_val ''HOME'' ''/tmp'',
          \<lparr>ev_name = ''POD_NAME'', ev_value = [], ev_fieldPath = Some ''metadata.name''\<rparr>,
          env_val ''CELLD_BUCKET'' (bk_name bk),
          env_val ''CELLD_INTERNAL_ADDR'' (''0.0.0.0:'' @ show_int internalPort),
          env_val ''CELLD_ADVERTISE''
            (''$(POD_NAME).'' @ internalServiceName app @ ''.'' @ app_namespace app @ ''.svc.''
               @ clusterDomain app @ '':'' @ show_int internalPort),
          env_val ''CELLD_WATCH'' watchDir,
          env_val ''CELLD_SHUTDOWN_TOTAL_MS'' (show_int shutdownTotalMs),
          env_val ''CELLD_MAX_RESIDENT_CELLS'' (show_int (maxResidentCells app)),
          env_val ''CELLD_MAX_RSS_MB'' (show_int (rssMb app))]
         @ (if bk_endpoint bk \<noteq> [] then [env_val ''S3_ENDPOINT'' (bk_endpoint bk)] else [])
         @ (if bk_region bk \<noteq> [] then [env_val ''AWS_REGION'' (bk_region bk)] else [])
         @ (if isAzureBucket app \<and> bk_storageAccount bk \<noteq> []
            then [env_val ''AZURE_STORAGE_ACCOUNT_NAME'' (bk_storageAccount bk)] else [])
         @ (if dur \<noteq> [] then [env_val ''CELLD_DURABILITY'' dur] else [])
         @ (if ws_trustForwardedHeaders spec
            then [env_val ''CELLD_TRUST_FORWARDED_HEADERS'' ''1''] else [])
         @ (if telemetryOn then
              [env_val ''CELLD_OTEL'' otelValue, env_val ''OTEL_SERVICE_NAME'' (app_name app)]
              @ (if otlp then
                   (if legacyTelemetry then [env_val ''CELLD_OTEL_SINK'' ''otlp''] else [])
                   @ (if legacyTelemetry \<and> tl_otlpEndpoint tel \<noteq> []
                      then [env_val ''OTEL_EXPORTER_OTLP_ENDPOINT'' (tl_otlpEndpoint tel)] else [])
                 else if tl_retention tel \<noteq> []
                 then [env_val ''CELLD_OTEL_RETENTION'' (tl_retention tel)] else [])
            else [env_val ''CELLD_OTEL'' ''0''])
         @ (if ws_vars spec \<noteq> None
            then [env_val ''CELLD_VARS_FILE'' (varsDir @ ''/'' @ varsKey)] else []))"

text \<open>
  The volumes start with the writable watch directory, which persistent storage removes
  again (\<open>volumes = volumes[1:]\<close>) because the claim of the same name takes its place.
\<close>

definition templateVolumes :: "WorkerApp \<Rightarrow> Volume list" where
  "templateVolumes app =
     (let base = [\<lparr>vo_name = watchVolumeName, vo_source = EmptyDir\<rparr>]
                 @ (case ws_vars (wa_spec app) of None \<Rightarrow> []
                    | Some v \<Rightarrow> [\<lparr>vo_name = varsVolumeName, vo_source = SecretVolume (va_secretRef v)\<rparr>]);
          kept = (if ws_storage (wa_spec app) \<noteq> None then tl base else base)
      in kept @ [\<lparr>vo_name = ''tmp'', vo_source = EmptyDir\<rparr>])"

definition templateMounts :: "WorkerApp \<Rightarrow> VolumeMount list" where
  "templateMounts app =
     [\<lparr>vm_name = watchVolumeName, vm_mountPath = watchDir, vm_readOnly = False\<rparr>]
     @ (case ws_vars (wa_spec app) of None \<Rightarrow> []
        | Some v \<Rightarrow> [\<lparr>vm_name = varsVolumeName, vm_mountPath = varsDir, vm_readOnly = True\<rparr>])
     @ [\<lparr>vm_name = ''tmp'', vm_mountPath = ''/tmp'', vm_readOnly = False\<rparr>]"

definition templateContainer :: "WorkerApp \<Rightarrow> Container" where
  "templateContainer app =
     (let secretRef = bc_secretRef (app_credentials app); res = ws_resources (wa_spec app) in
      \<lparr>co_name = celldContainerName,
       co_image = app_image app,
       co_args = [''--bucket'', bk_name (ws_bucket (wa_spec app)),
                  ''--listen'', ''0.0.0.0:'' @ show_int publicPort],
       co_env = templateEnv app,
       co_envFromSecrets = (if secretRef \<noteq> [] then [secretRef] else []),
       co_ports = [(''public'', publicPort), (''internal'', internalPort)],
       co_startupProbe = Some \<lparr>pr_handler = TCPSocket publicPort, pr_periodSeconds = 5,
                               pr_failureThreshold = 120\<rparr>,
       co_readinessProbe = Some \<lparr>pr_handler = HTTPGet healthPath publicPort, pr_periodSeconds = 5,
                                 pr_failureThreshold = 3\<rparr>,
       co_livenessProbe = Some \<lparr>pr_handler = TCPSocket publicPort, pr_periodSeconds = 20,
                                pr_failureThreshold = 3\<rparr>,
       co_requests = [(''cpu'', Milli (defaultPositive (rs_cpuMillis res) 500)),
                      (''memory'', Gi (memoryGi app))],
       co_limits = [(''ephemeral-storage'', Gi (defaultPositive (rs_ephemeralStorageGi res) 10)),
                    (''memory'', Gi (memoryGi app))],
       co_volumeMounts = templateMounts app,
       co_securityContext = Some \<lparr>cs_allowPrivilegeEscalation = False,
         cs_readOnlyRootFilesystem = True, cs_dropCapabilities = [''ALL'']\<rparr>\<rparr>)"

definition fleetAffinity :: "WorkerApp \<Rightarrow> affinity_term list option" where
  "fleetAffinity app =
     (case ws_storage (wa_spec app) of
        None \<Rightarrow> None
      | Some _ \<Rightarrow>
          let keys = [''kubernetes.io/hostname'']
                     @ (if sc_spreadAcrossZones (ws_scheduling (wa_spec app))
                        then [''topology.kubernetes.io/zone''] else [])
          in Some (map (\<lambda>key. \<lparr>at_topologyKey = key, at_matchLabels = selectorLabels app\<rparr>) keys))"

definition buildPodTemplate :: "WorkerApp \<Rightarrow> string \<Rightarrow> string \<Rightarrow> PodTemplateSpec" where
  "buildPodTemplate app configHash version =
     (let spec = wa_spec app;
          ann1 = (if version \<noteq> [] \<and> ws_deploymentPolicy spec \<noteq> ''InPlace''
                  then gm_set appVersionAnnotation version [] else []);
          ann2 = (if configHash \<noteq> [] then gm_set configHashAnnotation configHash ann1 else ann1);
          labels = (if bc_azureClientID (app_credentials app) \<noteq> []
                    then gm_set azureWorkloadIdentityUseLabel annotationTrue (fleetLabels app)
                    else fleetLabels app)
      in \<lparr>pt_labels = labels,
          pt_annotations = ann2,
          pt_spec =
            \<lparr>ps_automountServiceAccountToken = Some False,
             ps_securityContext = Some \<lparr>psc_runAsNonRoot = True, psc_runAsUser = 10001,
               psc_runAsGroup = 10001, psc_fsGroup = 10001, psc_seccompProfile = ''RuntimeDefault''\<rparr>,
             ps_nodeSelector = sc_nodeSelector (ws_scheduling spec),
             ps_tolerations = sc_tolerations (ws_scheduling spec),
             ps_antiAffinity = fleetAffinity app,
             ps_serviceAccountName = fleetName app,
             ps_terminationGracePeriodSeconds = Some terminationGraceS,
             ps_containers = [templateContainer app],
             ps_volumes = templateVolumes app,
             ps_topologySpread = [\<lparr>sp_maxSkew = 1, sp_topologyKey = ''kubernetes.io/hostname'',
               sp_whenUnsatisfiable = ''ScheduleAnyway'', sp_matchLabels = selectorLabels app\<rparr>]\<rparr>\<rparr>)"

section \<open>Fingerprint and StatefulSet\<close>

definition templateHash :: "platform \<Rightarrow> PodTemplateSpec \<Rightarrow> string" where
  "templateHash P t =
     (case pf_marshalTemplate P t of
        None \<Rightarrow> ''marshal-error''
      | Some raw \<Rightarrow> hex (take 8 (pf_sha256 P raw)))"

definition fleetClaims :: "WorkerApp \<Rightarrow> pvc list" where
  "fleetClaims app =
     (case ws_storage (wa_spec app) of
        None \<Rightarrow> []
      | Some sg \<Rightarrow> [\<lparr>pvc_name = watchVolumeName, pvc_accessModes = [''ReadWriteOnce''],
                   pvc_storageClassName = sg_storageClassName sg, pvc_storage = Gi (sg_sizeGi sg)\<rparr>])"

definition buildStatefulSet :: "platform \<Rightarrow> WorkerApp \<Rightarrow> string \<Rightarrow> string \<Rightarrow> StatefulSet" where
  "buildStatefulSet P app configHash version =
     (let template = buildPodTemplate app configHash version in
      \<lparr>st_meta = new_meta (fleetName app) (app_namespace app) (fleetLabels app)
                  [(templateHashAnnotation, templateHash P template)],
       st_replicas = Some (desiredReplicas app),
       st_selector = selectorLabels app,
       st_serviceName = internalServiceName app,
       st_template = template,
       st_updateStrategy = \<lparr>su_type = ''RollingUpdate'', su_rollingUpdate = Some (Some 0)\<rparr>,
       st_volumeClaims = fleetClaims app,
       st_pvcRetention = (''Retain'', ''Retain''),
       st_status = zero_sts_status\<rparr>)"

end
