(* ===== verification/Fleet_State.thy ===== *)
theory Fleet_State
  imports Fleet_Resources "HOL-Library.Multiset"
begin

text \<open>
  Fleet state samples and sweeps (\<open>src/internal/controller/fleetstate.go\<close>) and the
  observation the rollout gates use (\<open>podReady\<close> and \<open>observeFleet\<close> of
  \<open>src/internal/controller/rollout.go\<close>).

  \<open>FleetSweep\<close> runs one goroutine per pod; each one adds its sample inside a critical
  section. Its result therefore depends on the goroutines only through the order in which
  they complete, and the model processes the pods in that order: the argument \<open>pods\<close> of
  \<open>FleetSweep\<close> is the pod list in completion order, and \<open>observeFleet\<close> takes the scheduler
  that turns the listed order into a completion order.
\<close>

section \<open>Samples\<close>

record DeploymentState =
  ds_version :: string
  ds_generation :: int
  ds_draining :: "json list"
  ds_swapping :: int

record PodState =
  po_deployment :: "DeploymentState option"
  po_occupied :: int
  po_evicting :: int
  po_restoring :: int
  po_activating :: int
  po_activationWaiting :: int
  po_capacityWaiting :: int
  po_shedding :: "string option"
  po_rssBytes :: int
  po_inUseBytes :: int
  po_cgroupWorkingSetBytes :: "int option"
  po_cgroupCurrentBytes :: "int option"

definition IsShedding :: "PodState \<Rightarrow> bool" where
  "IsShedding s \<longleftrightarrow> po_shedding s \<noteq> None"

section \<open>Sweeping a fleet\<close>

record sweep =
  sw_states :: "PodState gomap"
  sw_restoring :: int
  sw_err :: "gerror option"

abbreviation pod_name :: "Pod \<Rightarrow> string" where
  "pod_name p \<equiv> om_name (pod_meta p)"

definition sweepPod :: "(string \<Rightarrow> PodState result) \<Rightarrow> Pod \<Rightarrow> PodState result" where
  "sweepPod fetch pod =
     (if pod_ip pod = [] \<or> pod_phase pod \<noteq> ''Running'' \<or> om_deleting (pod_meta pod)
      then Inl (OtherError (''pod '' @ pod_name pod @ '' is unavailable''))
      else case fetch (pod_ip pod) of
             Inl e \<Rightarrow> Inl (Wrapped (''pod '' @ pod_name pod) e)
           | Inr state \<Rightarrow> Inr state)"

text \<open>The end of one goroutine: the group keeps the first error it is given.\<close>

definition sweepStep :: "(string \<Rightarrow> PodState result) \<Rightarrow> sweep \<Rightarrow> Pod \<Rightarrow> sweep" where
  "sweepStep fetch acc pod =
     (case sweepPod fetch pod of
        Inl e \<Rightarrow> acc\<lparr>sw_err := (case sw_err acc of None \<Rightarrow> Some e | Some e0 \<Rightarrow> Some e0)\<rparr>
      | Inr state \<Rightarrow> acc\<lparr>sw_states := gm_set (pod_name pod) state (sw_states acc),
                       sw_restoring := wrap64 (sw_restoring acc + po_restoring state)\<rparr>)"

definition FleetSweep :: "(string \<Rightarrow> PodState result) \<Rightarrow> Pod list \<Rightarrow> sweep" where
  "FleetSweep fetch pods =
     foldl (sweepStep fetch) \<lparr>sw_states = [], sw_restoring = 0, sw_err = None\<rparr> pods"

section \<open>Observing a fleet\<close>

definition podReady :: "Pod \<Rightarrow> bool" where
  "podReady pod =
     (if om_deleting (pod_meta pod) then False
      else case map_of (pod_conditions pod) ''Ready'' of
             None \<Rightarrow> False
           | Some status \<Rightarrow> status = ''True'')"

definition ordinal_name :: "string \<Rightarrow> int \<Rightarrow> string" where
  "ordinal_name base i = base @ ''-'' @ show_int i"

definition failed_sweep :: "gerror \<Rightarrow> sweep" where
  "failed_sweep e = \<lparr>sw_states = [], sw_restoring = 0, sw_err = Some e\<rparr>"

text \<open>
  The answers one observation depends on: the uncached pod list, the state of the pod at
  an address, and the order in which the goroutines of the sweep complete.
\<close>

record obs_env =
  oe_listed :: "Pod list result"
  oe_fetch :: "string \<Rightarrow> PodState result"
  oe_sched :: "Pod list \<Rightarrow> Pod list"

definition observeFleet :: "platform \<Rightarrow> obs_env \<Rightarrow> StatefulSet \<Rightarrow> sweep" where
  "observeFleet P E sts =
     (case oe_listed E of
        Inl e \<Rightarrow> failed_sweep e
      | Inr pods \<Rightarrow>
          let expected = deref0 (st_replicas sts) in
          if expected < 1 \<or> wrap32 (int (length pods)) \<noteq> expected
          then failed_sweep (OtherError (''expected '' @ show_int expected @ '' pods, found ''
                               @ show_nat (length pods)))
          else case find (\<lambda>p. \<not> pf_IsControlledBy P (pod_meta p) (st_meta sts) \<or> \<not> podReady p) pods of
            Some p \<Rightarrow> failed_sweep (OtherError (''pod '' @ pod_name p
                        @ '' is not ready or not owned by the fleet''))
          | None \<Rightarrow>
              (case find (\<lambda>i. ordinal_name (om_name (st_meta sts)) i \<notin> set (map pod_name pods))
                      [0..expected - 1] of
                 Some i \<Rightarrow> failed_sweep (OtherError (''missing ordinal '' @ show_int i))
               | None \<Rightarrow> FleetSweep (oe_fetch E) (oe_sched E pods)))"

section \<open>What a sweep returns\<close>

definition sweep_samples :: "(string \<Rightarrow> PodState result) \<Rightarrow> Pod list \<Rightarrow> (string \<times> PodState) list" where
  "sweep_samples fetch pods =
     List.map_filter (\<lambda>p. case sweepPod fetch p of Inl _ \<Rightarrow> None | Inr s \<Rightarrow> Some (pod_name p, s)) pods"

lemma sweep_samples_simps [simp]:
  "sweep_samples fetch [] = []"
  "sweep_samples fetch (p # ps) =
     (case sweepPod fetch p of Inl _ \<Rightarrow> [] | Inr s \<Rightarrow> [(pod_name p, s)]) @ sweep_samples fetch ps"
  by (simp_all add: sweep_samples_def List.map_filter_def split: sum.split)

lemma sweep_samples_names: "set (map fst (sweep_samples fetch pods)) \<subseteq> set (map pod_name pods)"
  by (induction pods) (auto split: sum.splits)

lemma sweep_samples_distinct:
  "distinct (map pod_name pods) \<Longrightarrow> distinct (map fst (sweep_samples fetch pods))"
proof (induction pods)
  case (Cons p ps)
  then show ?case
    using sweep_samples_names [of fetch ps] by (auto split: sum.splits)
qed simp

lemma foldl_sweepStep:
  "sw_states (foldl (sweepStep fetch) acc pods) =
     foldl (\<lambda>m e. gm_set (fst e) (snd e) m) (sw_states acc) (sweep_samples fetch pods)"
  "wrap64 (sw_restoring (foldl (sweepStep fetch) acc pods)) =
     wrap64 (sw_restoring acc + sum_list (map (po_restoring \<circ> snd) (sweep_samples fetch pods)))"
  "sw_err (foldl (sweepStep fetch) acc pods) = None \<longleftrightarrow>
     sw_err acc = None \<and> (\<forall>p \<in> set pods. \<exists>s. sweepPod fetch p = Inr s)"
proof (induction pods arbitrary: acc)
  case (Cons p ps)
  {
    case 1
    show ?case using Cons(1) [of "sweepStep fetch acc p"]
      by (auto simp: sweepStep_def split: sum.splits)
  next
    case 2
    show ?case using Cons(2) [of "sweepStep fetch acc p"]
      by (auto simp: sweepStep_def algebra_simps split: sum.splits)
  next
    case 3
    show ?case using Cons(3) [of "sweepStep fetch acc p"]
      by (auto simp: sweepStep_def split: sum.splits option.splits)
  }
qed simp_all

lemma foldl_sweepStep_wrapped:
  "int64_ok (sw_restoring acc) \<Longrightarrow> int64_ok (sw_restoring (foldl (sweepStep fetch) acc pods))"
  by (induction pods arbitrary: acc)
    (auto simp: sweepStep_def wrap64_ok split: sum.splits)

lemma FleetSweep_states: "sw_states (FleetSweep fetch pods) = gm_copy [] (sweep_samples fetch pods)"
  by (simp add: FleetSweep_def foldl_sweepStep(1) gm_copy_def)

lemma FleetSweep_restoring:
  "sw_restoring (FleetSweep fetch pods) =
     wrap64 (sum_list (map (po_restoring \<circ> snd) (sweep_samples fetch pods)))"
proof -
  have "int64_ok (sw_restoring (FleetSweep fetch pods))"
    unfolding FleetSweep_def by (rule foldl_sweepStep_wrapped) (simp add: int64_ok_def)
  then have "wrap64 (sw_restoring (FleetSweep fetch pods)) = sw_restoring (FleetSweep fetch pods)"
    by (rule wrap64_id)
  then show ?thesis by (simp add: FleetSweep_def foldl_sweepStep(2))
qed

lemma FleetSweep_err:
  "sw_err (FleetSweep fetch pods) = None \<longleftrightarrow> (\<forall>p \<in> set pods. \<exists>s. sweepPod fetch p = Inr s)"
  by (simp add: FleetSweep_def foldl_sweepStep(3))

lemma sweep_samples_complete:
  assumes "\<forall>p \<in> set pods. \<exists>s. sweepPod fetch p = Inr s"
  shows "map fst (sweep_samples fetch pods) = map pod_name pods"
  using assms by (induction pods) (auto split: sum.splits)

lemma sweep_samples_mset:
  "mset pods = mset pods' \<Longrightarrow> mset (sweep_samples fetch pods) = mset (sweep_samples fetch pods')"
  by (simp add: sweep_samples_def List.map_filter_def)

text \<open>Equal collections of samples with distinct names are the same map and the same sum.\<close>

lemma gm_copy_perm:
  assumes "mset xs = mset ys" "distinct (map fst xs)"
  shows "gm_copy [] xs = gm_copy [] ys"
proof (rule gm.ext)
  have d: "distinct (map fst ys)"
    using assms by (metis mset_eq_imp_distinct_iff mset_map)
  show "gm_wf (gm_copy [] xs)" "gm_wf (gm_copy [] ys)" by simp_all
  have "set xs = set ys" using assms(1) by (rule mset_eq_setD)
  with assms(2) d have "map_of xs = map_of ys" by (metis map_of_inject_set)
  moreover have "map_of (gm_copy [] zs) j = map_of zs j" if "distinct (map fst zs)"
    for zs :: "'a gomap" and j
    using gm.get_puts [OF gm_wf_Nil that, of j] by (simp add: gm_copy_def split: option.splits)
  ultimately show "map_of (gm_copy [] xs) j = map_of (gm_copy [] ys) j" for j
    using assms(2) d by simp
qed

lemma sum_list_mset_eq: "mset xs = mset ys \<Longrightarrow> sum_list (map f xs) = (sum_list (map f ys) :: int)"
  by (metis mset_map sum_mset_sum_list)

lemma find_None_all: "find Q xs = None \<longleftrightarrow> (\<forall>x \<in> set xs. \<not> Q x)"
  by (auto simp: find_None_iff)

section \<open>What an observation returns\<close>

text \<open>Documented behaviour of the two schedulers: they run every goroutine once.\<close>

definition obs_ok :: "obs_env \<Rightarrow> bool" where
  "obs_ok E \<longleftrightarrow> (\<forall>pods. mset (oe_sched E pods) = mset pods) \<and>
     (\<forall>pods. oe_listed E = Inr pods \<longrightarrow> length pods < 2 ^ 31)"

definition fleet_members :: "StatefulSet \<Rightarrow> string set" where
  "fleet_members sts = ordinal_name (om_name (st_meta sts)) ` {0 ..< deref0 (st_replicas sts)}"

lemma ordinal_name_inject [simp]: "ordinal_name b i = ordinal_name b j \<longleftrightarrow> i = j"
  by (simp add: ordinal_name_def)

lemma card_fleet_members: "card (fleet_members sts) = nat (deref0 (st_replicas sts))"
  unfolding fleet_members_def by (subst card_image) (auto intro: inj_onI)

lemma observeFleet_listed:
  assumes "sw_err (observeFleet P E sts) = None"
  shows "\<exists>pods. oe_listed E = Inr pods"
  using assms by (cases "oe_listed E") (auto simp: observeFleet_def failed_sweep_def)

lemma observeFleet_ok:
  assumes err: "sw_err (observeFleet P E sts) = None" and E: "obs_ok E" and l: "oe_listed E = Inr pods"
  shows "observeFleet P E sts = FleetSweep (oe_fetch E) (oe_sched E pods)"
    and "1 \<le> deref0 (st_replicas sts)" "int (length pods) = deref0 (st_replicas sts)"
    and "distinct (map pod_name pods)" "set (map pod_name pods) = fleet_members sts"
    and "\<forall>p \<in> set pods. pf_IsControlledBy P (pod_meta p) (st_meta sts) \<and> podReady p"
    and "\<forall>p \<in> set pods. \<exists>s. sweepPod (oe_fetch E) p = Inr s"
proof -
  note obs = err [unfolded observeFleet_def l, simplified, unfolded Let_def]
  from obs show exp: "1 \<le> deref0 (st_replicas sts)"
    by (auto simp: failed_sweep_def split: if_splits)
  from obs have wr: "wrap32 (int (length pods)) = deref0 (st_replicas sts)"
    by (auto simp: failed_sweep_def split: if_splits)
  with E l show len: "int (length pods) = deref0 (st_replicas sts)"
    by (auto simp: obs_ok_def wrap32_id)
  from obs have f1: "find (\<lambda>p. \<not> pf_IsControlledBy P (pod_meta p) (st_meta sts) \<or> \<not> podReady p) pods = None"
    by (auto simp: failed_sweep_def split: if_splits option.splits)
  then show "\<forall>p \<in> set pods. pf_IsControlledBy P (pod_meta p) (st_meta sts) \<and> podReady p"
    by (auto simp: find_None_all)
  from f1 obs have f2: "find (\<lambda>i. ordinal_name (om_name (st_meta sts)) i \<notin> set (map pod_name pods))
      [0..deref0 (st_replicas sts) - 1] = None"
    by (auto simp: failed_sweep_def split: if_splits option.splits)
  from exp wr l f1 f2 show eq: "observeFleet P E sts = FleetSweep (oe_fetch E) (oe_sched E pods)"
    by (simp add: observeFleet_def)
  from f2 have "fleet_members sts \<subseteq> set (map pod_name pods)"
    by (auto simp: find_None_all fleet_members_def)
  moreover have "card (set (map pod_name pods)) \<le> card (fleet_members sts)"
    using len by (metis card_fleet_members card_length length_map nat_int)
  ultimately show names: "set (map pod_name pods) = fleet_members sts"
    by (metis List.finite_set card_seteq)
  with len show "distinct (map pod_name pods)"
    by (metis card_distinct card_fleet_members length_map nat_int)
  have "set (oe_sched E pods) = set pods"
    using E by (intro mset_eq_setD) (simp add: obs_ok_def)
  with err show "\<forall>p \<in> set pods. \<exists>s. sweepPod (oe_fetch E) p = Inr s"
    unfolding eq FleetSweep_err by simp
qed

section \<open>The interface the rollout gates rely on\<close>

locale fleet_observer =
  fixes observe :: "'s \<Rightarrow> sweep" and ok :: "'s \<Rightarrow> bool" and members :: "'s \<Rightarrow> string set"
  assumes observe_members:
      "ok s \<Longrightarrow> sw_err (observe s) = None \<Longrightarrow> fst ` set (sw_states (observe s)) = members s"
    and observe_sum:
      "ok s \<Longrightarrow> sw_err (observe s) = None \<Longrightarrow>
       sw_restoring (observe s) = wrap64 (sum_list (map (po_restoring \<circ> snd) (sw_states (observe s))))"
begin

lemma quiet:
  assumes ok: "ok s" and err: "sw_err (observe s) = None" and zero: "sw_restoring (observe s) = 0"
    and nonneg: "\<forall>e \<in> set (sw_states (observe s)). 0 \<le> po_restoring (snd e)"
    and bnd: "sum_list (map (po_restoring \<circ> snd) (sw_states (observe s))) < 2 ^ 63"
    and m: "m \<in> members s"
  shows "\<exists>st. (m, st) \<in> set (sw_states (observe s)) \<and> po_restoring st = 0"
proof -
  let ?rs = "map (po_restoring \<circ> snd) (sw_states (observe s))"
  from nonneg have pos: "\<forall>r \<in> set ?rs. 0 \<le> r" by auto
  then have "0 \<le> sum_list ?rs" by (intro sum_list_nonneg) blast
  with bnd have "wrap64 (sum_list ?rs) = sum_list ?rs"
    by (intro wrap64_id) (simp add: int64_ok_def)
  with observe_sum [OF ok err] zero have "sum_list ?rs = 0" by simp
  with pos have all0: "\<forall>r \<in> set ?rs. r = 0"
    by (simp only: sum_list_nonneg_eq_0_iff)
  from m observe_members [OF ok err] obtain st where "(m, st) \<in> set (sw_states (observe s))"
    by force
  with all0 show ?thesis by force
qed

end

lemma mset_gm_set: "k \<notin> fst ` set m \<Longrightarrow> mset (gm_set k v m) = add_mset (k, v) (mset m)"
  by (induction k v m rule: gm_set.induct) auto

lemma mset_gm_copy:
  "distinct (map fst es) \<Longrightarrow> fst ` set es \<inter> fst ` set m = {} \<Longrightarrow>
   mset (gm_copy m es) = mset m + mset es"
proof (induction es arbitrary: m)
  case (Cons e es)
  then have "fst e \<notin> fst ` set m" by auto
  moreover from Cons.prems have "fst ` set es \<inter> fst ` set (gm_set (fst e) (snd e) m) = {}"
    unfolding gm_set_keys by auto
  ultimately show ?case
    using Cons by (simp add: gm_copy_def mset_gm_set)
qed (simp add: gm_copy_def)

lemma FleetSweep_states_mset:
  "distinct (map pod_name pods) \<Longrightarrow> mset (sw_states (FleetSweep fetch pods)) = mset (sweep_samples fetch pods)"
  by (simp add: FleetSweep_states mset_gm_copy sweep_samples_distinct)

lemma observeFleet_contract:
  assumes E: "obs_ok E" and err: "sw_err (observeFleet P E sts) = None"
  shows "fst ` set (sw_states (observeFleet P E sts)) = fleet_members sts"
    and "sw_restoring (observeFleet P E sts) =
      wrap64 (sum_list (map (po_restoring \<circ> snd) (sw_states (observeFleet P E sts))))"
proof -
  obtain pods where l: "oe_listed E = Inr pods"
    using observeFleet_listed [OF err] by blast
  note obs = observeFleet_ok(1) [OF err E l] and d = observeFleet_ok(4) [OF err E l]
    and names = observeFleet_ok(5) [OF err E l]
  from E have perm: "mset (oe_sched E pods) = mset pods" by (simp add: obs_ok_def)
  then have set_eq: "set (oe_sched E pods) = set pods" by (rule mset_eq_setD)
  from perm have "mset (map pod_name (oe_sched E pods)) = mset (map pod_name pods)" by simp
  with d have d': "distinct (map pod_name (oe_sched E pods))"
    by (metis mset_eq_imp_distinct_iff)
  note samples = FleetSweep_states_mset [OF d', of "oe_fetch E"]
  have "map fst (sweep_samples (oe_fetch E) (oe_sched E pods)) = map pod_name (oe_sched E pods)"
    using err unfolding obs FleetSweep_err by (rule sweep_samples_complete)
  then have "fst ` set (sweep_samples (oe_fetch E) (oe_sched E pods)) = pod_name ` set pods"
    using set_eq by (metis set_map)
  then show "fst ` set (sw_states (observeFleet P E sts)) = fleet_members sts"
    unfolding obs mset_eq_setD [OF samples] using names by simp
  show "sw_restoring (observeFleet P E sts) =
      wrap64 (sum_list (map (po_restoring \<circ> snd) (sw_states (observeFleet P E sts))))"
    unfolding obs FleetSweep_restoring sum_list_mset_eq [OF samples] ..
qed

text \<open>One observation: the external code, the answers, the StatefulSet observed.\<close>

type_synonym obs_case = "platform \<times> obs_env \<times> StatefulSet"

definition observe_case :: "obs_case \<Rightarrow> sweep" where
  "observe_case c = observeFleet (fst c) (fst (snd c)) (snd (snd c))"

interpretation fo: fleet_observer observe_case "\<lambda>c. obs_ok (fst (snd c))" "\<lambda>c. fleet_members (snd (snd c))"
  by unfold_locales (simp_all only: observe_case_def observeFleet_contract)

section \<open>Properties\<close>

text \<open>
  C37. The outcome of a sweep does not depend on the order in which the concurrent pod
  requests complete: any two completion orders of the same pods record the same samples,
  add up the same \<open>restoring\<close> and agree on whether the sweep failed.
\<close>

theorem FleetSweep_order_independent:
  assumes "mset pods = mset pods'" "distinct (map pod_name pods)"
  shows "sw_states (FleetSweep fetch pods) = sw_states (FleetSweep fetch pods') \<and>
    sw_restoring (FleetSweep fetch pods) = sw_restoring (FleetSweep fetch pods') \<and>
    (sw_err (FleetSweep fetch pods) = None \<longleftrightarrow> sw_err (FleetSweep fetch pods') = None)"
proof -
  note samples = sweep_samples_mset [OF assms(1), of fetch]
  have "set pods = set pods'" using assms(1) by (rule mset_eq_setD)
  with gm_copy_perm [OF samples sweep_samples_distinct [OF assms(2)]] sum_list_mset_eq [OF samples]
  show ?thesis by (simp add: FleetSweep_states FleetSweep_restoring FleetSweep_err)
qed

text \<open>
  A sweep keeps the sample of every pod that answered, also when other pods fail, and
  invents none: the recorded samples are exactly the successful answers.
\<close>

lemma FleetSweep_samples:
  assumes "distinct (map pod_name pods)"
  shows "map_of (sw_states (FleetSweep fetch pods)) n = Some s \<longleftrightarrow>
    (\<exists>p \<in> set pods. pod_name p = n \<and> sweepPod fetch p = Inr s)"
proof -
  have "distinct (map fst (sw_states (FleetSweep fetch pods)))"
    unfolding FleetSweep_states by (intro gm_wf_distinct gm_wf_copy gm_wf_Nil)
  then have "map_of (sw_states (FleetSweep fetch pods)) n = Some s \<longleftrightarrow>
      (n, s) \<in> set (sweep_samples fetch pods)"
    using mset_eq_setD [OF FleetSweep_states_mset [OF assms]] by simp
  also have "\<dots> \<longleftrightarrow> (\<exists>p \<in> set pods. pod_name p = n \<and> sweepPod fetch p = Inr s)"
    by (induction pods) (auto split: sum.splits)
  finally show ?thesis .
qed

text \<open>The gate: an observation that succeeds with \<open>restoring = 0\<close>.\<close>

lemma observeFleet_all_zero:
  assumes "obs_ok E" "oe_listed E = Inr pods"
    and "sw_err (observeFleet P E sts) = None" "sw_restoring (observeFleet P E sts) = 0"
    and "\<forall>e \<in> set (sw_states (observeFleet P E sts)). 0 \<le> po_restoring (snd e)"
    and "sum_list (map (po_restoring \<circ> snd) (sw_states (observeFleet P E sts))) < 2 ^ 63"
  shows "set (map pod_name pods) = fleet_members sts \<and> distinct (map pod_name pods) \<and>
    (\<forall>p \<in> set pods. pf_IsControlledBy P (pod_meta p) (st_meta sts) \<and> podReady p) \<and>
    (\<forall>m \<in> fleet_members sts. \<exists>st. (m, st) \<in> set (sw_states (observeFleet P E sts)) \<and> po_restoring st = 0)"
proof -
  have "\<exists>st. (m, st) \<in> set (sw_states (observeFleet P E sts)) \<and> po_restoring st = 0"
    if "m \<in> fleet_members sts" for m
    using fo.quiet [of "(P, E, sts)" m] assms that by (simp add: observe_case_def)
  with observeFleet_ok(4-6) [OF assms(3,1,2)] show ?thesis by blast
qed

end
