(* ===== verification/Fleet_Objects.thy ===== *)
theory Fleet_Objects
  imports Fleet_Resources
begin

text \<open>
  The other builders of \<open>src/internal/controller/fleet_resources.go\<close>: Services, service
  account, network policy, disruption budget, the three kinds of routes, the Istio
  authorization policy and the KEDA ScaledObject.
\<close>

section \<open>Formatting\<close>

text \<open>
  The verb \<open>%q\<close> (\<open>strconv.Quote\<close>). The operands are Kubernetes names; a byte outside ASCII
  is written in the form Quote uses for bytes that are not valid UTF-8.
\<close>

definition quote_char :: "char \<Rightarrow> string" where
  "quote_char c =
     (let n = (of_char c :: nat); bs = CHR 0x5C in
      if n = 0x22 \<or> n = 0x5C then [bs, c]
      else if n = 7 then [bs, CHR ''a''] else if n = 8 then [bs, CHR ''b'']
      else if n = 12 then [bs, CHR ''f''] else if n = 10 then [bs, CHR ''n'']
      else if n = 13 then [bs, CHR ''r''] else if n = 9 then [bs, CHR ''t'']
      else if n = 11 then [bs, CHR ''v'']
      else if n < 32 \<or> 127 \<le> n
      then [bs, CHR ''x'', hex_digit (n div 16), hex_digit (n mod 16)]
      else [c])"

definition go_quote :: "string \<Rightarrow> string" where
  "go_quote s = [CHR 0x22] @ concat (map quote_char s) @ [CHR 0x22]"

text \<open>The verb \<open>%.2f\<close> on \<open>float64(n)/100\<close>.\<close>

definition show_centi :: "int \<Rightarrow> string" where
  "show_centi n =
     (let m = nat \<bar>n\<bar> in
      (if n < 0 then ''-'' else []) @ show_nat (m div 100) @ ''.''
        @ show_nat (m div 10 mod 10) @ show_nat (m mod 10))"

text \<open>The verb \<open>%t\<close>.\<close>

definition show_bool :: "bool \<Rightarrow> string" where
  "show_bool b = (if b then ''true'' else ''false'')"

section \<open>Services and service account\<close>

definition service_port :: "string \<Rightarrow> int \<Rightarrow> ServicePort" where
  "service_port name port =
     \<lparr>spt_name = name, spt_port = port, spt_targetPort = port, spt_nodePort = 0\<rparr>"

definition buildInternalService :: "WorkerApp \<Rightarrow> Service" where
  "buildInternalService app =
     \<lparr>svc_meta = new_meta (internalServiceName app) (app_namespace app) (fleetLabels app) [],
      svc_type = [], svc_clusterIP = ''None'', svc_selector = selectorLabels app,
      svc_publishNotReadyAddresses = True,
      svc_ports = [service_port ''internal'' internalPort]\<rparr>"

definition buildPublicService :: "WorkerApp \<Rightarrow> Service" where
  "buildPublicService app =
     (let svc = ws_service (wa_spec app) in
      \<lparr>svc_meta = new_meta (fleetName app) (app_namespace app) (fleetLabels app) (sv_annotations svc),
       svc_type = (if sv_type svc = [] then ''ClusterIP'' else sv_type svc),
       svc_clusterIP = [], svc_selector = selectorLabels app,
       svc_publishNotReadyAddresses = False,
       svc_ports = [service_port ''public'' publicPort]\<rparr>)"

definition roleArnAnnotation :: string where
  "roleArnAnnotation = ''eks.amazonaws.com/role-arn''"

definition buildServiceAccount :: "WorkerApp \<Rightarrow> ServiceAccount" where
  "buildServiceAccount app =
     (let creds = app_credentials app;
          a1 = (if bc_iamRole creds \<noteq> [] \<and> bc_iamRole creds \<noteq> iamRoleAuto
                then gm_set roleArnAnnotation (bc_iamRole creds) [] else []);
          a2 = (if bc_azureClientID creds \<noteq> []
                then gm_set azureClientIDAnnotation (bc_azureClientID creds) a1 else a1)
      in \<lparr>sa_meta = new_meta (fleetName app) (app_namespace app) (fleetLabels app) a2\<rparr>)"

section \<open>Policies\<close>

definition buildNetworkPolicy :: "WorkerApp \<Rightarrow> string \<Rightarrow> NetworkPolicy" where
  "buildNetworkPolicy app operatorNamespace =
     \<lparr>np_meta = new_meta (fleetName app) (app_namespace app) (fleetLabels app) [],
      np_podSelector = selectorLabels app,
      np_policyTypes = [''Ingress''],
      np_ingress =
        [\<lparr>npr_ports = [(''TCP'', internalPort)],
          npr_from =
            [\<lparr>npp_podSelector = Some (selectorLabels app), npp_namespaceSelector = None\<rparr>,
             \<lparr>npp_podSelector = Some [(''app.kubernetes.io/name'', ''celld-operator''),
                                     (''control-plane'', ''controller-manager'')],
              npp_namespaceSelector = Some [(''kubernetes.io/metadata.name'', operatorNamespace)]\<rparr>]\<rparr>,
         \<lparr>npr_ports = [(''TCP'', publicPort)], npr_from = []\<rparr>]\<rparr>"

definition buildPDB :: "WorkerApp \<Rightarrow> PodDisruptionBudget" where
  "buildPDB app =
     \<lparr>pdb_meta = new_meta (fleetName app) (app_namespace app) (fleetLabels app) [],
      pdb_maxUnavailable = Some 1, pdb_selector = selectorLabels app\<rparr>"

section \<open>Routes\<close>

definition buildHTTPRoute :: "WorkerApp \<Rightarrow> string \<Rightarrow> string \<Rightarrow> HTTPRoute" where
  "buildHTTPRoute app gatewayName gatewayNamespace =
     \<lparr>hr_meta = new_meta (fleetName app) (app_namespace app) (fleetLabels app) [],
      hr_parentRefs = [(gatewayName, Some gatewayNamespace)],
      hr_hostnames = ws_hostnames (wa_spec app),
      hr_rules = [\<lparr>rr_backendName = fleetName app, rr_backendPort = publicPort,
                   rr_retry = Some \<lparr>rtr_codes = [503], rtr_attempts = 2\<rparr>,
                   rr_requestTimeout = (if ws_websockets (wa_spec app) then Some ''0s'' else None)\<rparr>],
      hr_parents = []\<rparr>"

definition nginxReadTimeout :: string where
  "nginxReadTimeout = ''nginx.ingress.kubernetes.io/proxy-read-timeout''"

definition nginxSendTimeout :: string where
  "nginxSendTimeout = ''nginx.ingress.kubernetes.io/proxy-send-timeout''"

definition clusterIssuerAnnotation :: string where
  "clusterIssuerAnnotation = ''cert-manager.io/cluster-issuer''"

definition buildIngress :: "WorkerApp \<Rightarrow> string \<Rightarrow> string \<Rightarrow> Ingress" where
  "buildIngress app className clusterIssuer =
     (let hosts = ws_hostnames (wa_spec app);
          a1 = gm_copy [] [(''nginx.ingress.kubernetes.io/proxy-next-upstream'', ''error timeout http_503''),
                           (''nginx.ingress.kubernetes.io/proxy-next-upstream-tries'', ''3'')];
          a2 = (if ws_websockets (wa_spec app)
                then gm_set nginxSendTimeout ''3600'' (gm_set nginxReadTimeout ''3600'' a1) else a1);
          a3 = (if clusterIssuer \<noteq> [] then gm_set clusterIssuerAnnotation clusterIssuer a2 else a2)
      in \<lparr>ing_meta = new_meta (fleetName app) (app_namespace app) (fleetLabels app) a3,
          ing_className = (if className \<noteq> [] then Some className else None),
          ing_rules = map (\<lambda>host. \<lparr>igr_host = host, igr_path = ''/'', igr_pathType = ''Prefix'',
                                   igr_serviceName = fleetName app, igr_servicePort = publicPort\<rparr>) hosts,
          ing_tls = (if clusterIssuer \<noteq> []
                     then [\<lparr>igt_hosts = hosts, igt_secretName = fleetName app @ ''-tls''\<rparr>] else [])\<rparr>)"

text \<open>\<open>newUnstructuredObject\<close>; a nil annotation map is the empty one.\<close>

definition newUnstructuredObject ::
  "string \<Rightarrow> string \<Rightarrow> string \<Rightarrow> string \<Rightarrow> smap \<Rightarrow> smap \<Rightarrow> json \<Rightarrow> Unstructured" where
  "newUnstructuredObject apiVersion kind name namespace labels annotations spec =
     \<lparr>un_apiVersion = apiVersion, un_kind = kind,
      un_meta = new_meta name namespace labels annotations,
      un_spec = spec, un_conditions = []\<rparr>"

text \<open>\<open>toAnyMap\<close> as the value of a field; the labels of an envelope stay a map of strings.\<close>

definition toAnyMap :: "smap \<Rightarrow> (string \<times> json) list" where
  "toAnyMap m = map (map_prod id JStr) m"

definition buildVirtualService :: "WorkerApp \<Rightarrow> string list \<Rightarrow> Unstructured" where
  "buildVirtualService app gateways =
     newUnstructuredObject ''networking.istio.io/v1'' ''VirtualService''
       (fleetName app) (app_namespace app) (fleetLabels app) []
       (jobj [(''hosts'', JArr (map JStr (ws_hostnames (wa_spec app)))),
              (''gateways'', JArr (map JStr gateways)),
              (''http'', JArr [jobj
                 [(''route'', JArr [jobj [(''destination'', jobj
                     [(''host'', JStr (fleetName app @ ''.'' @ app_namespace app @ ''.svc.'' @ clusterDomain app)),
                      (''port'', jobj [(''number'', JInt publicPort)])])]]),
                  (''retries'', jobj [(''attempts'', JInt 2),
                                     (''retryOn'', JStr ''connect-failure,refused-stream,503'')])]])])"

definition buildAuthorizationPolicy :: "WorkerApp \<Rightarrow> string \<Rightarrow> Unstructured" where
  "buildAuthorizationPolicy app operatorPrincipal =
     (let fleetPrincipal = ''cluster.local/ns/'' @ app_namespace app @ ''/sa/'' @ fleetName app in
      newUnstructuredObject ''security.istio.io/v1'' ''AuthorizationPolicy''
        (fleetName app @ ''-internal'') (app_namespace app) (fleetLabels app) []
        (jobj [(''selector'', jobj [(''matchLabels'', jobj (toAnyMap (selectorLabels app)))]),
               (''action'', JStr ''ALLOW''),
               (''rules'', JArr
                  [jobj [(''from'', JArr [jobj [(''source'', jobj
                            [(''principals'', JArr [JStr fleetPrincipal, JStr operatorPrincipal])])]]),
                         (''to'', JArr [jobj [(''operation'', jobj
                            [(''ports'', JArr [JStr (show_int internalPort)])])]])],
                   jobj [(''to'', JArr [jobj [(''operation'', jobj
                            [(''ports'', JArr [JStr (show_int publicPort)])])]])]])]))"

section \<open>Autoscaling\<close>

definition promTrigger :: "string \<Rightarrow> string \<Rightarrow> string \<Rightarrow> json" where
  "promTrigger serverAddress query threshold =
     jobj [(''type'', JStr ''prometheus''), (''metricType'', JStr ''Value''),
           (''metadata'', jobj [(''serverAddress'', JStr serverAddress), (''query'', JStr query),
                               (''threshold'', JStr threshold), (''ignoreNullValues'', JStr ''false'')])]"

text \<open>The selector \<open>{namespace=%q,workerapp=%q}\<close> of a fleet's series.\<close>

definition seriesSelector :: "WorkerApp \<Rightarrow> string" where
  "seriesSelector app =
     ''{namespace='' @ go_quote (app_namespace app) @ '',workerapp='' @ go_quote (app_name app) @ ''}''"

text \<open>The guard the loop over the triggers wraps around every query.\<close>

definition guardedQuery :: "WorkerApp \<Rightarrow> string \<Rightarrow> string" where
  "guardedQuery app query =
     ''('' @ query @ '') and on() (min(celld_fleet_complete'' @ seriesSelector app
       @ '') == 1) and on() (time() - min(celld_fleet_sample_timestamp_seconds''
       @ seriesSelector app @ '') < 60)''"

definition scaleTriggers :: "WorkerApp \<Rightarrow> AutoscalingSpec \<Rightarrow> (string \<times> string) list" where
  "scaleTriggers app as =
     (let target = (case tg_residentCellUtilization (as_targets as) of None \<Rightarrow> 70 | Some t \<Rightarrow> t) in
      [(''avg(celld_resident_cell_utilization'' @ seriesSelector app @ '')'', show_centi target),
       (''max(celld_shedding'' @ seriesSelector app @ '')'', ''0.5'')]
      @ (case tg_p95LatencyMs (as_targets as) of None \<Rightarrow> []
         | Some ms \<Rightarrow> [(''histogram_quantile(0.95, sum(rate(istio_request_duration_milliseconds_bucket{destination_service_name=''
             @ go_quote (fleetName app) @ '',destination_service_namespace='' @ go_quote (app_namespace app)
             @ '',reporter='' @ go_quote ''destination'' @ ''}[5m])) by (le))'', show_int ms)]))"

text \<open>
  \<open>buildScaledObject\<close> dereferences \<open>spec.autoscaling\<close>: every caller has checked
  \<open>autoscalingEnabled\<close>, and the argument is that pointer's target.
\<close>

definition buildScaledObject :: "WorkerApp \<Rightarrow> AutoscalingSpec \<Rightarrow> string \<Rightarrow> bool \<Rightarrow> Unstructured" where
  "buildScaledObject app as prometheusURL paused =
     (let minReplicas = (if as_minReplicas as = 0 then 2 else as_minReplicas as);
          maxReplicas = (if as_maxReplicas as = 0 then 10 else as_maxReplicas as);
          stabilizationS = (if ws_websockets (wa_spec app) then 1800 else 600 :: int)
      in newUnstructuredObject ''keda.sh/v1alpha1'' ''ScaledObject''
        (fleetName app) (app_namespace app) (fleetLabels app)
        [(kedaPausedAnnotation, show_bool paused)]
        (jobj [(''scaleTargetRef'', jobj [(''apiVersion'', JStr ''apps/v1''),
                  (''kind'', JStr ''StatefulSet''), (''name'', JStr (fleetName app))]),
               (''minReplicaCount'', JInt minReplicas),
               (''maxReplicaCount'', JInt maxReplicas),
               (''advanced'', jobj [(''horizontalPodAutoscalerConfig'', jobj [(''behavior'', jobj
                  [(''scaleDown'', jobj [(''stabilizationWindowSeconds'', JInt stabilizationS),
                     (''policies'', JArr [jobj [(''type'', JStr ''Pods''), (''value'', JInt 1),
                                              (''periodSeconds'', JInt 300)]])])])])]),
               (''triggers'', JArr (map (\<lambda>(query, threshold).
                  promTrigger prometheusURL (guardedQuery app query) threshold) (scaleTriggers app as)))]))"

end
