(* ===== verification/Scaling.thy ===== *)
theory Scaling
  imports Fleet_Objects
begin

text \<open>
  Ownership, metadata merging, and the autoscaler side of the controller
  (\<open>src/internal/controller/workerapp_controller.go\<close>: \<open>requireOwnership\<close>,
  \<open>mergeStringMaps\<close>, \<open>stringMapSubset\<close>, \<open>ensureUnstructured\<close>, \<open>ensureScaledObject\<close>;
  \<open>src/internal/controller/rollout.go\<close>: \<open>pauseScaling\<close>).

  Every operation takes the answers of the API calls it makes as an argument (one record
  field per call) and returns the write requests it issues together with its result.
\<close>

section \<open>Ownership and metadata\<close>

definition object_key :: "objmeta \<Rightarrow> string" where
  "object_key m = om_namespace m @ ''/'' @ om_name m"

text \<open>\<open>goType\<close> is what the verb \<open>%T\<close> prints for the object.\<close>

definition requireOwnership :: "platform \<Rightarrow> WorkerApp \<Rightarrow> string \<Rightarrow> objmeta \<Rightarrow> unit result" where
  "requireOwnership P app goType obj =
     (if pf_IsControlledBy P obj (wa_meta app) then Inr ()
      else Inl (OtherError (''refusing to modify '' @ goType @ '' '' @ object_key obj
              @ '': not controlled by WorkerApp '' @ object_key (wa_meta app))))"

definition mergeStringMaps :: "smap \<Rightarrow> smap \<Rightarrow> smap" where
  "mergeStringMaps live desired = gm_copy (gm_copy [] live) desired"

definition stringMapSubset :: "smap \<Rightarrow> smap \<Rightarrow> bool" where
  "stringMapSubset sub super \<longleftrightarrow>
     (\<forall>e \<in> set sub. case map_of super (fst e) of None \<Rightarrow> False | Some actual \<Rightarrow> actual = snd e)"

definition mk_condition :: "string \<Rightarrow> ConditionStatus \<Rightarrow> string \<Rightarrow> string \<Rightarrow> Condition" where
  "mk_condition ty st reason msg =
     \<lparr>cn_type = ty, cn_status = st, cn_reason = reason, cn_message = msg, cn_observedGeneration = 0\<rparr>"

definition condAutoscalingReady :: string where
  "condAutoscalingReady = ''AutoscalingReady''"

section \<open>Objects without linked types\<close>

record un_env =
  ue_get :: "Unstructured result"
  ue_create :: "Unstructured \<Rightarrow> gerror option"
  ue_update :: "Unstructured \<Rightarrow> gerror option"
  ue_delete :: "Unstructured \<Rightarrow> gerror option"

definition answer :: "gerror option \<Rightarrow> unit result" where
  "answer e = (case e of None \<Rightarrow> Inr () | Some x \<Rightarrow> Inl x)"

definition ensureUnstructured ::
  "platform \<Rightarrow> un_env \<Rightarrow> WorkerApp \<Rightarrow> Unstructured \<Rightarrow> unit eff" where
  "ensureUnstructured P E app desired0 =
     (case pf_SetControllerReference P (wa_meta app) (un_meta desired0) of
        Inl e \<Rightarrow> eff_fail e
      | Inr m \<Rightarrow>
          let desired = desired0\<lparr>un_meta := m\<rparr> in
          case ue_get E of
            Inl e \<Rightarrow>
              if IsNotFound e then ([Create (KUnstructured desired)], answer (ue_create E desired))
              else eff_fail e
          | Inr live \<Rightarrow>
              (case requireOwnership P app ''*unstructured.Unstructured'' (un_meta live) of
                 Inl e \<Rightarrow> eff_fail e
               | Inr _ \<Rightarrow>
                   if un_spec live = un_spec desired
                      \<and> stringMapSubset (om_labels m) (om_labels (un_meta live))
                      \<and> stringMapSubset (om_annotations m) (om_annotations (un_meta live))
                   then eff_return ()
                   else let live' = live\<lparr>un_spec := un_spec desired,
                              un_meta := (un_meta live)\<lparr>
                                om_labels := mergeStringMaps (om_labels (un_meta live)) (om_labels m),
                                om_annotations := mergeStringMaps (om_annotations (un_meta live)) (om_annotations m)\<rparr>\<rparr>
                        in ([Update (KUnstructured live')], answer (ue_update E live'))))"

section \<open>The ScaledObject\<close>

text \<open>The result: requests, whether a transient failure was met, conditions appended.\<close>

definition ensureScaledObject ::
  "platform \<Rightarrow> un_env \<Rightarrow> WorkerApp \<Rightarrow> string \<Rightarrow> WorkerAppPhase
    \<Rightarrow> request list \<times> bool \<times> Condition list" where
  "ensureScaledObject P E app prometheusURL phase =
     (let failed = (\<lambda>e. [mk_condition condAutoscalingReady ConditionFalse ''ScaledObjectError'' (Error e)]) in
      if \<not> autoscalingEnabled app then
        (case ue_get E of
           Inl e \<Rightarrow> if IsNotFound e \<or> IsNoMatchError e then ([], False, [])
                    else ([], True, failed e)
         | Inr obj \<Rightarrow>
             (case requireOwnership P app ''*unstructured.Unstructured'' (un_meta obj) of
                Inl e \<Rightarrow> ([], True, failed e)
              | Inr _ \<Rightarrow>
                  (case ue_delete E obj of
                     None \<Rightarrow> ([Delete (KUnstructured obj)], False, [])
                   | Some e \<Rightarrow> if IsNotFound e then ([Delete (KUnstructured obj)], False, [])
                               else ([Delete (KUnstructured obj)], True, failed e))))
      else
        let scaled = buildScaledObject app (the (ws_autoscaling (wa_spec app))) prometheusURL
                       (phase \<noteq> PhaseReady);
            (reqs, res) = ensureUnstructured P E app scaled
        in case res of
             Inr _ \<Rightarrow> (reqs, False,
               [mk_condition condAutoscalingReady ConditionTrue ''ScaledObjectReconciled'' []])
           | Inl e \<Rightarrow>
               if IsNoMatchError e then (reqs, False,
                 [mk_condition condAutoscalingReady ConditionFalse ''KEDAUnavailable''
                    ''keda.sh CRDs are not installed; spec.autoscaling has no effect''])
               else (reqs, True, failed e))"

section \<open>Pausing the scaler\<close>

record pause_env =
  pe_get :: "Unstructured result"
  pe_scaler :: un_env
  pe_hpas :: "hpa list result"

text \<open>The last part of \<open>pauseScaling\<close>: no HPA of the namespace targets the fleet.\<close>

definition noTargetingHPA :: "WorkerApp \<Rightarrow> hpa list result \<Rightarrow> bool eff" where
  "noTargetingHPA app hpas =
     (case hpas of
        Inl e \<Rightarrow> eff_fail e
      | Inr items \<Rightarrow> eff_return (\<not> (\<exists>h \<in> set items.
          hpa_targetKind h = ''StatefulSet'' \<and> hpa_targetName h = fleetName app)))"

definition pauseScaling :: "platform \<Rightarrow> pause_env \<Rightarrow> WorkerApp \<Rightarrow> string \<Rightarrow> bool eff" where
  "pauseScaling P E app prometheusURL =
     (if \<not> autoscalingEnabled app then
        (case pe_get E of
           Inr _ \<Rightarrow>
             let (reqs, transient, _) =
                   ensureScaledObject P (pe_scaler E) app prometheusURL PhaseUnset
             in if transient then (reqs, Inl (OtherError ''could not remove disabled scaler''))
                else (reqs, Inr False)
         | Inl e \<Rightarrow>
             if \<not> IsNotFound e \<and> \<not> IsNoMatchError e then eff_fail e
             else noTargetingHPA app (pe_hpas E))
      else
        let request = (let (reqs, res) = ensureUnstructured P (pe_scaler E) app
                             (buildScaledObject app (the (ws_autoscaling (wa_spec app))) prometheusURL True)
                       in (reqs, map_sum id (\<lambda>_. False) res))
        in case pe_get E of
             Inl e \<Rightarrow>
               if IsNoMatchError e then noTargetingHPA app (pe_hpas E)
               else if \<not> IsNotFound e then eff_fail e
               else request
           | Inr obj \<Rightarrow>
               if gm_index (om_annotations (un_meta obj)) kedaPausedAnnotation \<noteq> annotationTrue
               then request
               else (case requireOwnership P app ''*unstructured.Unstructured'' (un_meta obj) of
                       Inl e \<Rightarrow> eff_fail e
                     | Inr _ \<Rightarrow>
                         if (''Paused'', ''True'') \<notin> set (un_conditions obj) then eff_return False
                         else noTargetingHPA app (pe_hpas E)))"

section \<open>Lemmas\<close>

lemma map_of_mergeStringMaps [go_maps]:
  assumes "gm_wf live" "gm_wf desired"
  shows "map_of (mergeStringMaps live desired) k =
    (case map_of desired k of None \<Rightarrow> map_of live k | Some v \<Rightarrow> Some v)"
  using assms by (simp add: mergeStringMaps_def map_of_gm_copy split: option.split)

lemma gm_wf_mergeStringMaps [simp, intro]: "gm_wf (mergeStringMaps live desired)"
  by (simp add: mergeStringMaps_def)

lemma stringMapSubset_iff:
  assumes "gm_wf sub"
  shows "stringMapSubset sub super \<longleftrightarrow> (\<forall>k v. map_of sub k = Some v \<longrightarrow> map_of super k = Some v)"
proof -
  have "map_of sub k = Some v \<longleftrightarrow> (k, v) \<in> set sub" for k v
    using gm_wf_distinct [OF assms] by simp
  then show ?thesis
    by (auto simp: stringMapSubset_def split: option.splits)
qed

lemma mergeStringMaps_subset:
  assumes "gm_wf live" "gm_wf desired"
  shows "stringMapSubset desired (mergeStringMaps live desired)"
  using assms by (simp add: stringMapSubset_iff map_of_mergeStringMaps)

lemma mergeStringMaps_absorb:
  assumes "gm_wf live" "gm_wf desired" "stringMapSubset desired live"
  shows "mergeStringMaps live desired = live"
  by (rule gm.ext) (use assms in \<open>auto simp: map_of_mergeStringMaps stringMapSubset_iff split: option.split\<close>)

lemma noTargetingHPA_requests [simp]: "fst (noTargetingHPA app hpas) = []"
  by (simp add: noTargetingHPA_def split: sum.split)

lemma map_sum_False [simp]: "map_sum id (\<lambda>_. False) r \<noteq> Inr True"
  by (cases r) auto

text \<open>The pause is acknowledged only where nothing is left to write.\<close>

lemma pauseScaling_True_requests:
  "snd (pauseScaling P E app url) = Inr True \<Longrightarrow> fst (pauseScaling P E app url) = []"
  by (auto simp: pauseScaling_def Let_def split: if_splits sum.splits prod.splits)

end
