(* ===== verification/Go_Time.thy ===== *)
theory Go_Time
  imports Op_Prelude "HOL-Library.Monad_Syntax"
begin

text \<open>
  Package \<open>time\<close> as far as the operator stores times in annotations: \<open>Time.UTC().Format\<close> and
  \<open>time.Parse\<close> with the layout \<open>time.RFC3339Nano\<close>, and the proleptic Gregorian calendar behind
  them. A time is counted in nanoseconds since 1970-01-01T00:00:00Z.
\<close>

section \<open>The calendar\<close>

definition leap :: "int \<Rightarrow> bool" where
  "leap y \<longleftrightarrow> y mod 4 = 0 \<and> (y mod 100 \<noteq> 0 \<or> y mod 400 = 0)"

definition month_days :: "int \<Rightarrow> int list" where
  "month_days y = [31, if leap y then 29 else 28, 31, 30, 31, 30, 31, 31, 30, 31, 30, 31]"

text \<open>The days from 0001-01-01 to the first day of a year, and to the epoch.\<close>

definition year_start :: "int \<Rightarrow> int" where
  "year_start y = 365 * (y - 1) + (y - 1) div 4 - (y - 1) div 100 + (y - 1) div 400"

definition epoch_day :: int where
  "epoch_day = 719162"

text \<open>The year of a day and the day within it: cycles of 400, 100, 4 and 1 years.\<close>

definition year_of_day :: "int \<Rightarrow> int \<times> int" where
  "year_of_day n =
     (let a = n div 146097; r = n mod 146097;
          b = min 3 (r div 36524); r = r - 36524 * b;
          c = r div 1461; r = r - 1461 * c;
          d = min 3 (r div 365)
      in (400 * a + 100 * b + 4 * c + d + 1, r - 365 * d))"

fun split_month :: "int list \<Rightarrow> int \<Rightarrow> nat \<times> int" where
  "split_month [] d = (0, d)"
| "split_month (l # ls) d = (if d < l then (0, d) else apfst Suc (split_month ls (d - l)))"

definition date_of_day :: "int \<Rightarrow> int \<times> nat \<times> int" where
  "date_of_day n =
     (let (y, r) = year_of_day (n + epoch_day); (m, d) = split_month (month_days y) r in (y, m + 1, d + 1))"

definition day_of_date :: "int \<Rightarrow> nat \<Rightarrow> int \<Rightarrow> int" where
  "day_of_date y m d = year_start y + sum_list (take (m - 1) (month_days y)) + d - 1 - epoch_day"

lemma cycles:
  fixes a b c d :: int
  assumes "0 \<le> b" "b \<le> 3" "0 \<le> c" "c \<le> 24" "0 \<le> d" "d \<le> 3"
  defines "y \<equiv> 400 * a + 100 * b + 4 * c + d + 1"
  shows "year_start y = 146097 * a + 36524 * b + 1461 * c + 365 * d"
    and "leap y \<longleftrightarrow> d = 3 \<and> (c \<noteq> 24 \<or> b = 3)"
proof -
  have "(y - 1) div 4 = 100 * a + 25 * b + c"
    using assms(5,6) by (intro int_div_pos_eq [of _ _ _ d]) (simp_all add: y_def)
  moreover have "(y - 1) div 100 = 4 * a + b"
    using assms(3-6) by (intro int_div_pos_eq [of _ _ _ "4 * c + d"]) (simp_all add: y_def)
  moreover have "(y - 1) div 400 = a"
    using assms(1-6) by (intro int_div_pos_eq [of _ _ _ "100 * b + 4 * c + d"]) (simp_all add: y_def)
  ultimately show "year_start y = 146097 * a + 36524 * b + 1461 * c + 365 * d"
    by (simp add: year_start_def y_def)
  have "y = (d + 1) + 4 * (100 * a + 25 * b + c)" "y = (4 * c + d + 1) + 100 * (4 * a + b)"
    "y = (100 * b + 4 * c + d + 1) + 400 * a" by (simp_all add: y_def)
  then have m: "y mod 4 = (d + 1) mod 4" "y mod 100 = (4 * c + d + 1) mod 100" "y mod 400 = (100 * b + 4 * c + d + 1) mod 400"
    by (metis mod_mult_self2)+
  have z: "x mod k = 0 \<longleftrightarrow> x = k" if "0 < x" "x \<le> k" for x k :: int
    using that by (cases "x = k") auto
  have "4 * c + d + 1 = 100 \<longleftrightarrow> c = 24 \<and> d = 3" "100 * b + 4 * c + d + 1 = 400 \<longleftrightarrow> b = 3 \<and> c = 24 \<and> d = 3"
    using assms(1-6) by (intro iffI conjI; linarith)+
  moreover have "y mod 4 = 0 \<longleftrightarrow> d + 1 = 4" unfolding m using assms(5,6) by (intro z) linarith+
  moreover have "y mod 100 = 0 \<longleftrightarrow> 4 * c + d + 1 = 100" unfolding m using assms(3-6) by (intro z) linarith+
  moreover have "y mod 400 = 0 \<longleftrightarrow> 100 * b + 4 * c + d + 1 = 400" unfolding m using assms(1-6) by (intro z) linarith+
  ultimately show "leap y \<longleftrightarrow> d = 3 \<and> (c \<noteq> 24 \<or> b = 3)" by (auto simp: leap_def)
qed

lemma year_of_day_spec:
  assumes "year_of_day n = (y, r)"
  shows "year_start y + r = n" "0 \<le> r" "r < 365 + (if leap y then 1 else 0)"
proof -
  define a where "a = n div 146097"
  define s where "s = n mod 146097"
  define b where "b = min 3 (s div 36524)"
  define t where "t = s - 36524 * b"
  define c where "c = t div 1461"
  define u where "u = t - 1461 * c"
  define d where "d = min 3 (u div 365)"
  have y: "y = 400 * a + 100 * b + 4 * c + d + 1" "r = u - 365 * d"
    using assms by (auto simp: year_of_day_def Let_def a_def s_def b_def t_def c_def u_def d_def)
  have n: "n = 146097 * a + s" "0 \<le> s" "s < 146097" by (simp_all add: a_def s_def)
  have b: "0 \<le> b" "b \<le> 3" "0 \<le> t" "t \<le> 36524" "b < 3 \<Longrightarrow> t < 36524"
    using n(2,3) unfolding t_def b_def by (auto simp: min_def split: if_splits)
  have "u = t mod 1461" by (simp add: u_def c_def minus_mult_div_eq_mod)
  moreover have "c \<le> 36524 div 1461" unfolding c_def using b(4) by (intro zdiv_mono1) simp_all
  ultimately have c: "0 \<le> c" "c \<le> 24" "0 \<le> u" "u < 1461" using b(3) by (simp_all add: c_def pos_imp_zdiv_nonneg_iff)
  have d: "0 \<le> d" "d \<le> 3" "0 \<le> r" "r \<le> 365" "d < 3 \<Longrightarrow> r < 365"
    using c(3,4) unfolding y(2) d_def by (auto simp: min_def split: if_splits)
  note cyc = cycles [OF b(1,2) c(1,2) d(1,2), of a, folded y(1)]
  show "year_start y + r = n" unfolding cyc(1) y(2) n(1) u_def t_def by simp
  show "0 \<le> r" by (rule d(3))
  have "r < 365" if "\<not> leap y"
  proof (rule ccontr)
    assume "\<not> r < 365"
    then have "d = 3" "r = 365" using d(2,4,5) by linarith+
    then have "u = 1460" using y(2) by simp
    moreover have "c = 24" "b \<noteq> 3" using that cyc(2) \<open>d = 3\<close> by auto
    ultimately have "t = 36524" using u_def by simp
    with b(2,5) \<open>b \<noteq> 3\<close> show False by linarith
  qed
  then show "r < 365 + (if leap y then 1 else 0)" using d(4) by auto
qed

lemma split_month_spec:
  assumes "split_month ls d = (m, r)" "0 \<le> d" "d < sum_list ls"
  shows "m < length ls \<and> 0 \<le> r \<and> r < ls ! m \<and> sum_list (take m ls) + r = d"
  using assms
proof (induction ls d arbitrary: m r rule: split_month.induct)
  case (2 l ls d)
  show ?case
  proof (cases "d < l")
    case False
    then obtain k where k: "split_month ls (d - l) = (k, r)" "m = Suc k"
      using "2.prems"(1) by (cases "split_month ls (d - l)") auto
    with "2.IH" [OF False k(1)] False "2.prems" show ?thesis by simp
  qed (use "2.prems" in simp)
qed simp

lemma month_days_sum: "sum_list (month_days y) = 365 + (if leap y then 1 else 0)"
  by (simp add: month_days_def)

lemma date_of_day_spec:
  assumes "date_of_day n = (y, m, d)"
  shows "1 \<le> m" "m \<le> 12" "1 \<le> d" "d \<le> month_days y ! (m - 1)" "day_of_date y m d = n"
    "year_start y \<le> n + epoch_day" "n + epoch_day < year_start y + 366"
proof -
  obtain r where r: "year_of_day (n + epoch_day) = (y, r)" "split_month (month_days y) r = (m - 1, d - 1)" "1 \<le> m"
    using assms by (auto simp: date_of_day_def split: prod.splits)
  note spec = year_of_day_spec [OF r(1)]
  have "r < sum_list (month_days y)" using spec(3) by (simp add: month_days_sum)
  from split_month_spec [OF r(2) spec(2) this] have m: "m - 1 < 12" "0 \<le> d - 1" "d - 1 < month_days y ! (m - 1)"
      "sum_list (take (m - 1) (month_days y)) + (d - 1) = r"
    by (auto simp: month_days_def)
  show "1 \<le> m" "m \<le> 12" "1 \<le> d" "d \<le> month_days y ! (m - 1)" using r(3) m by auto
  show "day_of_date y m d = n" using m(4) spec(1) by (simp add: day_of_date_def)
  show "year_start y \<le> n + epoch_day" "n + epoch_day < year_start y + 366" using spec by (auto split: if_splits)
qed

section \<open>Text forms\<close>

text \<open>Decimal with leading zeros up to a width.\<close>

definition pad_int :: "nat \<Rightarrow> int \<Rightarrow> string" where
  "pad_int w x =
     (let ds = show_nat (nat \<bar>x\<bar>) in (if x < 0 then ''-'' else []) @ replicate (w - length ds) (CHR ''0'') @ ds)"

text \<open>The fraction of a second: nine digits without trailing zeros, nothing for zero.\<close>

definition format_nanos :: "int \<Rightarrow> string" where
  "format_nanos ns =
     (if ns = 0 then [] else CHR ''.'' # rev (dropWhile (\<lambda>c. c = CHR ''0'') (rev (pad_int 9 ns))))"

definition formatTime :: "int \<Rightarrow> string" where
  "formatTime t =
     (let secs = t div 1000000000; sod = secs mod 86400; (y, m, d) = date_of_day (secs div 86400)
      in pad_int 4 y @ ''-'' @ pad_int 2 (int m) @ ''-'' @ pad_int 2 d @ ''T''
         @ pad_int 2 (sod div 3600) @ '':'' @ pad_int 2 (sod mod 3600 div 60) @ '':'' @ pad_int 2 (sod mod 60)
         @ format_nanos (t mod 1000000000) @ ''Z'')"

text \<open>
  The parser works through the chunks of the layout; each reads a prefix of the value. A hour
  may have one digit, a fraction any number of digits behind a point or a comma.
\<close>

definition check :: "bool \<Rightarrow> unit option" where
  "check b = (if b then Some () else None)"

fun skip :: "string \<Rightarrow> string \<Rightarrow> string option" where
  "skip [] v = Some v"
| "skip (c # p) (x # v) = (if x = c then skip p v else None)"
| "skip (c # p) [] = None"

fun getnum :: "bool \<Rightarrow> string \<Rightarrow> (int \<times> string) option" where
  "getnum fixed [] = None"
| "getnum fixed [a] = (if is_digit a \<and> \<not> fixed then Some (digit_val a, []) else None)"
| "getnum fixed (a # b # v) =
     (if \<not> is_digit a then None
      else if is_digit b then Some (10 * digit_val a + digit_val b, v)
      else if fixed then None else Some (digit_val a, b # v))"

definition parse_year :: "string \<Rightarrow> (int \<times> string) option" where
  "parse_year v = do {
     check (4 \<le> length v \<and> list_all is_digit (take 4 v));
     Some (digits_val (take 4 v), drop 4 v) }"

definition parse_nanos :: "string \<Rightarrow> int \<times> string" where
  "parse_nanos v =
     (case v of
        c # x # _ \<Rightarrow>
          if (c = CHR ''.'' \<or> c = CHR '','') \<and> is_digit x
          then let ds = takeWhile is_digit (tl v); used = take 9 ds
               in (digits_val used * 10 ^ (9 - length used), dropWhile is_digit (tl v))
          else (0, v)
      | _ \<Rightarrow> (0, v))"

definition parse_zone :: "string \<Rightarrow> (int \<times> string) option" where
  "parse_zone v =
     (if hasPrefix v ''Z'' then Some (0, drop 1 v)
      else do {
        check (6 \<le> length v \<and> v ! 3 = CHR '':'' \<and> v ! 0 \<in> {CHR ''+'', CHR ''-''});
        (hr, _) \<leftarrow> getnum True (take 2 (drop 1 v));
        (mm, _) \<leftarrow> getnum True (take 2 (drop 4 v));
        check (hr \<le> 24 \<and> mm \<le> 60);
        Some ((if v ! 0 = CHR ''-'' then - 1 else 1) * (hr * 60 + mm) * 60, drop 6 v) })"

definition parseTime :: "string \<Rightarrow> int option" where
  "parseTime v = do {
     (y, v) \<leftarrow> parse_year v; v \<leftarrow> skip ''-'' v;
     (m, v) \<leftarrow> getnum True v; check (1 \<le> m \<and> m \<le> 12); v \<leftarrow> skip ''-'' v;
     (d, v) \<leftarrow> getnum True v; v \<leftarrow> skip ''T'' v;
     (hh, v) \<leftarrow> getnum False v; check (hh < 24); v \<leftarrow> skip '':'' v;
     (mi, v) \<leftarrow> getnum True v; check (mi < 60); v \<leftarrow> skip '':'' v;
     (ss, v) \<leftarrow> getnum True v; check (ss < 60);
     (ns, v) \<leftarrow> Some (parse_nanos v);
     (off, v) \<leftarrow> parse_zone v; check (v = []);
     check (1 \<le> d \<and> d \<le> month_days y ! (nat m - 1));
     Some (seconds (86400 * day_of_date y (nat m) d + 3600 * hh + 60 * mi + ss - off) + ns) }"

section \<open>Reading back\<close>

lemma check_bind [simp]: "check b \<bind> f = (if b then f () else None)"
  by (simp add: check_def)

lemma digits_val_Cons: "digits_val (c # s) = digit_val c * 10 ^ length s + digits_val s"
proof (induction s rule: rev_induct)
  case (snoc x s)
  have "digits_val (c # s @ [x]) = 10 * digits_val (c # s) + digit_val x"
    using digits_val_snoc [of "c # s" x] by simp
  with snoc show ?case by (simp add: algebra_simps)
qed (simp add: digits_val_def)

lemma digits_val_zeros:
  "digits_val (replicate k (CHR ''0'') @ s) = digits_val s"
  "digits_val (s @ replicate k (CHR ''0'')) = digits_val s * 10 ^ k"
proof -
  have z: "digit_val (CHR ''0'') = 0" by (simp add: digit_val_def)
  show "digits_val (replicate k (CHR ''0'') @ s) = digits_val s"
    by (induction k) (simp_all add: digits_val_Cons z)
  show "digits_val (s @ replicate k (CHR ''0'')) = digits_val s * 10 ^ k"
  proof (induction k)
    case (Suc k)
    have "digits_val (s @ replicate (Suc k) (CHR ''0'')) = digits_val ((s @ replicate k (CHR ''0'')) @ [CHR ''0''])"
      by (simp add: replicate_append_same)
    with Suc show ?case by (simp only: digits_val_snoc z) simp
  qed simp
qed

lemma pad_int_spec:
  assumes "0 \<le> x" "x < 10 ^ w" "0 < w"
  shows "length (pad_int w x) = w" "list_all is_digit (pad_int w x)" "digits_val (pad_int w x) = x"
proof -
  have "nat x < 10 ^ w" using assms by (simp add: nat_less_iff)
  from length_show_nat [OF this assms(3)] assms(1) show "length (pad_int w x) = w"
    by (simp add: pad_int_def Let_def)
  show "list_all is_digit (pad_int w x)"
    using assms(1) show_nat_digits [of "nat x"] by (auto simp: pad_int_def Let_def is_digit_def list_all_iff)
  show "digits_val (pad_int w x) = x"
    using assms(1) by (simp add: pad_int_def Let_def digits_val_zeros digits_val_show_nat)
qed

lemma getnum_pad:
  assumes "0 \<le> x" "x < 100"
  shows "getnum fixed (pad_int 2 x @ v) = Some (x, v)"
proof -
  have "x < 10 ^ 2" using assms(2) by simp
  note spec = pad_int_spec [OF assms(1) this]
  then obtain a b where "pad_int 2 x = [a, b]"
    by (auto simp: numeral_2_eq_2 length_Suc_conv)
  with spec show ?thesis by (simp add: digits_val_def)
qed

lemma parse_year_pad:
  assumes "0 \<le> y" "y < 10000"
  shows "parse_year (pad_int 4 y @ v) = Some (y, v)"
  using pad_int_spec [of y 4] assms by (simp add: parse_year_def)

lemma strip_zeros:
  obtains k where "s = rev (dropWhile (\<lambda>c. c = z) (rev s)) @ replicate k z"
proof -
  have "replicate (length (takeWhile (\<lambda>c. c = z) (rev s))) z = takeWhile (\<lambda>c. c = z) (rev s)"
    by (intro replicate_length_same) (auto dest: set_takeWhileD)
  then have "rev s = replicate (length (takeWhile (\<lambda>c. c = z) (rev s))) z @ dropWhile (\<lambda>c. c = z) (rev s)"
    using takeWhile_dropWhile_id [of "\<lambda>c. c = z" "rev s"] by simp
  then have "s = rev (dropWhile (\<lambda>c. c = z) (rev s)) @ replicate (length (takeWhile (\<lambda>c. c = z) (rev s))) z"
    by (metis rev_append rev_replicate rev_rev_ident)
  then show ?thesis by (rule that)
qed

lemma parse_format_nanos:
  assumes "0 \<le> ns" "ns < 1000000000"
  shows "parse_nanos (format_nanos ns @ ''Z'') = (ns, ''Z'')"
proof (cases "ns = 0")
  case True
  then show ?thesis by (simp add: format_nanos_def parse_nanos_def)
next
  case False
  have "ns < 10 ^ 9" using assms(2) by simp
  note spec = pad_int_spec [OF assms(1) this]
  define body where "body = rev (dropWhile (\<lambda>c. c = CHR ''0'') (rev (pad_int 9 ns)))"
  obtain k where k: "pad_int 9 ns = body @ replicate k (CHR ''0'')"
    unfolding body_def by (rule strip_zeros)
  have b: "list_all is_digit body" "length body + k = 9" "digits_val body * 10 ^ k = ns"
    using spec unfolding k by (simp_all only: digits_val_zeros list_all_append length_append length_replicate)
  have "body \<noteq> []"
  proof
    assume "body = []"
    with b(3) False show False by (simp add: digits_val_def)
  qed
  then obtain x xs where x: "body = x # xs" "is_digit x" using b(1) by (cases body) auto
  have t: "takeWhile is_digit (body @ ''Z'') = body" "dropWhile is_digit (body @ ''Z'') = ''Z''"
    using b(1) by (simp_all add: list_all_iff takeWhile_append dropWhile_append is_digit_def)
  have "k = 9 - length body" using b(2) by simp
  then have "parse_nanos (CHR ''.'' # body @ ''Z'') = (ns, ''Z'')"
    using t b(2,3) x by (simp add: parse_nanos_def Let_def)
  then show ?thesis using False by (simp add: format_nanos_def body_def)
qed

lemma year_range:
  assumes "0 \<le> n" "n < 2932897" "year_start y \<le> n + epoch_day" "n + epoch_day < year_start y + 366"
  shows "0 \<le> y" "y < 10000"
proof -
  have mono: "year_start u \<le> year_start v" if "u \<le> v" for u v
  proof -
    have "(u - 1) div 4 \<le> (v - 1) div 4" "(u - 1) div 400 \<le> (v - 1) div 400"
      using that by (simp_all add: zdiv_mono1)
    moreover have "100 * ((v - 1) div 100) \<le> v - 1" "u - 1 < 100 * ((u - 1) div 100) + 100"
      using mult_div_mod_eq [of 100 "v - 1"] mult_div_mod_eq [of 100 "u - 1"] pos_mod_bound [of 100 "u - 1"]
        pos_mod_sign [of 100 "v - 1"] by linarith+
    ultimately show ?thesis using that by (simp add: year_start_def)
  qed
  have "year_start 10000 = 2932897 + epoch_day" "year_start 0 = - 366" by code_simp+
  with mono [of 10000 y] mono [of y 0] assms show "0 \<le> y" "y < 10000"
    unfolding epoch_day_def by linarith+
qed

lemma parse_format:
  assumes "0 \<le> t" "t < seconds (86400 * 2932897)"
  shows "parseTime (formatTime t) = Some t"
proof -
  define s n where "s = t div 1000000000" and "n = s div 86400"
  obtain y m d where date: "date_of_day n = (y, m, d)" by (metis prod.exhaust)
  note spec = date_of_day_spec [OF date]
  have t: "1000000000 * s + t mod 1000000000 = t" "86400 * n + s mod 86400 = s" by (simp_all add: s_def n_def)
  have n: "0 \<le> n" "n < 2932897"
    using assms t pos_mod_sign [of 1000000000 t] pos_mod_bound [of 1000000000 t] pos_mod_sign [of 86400 s]
      pos_mod_bound [of 86400 s] by linarith+
  note y = year_range [OF n spec(6,7)]
  have "month_days y ! (m - 1) \<le> 31"
    using spec(1,2) by (auto simp: month_days_def nth_Cons split: nat.splits)
  then have d: "d < 100" "0 \<le> d" using spec(3,4) by linarith+
  define sod where "sod = s mod 86400"
  have sod: "0 \<le> sod" "sod < 86400" by (simp_all add: sod_def)
  define hh mi ss where "hh = sod div 3600" and "mi = sod mod 3600 div 60" and "ss = sod mod 60"
  have e: "3600 * hh + sod mod 3600 = sod" "60 * mi + ss = sod mod 3600"
    using mult_div_mod_eq [of 60 "sod mod 3600"] by (simp_all add: hh_def mi_def ss_def mod_mod_cancel)
  have ss: "0 \<le> ss" "ss < 60" by (simp_all add: ss_def)
  have r: "0 \<le> sod mod 3600" "sod mod 3600 < 3600" by simp_all
  have h: "0 \<le> mi" "mi < 60" "0 \<le> hh" "hh < 24" using e ss r sod by linarith+
  have ns: "0 \<le> t mod 1000000000" "t mod 1000000000 < 1000000000" by simp_all
  have form: "formatTime t =
      pad_int 4 y @ ''-'' @ pad_int 2 (int m) @ ''-'' @ pad_int 2 d @ ''T'' @ pad_int 2 hh @ '':'' @ pad_int 2 mi
      @ '':'' @ pad_int 2 ss @ format_nanos (t mod 1000000000) @ ''Z''"
    by (simp add: formatTime_def Let_def date sod_def hh_def mi_def ss_def s_def [symmetric] n_def [symmetric])
  have "int m < 100" "0 \<le> int m" using spec(2) by simp_all
  note reads = parse_year_pad [OF y] getnum_pad [OF \<open>0 \<le> int m\<close> \<open>int m < 100\<close>] getnum_pad [OF d(2,1)]
    getnum_pad [of hh] getnum_pad [of mi] getnum_pad [of ss] parse_format_nanos [OF ns]
  have "parse_zone ''Z'' = Some (0, [])" by (simp add: parse_zone_def hasPrefix_def)
  then have "parseTime (formatTime t) = Some (seconds (86400 * day_of_date y m d + 3600 * hh + 60 * mi + ss) + t mod 1000000000)"
    unfolding form parseTime_def using spec(1-4) h ss by (simp add: reads)
  also have "86400 * day_of_date y m d + 3600 * hh + 60 * mi + ss = s"
    unfolding spec(5) using t(2) e by (simp add: sod_def)
  finally show ?thesis using t(1) by simp
qed

end
