(* ===== verification/Rollout.thy ===== *)
theory Rollout
  imports Fleet_State Scaling Go_Time
begin

text \<open>
  The rollout state machine (\<open>src/internal/controller/rollout.go\<close>): the safety checks on a
  change of the celld image, the digest of the referenced Secrets, and \<open>reconcileFleet\<close> with
  its branches \<open>rolloutStep\<close>, \<open>recreateStep\<close> and \<open>steadyFleet\<close>.

  One pass takes the answers of the calls it makes in a record of type \<open>rollout_env\<close>, with one
  field per call site, so an arbitrary change of the cluster between two calls of the same
  pass is covered. The clock is read through fields as well.
\<close>

section \<open>Outcomes and the StatefulSet's fields\<close>

definition settleAnnotation :: string where
  "settleAnnotation = ''celld-operator.io/settle-until''"

definition recreateAnnotation :: string where
  "recreateAnnotation = ''celld-operator.io/recreating''"

text \<open>\<open>fo_requeue\<close> is a duration in nanoseconds, as \<open>time.Duration\<close> is.\<close>

record fleetOutcome =
  fo_phase :: WorkerAppPhase
  fo_partition :: int
  fo_waitingOn :: string
  fo_requeue :: int
  fo_rolledOut :: bool

definition outcome :: "WorkerAppPhase \<Rightarrow> string \<Rightarrow> int \<Rightarrow> fleetOutcome" where
  "outcome phase waiting requeue =
     \<lparr>fo_phase = phase, fo_partition = 0, fo_waitingOn = waiting, fo_requeue = requeue,
      fo_rolledOut = False\<rparr>"

definition stsContainerImage :: "StatefulSet \<Rightarrow> string" where
  "stsContainerImage sts =
     (case find (\<lambda>c. co_name c = celldContainerName) (ps_containers (pt_spec (st_template sts))) of
        Some c \<Rightarrow> co_image c
      | None \<Rightarrow> [])"

definition stsPartition :: "StatefulSet \<Rightarrow> int" where
  "stsPartition sts =
     (case su_rollingUpdate (st_updateStrategy sts) of Some (Some n) \<Rightarrow> n | _ \<Rightarrow> 0)"

definition setStsPartition :: "int \<Rightarrow> StatefulSet \<Rightarrow> StatefulSet" where
  "setStsPartition part sts =
     sts\<lparr>st_updateStrategy := \<lparr>su_type = ''RollingUpdate'', su_rollingUpdate = Some (Some part)\<rparr>\<rparr>"

abbreviation sts_annotation :: "StatefulSet \<Rightarrow> string \<Rightarrow> string" where
  "sts_annotation sts k \<equiv> gm_index (om_annotations (st_meta sts)) k"

definition annotate :: "string \<Rightarrow> string \<Rightarrow> StatefulSet \<Rightarrow> StatefulSet" where
  "annotate k v sts =
     sts\<lparr>st_meta := (st_meta sts)\<lparr>om_annotations := gm_set k v (om_annotations (st_meta sts))\<rparr>\<rparr>"

definition unannotate :: "string \<Rightarrow> StatefulSet \<Rightarrow> StatefulSet" where
  "unannotate k sts =
     sts\<lparr>st_meta := (st_meta sts)\<lparr>om_annotations := gm_del k (om_annotations (st_meta sts))\<rparr>\<rparr>"

text \<open>The zero value of the Go struct.\<close>

definition zero_PodSpec :: PodSpec where
  "zero_PodSpec =
     \<lparr>ps_automountServiceAccountToken = None, ps_securityContext = None, ps_nodeSelector = [],
      ps_tolerations = [], ps_antiAffinity = None, ps_serviceAccountName = [],
      ps_terminationGracePeriodSeconds = None, ps_containers = [], ps_volumes = [],
      ps_topologySpread = []\<rparr>"

definition zero_StatefulSet :: StatefulSet where
  "zero_StatefulSet =
     \<lparr>st_meta = new_meta [] [] [] [], st_replicas = None, st_selector = [], st_serviceName = [],
      st_template = \<lparr>pt_labels = [], pt_annotations = [], pt_spec = zero_PodSpec\<rparr>,
      st_updateStrategy = \<lparr>su_type = [], su_rollingUpdate = None\<rparr>, st_volumeClaims = [],
      st_pvcRetention = ([], []), st_status = zero_sts_status\<rparr>"

section \<open>Which changes must not be rolled\<close>

text \<open>
  The first \<open>CELLD_DURABILITY\<close> of the first celld container that has one decides.
\<close>

definition usesFleetDurability :: "StatefulSet \<Rightarrow> bool" where
  "usesFleetDurability sts =
     (case find (\<lambda>e. ev_name e = ''CELLD_DURABILITY'')
             (concat (map co_env (filter (\<lambda>c. co_name c = celldContainerName)
                (ps_containers (pt_spec (st_template sts)))))) of
        Some e \<Rightarrow> ev_value e \<noteq> DurabilityBucket
      | None \<Rightarrow> True)"

definition fleetBreakingReason :: "StatefulSet \<Rightarrow> StatefulSet \<Rightarrow> string" where
  "fleetBreakingReason existing desired =
     (let fromImage = stsContainerImage existing; toImage = stsContainerImage desired;
          reason = breakingReason fromImage toImage
      in if reason \<noteq> [] then reason
         else case (minorOf fromImage, minorOf toImage) of
                (Some from, Some to) \<Rightarrow>
                  let v06 = mk_version 0 6;
                      crosses = (mv_cmp from v06 < 0 \<and> mv_cmp to v06 \<ge> 0)
                                \<or> (mv_cmp from v06 \<ge> 0 \<and> mv_cmp to v06 < 0)
                  in if crosses \<and> (usesFleetDurability existing \<or> usesFleetDurability desired)
                     then ''v0.5 and v0.6 fleet replication streams are incompatible; stop the whole fleet first''
                     else []
              | _ \<Rightarrow> [])"

text \<open>The literal \<open>&appsv1.StatefulSet{...Spec: pod.Spec}\<close>.\<close>

definition pod_as_fleet :: "Pod \<Rightarrow> StatefulSet" where
  "pod_as_fleet pod =
     zero_StatefulSet\<lparr>st_template := (st_template zero_StatefulSet)\<lparr>pt_spec := pod_spec pod\<rparr>\<rparr>"

fun podsBreakingReason :: "platform \<Rightarrow> StatefulSet \<Rightarrow> StatefulSet \<Rightarrow> Pod list \<Rightarrow> string" where
  "podsBreakingReason P existing desired [] = []"
| "podsBreakingReason P existing desired (pod # pods) =
     (if \<not> pf_IsControlledBy P (pod_meta pod) (st_meta existing)
      then podsBreakingReason P existing desired pods
      else let reason = fleetBreakingReason (pod_as_fleet pod) desired in
           if reason \<noteq> [] then ''pod '' @ pod_name pod @ '': '' @ reason
           else podsBreakingReason P existing desired pods)"

definition liveFleetBreakingReason ::
  "platform \<Rightarrow> Pod list result \<Rightarrow> StatefulSet \<Rightarrow> StatefulSet \<Rightarrow> string result" where
  "liveFleetBreakingReason P listed existing desired =
     (let reason = fleetBreakingReason existing desired in
      if reason \<noteq> [] then Inr reason
      else case listed of
             Inl e \<Rightarrow> Inl e
           | Inr pods \<Rightarrow> Inr (podsBreakingReason P existing desired pods))"

definition runtimeChangeRefusal :: "WorkerApp \<Rightarrow> string \<Rightarrow> string" where
  "runtimeChangeRefusal app oldImage =
     (let from = minorOf oldImage; to = minorOf (app_image app);
          v03 = mk_version 0 3
      in if (case (from, to) of (Some f, Some t) \<Rightarrow> mv_cmp f v03 \<ge> 0 \<and> mv_cmp t v03 < 0 | _ \<Rightarrow> False)
         then ''downgrade requires offline durability verification and migration to a new WorkerApp''
         else if oldImage \<noteq> app_image app \<and> (from = None \<or> to = None)
                 \<and> cd_updateStrategy (ws_celld (wa_spec app)) \<noteq> UpdateStrategyRecreate
         then ''unrecognized live image requires Recreate''
         else [])"

section \<open>The digest of the referenced Secrets\<close>

text \<open>What \<open>write(parts...)\<close> feeds to the digest: every part followed by a zero byte.\<close>

definition digest_parts :: "string list \<Rightarrow> string" where
  "digest_parts parts = concat (map (\<lambda>p. p @ [CHR 0x00]) parts)"

definition secretRefs :: "WorkerApp \<Rightarrow> string list" where
  "secretRefs app =
     (case ws_vars (wa_spec app) of
        Some v \<Rightarrow> if va_secretRef v \<noteq> [] then [va_secretRef v] else []
      | None \<Rightarrow> [])
     @ (let ref = bc_secretRef (app_credentials app) in if ref \<noteq> [] then [ref] else [])"

fun digest_secrets :: "(string \<Rightarrow> Secret result) \<Rightarrow> string list \<Rightarrow> string result" where
  "digest_secrets get [] = Inr []"
| "digest_secrets get (name # names) =
     res_bind
       (case get name of
          Inl e \<Rightarrow> if IsNotFound e then Inr (digest_parts [''missing'', name])
                   else Inl (Wrapped (''reading secret '' @ name) e)
        | Inr secret \<Rightarrow> Inr (digest_parts [''secret'', name]
            @ concat (map (\<lambda>(k, v). digest_parts [k, v]) (sec_data secret))))
       (\<lambda>d. res_bind (digest_secrets get names) (\<lambda>rest. Inr (d @ rest)))"

definition configHash :: "platform \<Rightarrow> (string \<Rightarrow> Secret result) \<Rightarrow> WorkerApp \<Rightarrow> string result" where
  "configHash P get app =
     (if secretRefs app = [] then Inr []
      else res_bind (digest_secrets get (secretRefs app))
             (\<lambda>d. Inr (take 16 (hex (pf_sha256 P d)))))"

section \<open>Writing the StatefulSet\<close>

record rollout_env =
  ro_secret :: "string \<Rightarrow> Secret result"
  ro_existing :: "StatefulSet result"
  ro_create :: "StatefulSet \<Rightarrow> gerror option"
  ro_pause :: pause_env
  ro_livePods :: "Pod list result"
  ro_oldPods :: "Pod list result"
  ro_update :: "StatefulSet \<Rightarrow> StatefulSet result"
  ro_release :: "StatefulSet \<Rightarrow> StatefulSet result"
  ro_pod :: "string \<Rightarrow> Pod result"
  ro_obs :: obs_env
  ro_order :: "PodState gomap \<Rightarrow> PodState gomap"
  ro_nowStart :: int
  ro_nowCheck :: int
  ro_nowUntil :: int
  ro_nowSettle :: int

text \<open>
  \<open>updateFleet\<close>: the answer is the object the server stored, which replaces the caller's
  copy; \<open>None\<close> reports a conflict.
\<close>

definition updateFleet ::
  "(StatefulSet \<Rightarrow> StatefulSet result) \<Rightarrow> StatefulSet \<Rightarrow> StatefulSet option eff" where
  "updateFleet upd sts =
     ([Update (KStatefulSet sts)],
      case upd sts of
        Inl e \<Rightarrow> if IsConflict e then Inr None else Inl e
      | Inr stored \<Rightarrow> Inr (Some stored))"

definition conflictOutcome :: "WorkerApp \<Rightarrow> fleetOutcome" where
  "conflictOutcome app =
     outcome (if wst_phase (wa_status app) = PhaseUnset then PhasePending
              else wst_phase (wa_status app))
       ''statefulset write conflicted; retrying'' (seconds 3)"

text \<open>The idiom around every call of \<open>updateFleet\<close>.\<close>

definition write_then ::
  "WorkerApp \<Rightarrow> (StatefulSet \<Rightarrow> StatefulSet result) \<Rightarrow> StatefulSet
    \<Rightarrow> (StatefulSet \<Rightarrow> fleetOutcome eff) \<Rightarrow> fleetOutcome eff" where
  "write_then app upd sts k =
     eff_bind (updateFleet upd sts)
       (\<lambda>w. case w of None \<Rightarrow> eff_return (conflictOutcome app) | Some stored \<Rightarrow> k stored)"

section \<open>A step of a rolling update\<close>

text \<open>
  Gate 1, for the ordinals of the list: an error, what is waited for, or \<open>None\<close> when every
  one of them runs the new revision and is ready.
\<close>

fun releasedGate ::
  "(string \<Rightarrow> Pod result) \<Rightarrow> string \<Rightarrow> string \<Rightarrow> int list \<Rightarrow> string option result" where
  "releasedGate get base revision [] = Inr None"
| "releasedGate get base revision (ord # ords) =
     (let name = ordinal_name base ord in
      case get name of
        Inl e \<Rightarrow> if IsNotFound e then Inr (Some (name @ '': missing'')) else Inl e
      | Inr pod \<Rightarrow>
          if gm_index (om_labels (pod_meta pod)) ''controller-revision-hash'' \<noteq> revision
          then Inr (Some (name @ '': updating''))
          else if \<not> podReady pod then Inr (Some (name @ '': not ready''))
          else releasedGate get base revision ords)"

text \<open>\<open>time.Until\<close>: the difference of two times, saturated at the range of a duration.\<close>

definition duration_sat :: "int \<Rightarrow> int" where
  "duration_sat d = max (- (2 ^ 63)) (min (2 ^ 63 - 1) d)"

definition settle_deadline :: "int \<Rightarrow> string" where
  "settle_deadline now = formatTime (now + seconds 10)"

text \<open>
  The second half of \<open>rolloutStep\<close>: the two gates, and the release of the next ordinal.
\<close>

definition rolloutRelease ::
  "platform \<Rightarrow> rollout_env \<Rightarrow> WorkerApp \<Rightarrow> int \<Rightarrow> int \<Rightarrow> StatefulSet \<Rightarrow> fleetOutcome eff" where
  "rolloutRelease P E app liveReplicas part sts =
     (let out = (outcome PhaseRollingOut [] (seconds 10))\<lparr>fo_partition := part\<rparr>;
          waiting = (\<lambda>w. eff_return (out\<lparr>fo_waitingOn := w\<rparr>));
          revision = ss_updateRevision (st_status sts)
      in
      if revision = [] then waiting ''statefulset: update revision pending''
      else case releasedGate (ro_pod E) (fleetName app) revision [part..liveReplicas - 1] of
        Inl e \<Rightarrow> eff_fail e
      | Inr (Some w) \<Rightarrow> waiting w
      | Inr None \<Rightarrow>
          let seen = observeFleet P (ro_obs E) sts in
          if sw_err seen \<noteq> None \<or> sw_restoring seen \<noteq> 0
          then waiting (''fleet state: restoring='' @ show_int (sw_restoring seen)
                          @ '', error='' @ show_err (sw_err seen))
          else
            let next = part - 1;
                sts' = setStsPartition next
                         (annotate settleAnnotation (settle_deadline (ro_nowSettle E)) sts)
            in write_then app (ro_release E) sts'
                 (\<lambda>_. eff_return (out\<lparr>fo_partition := next,
                        fo_waitingOn := (if next = 0 then fleetName app @ ''-0: updating''
                                         else ordinal_name (fleetName app) next @ '': updating'')\<rparr>)))"

text \<open>\<open>rolloutStep\<close> once the partition has been clamped to the live replicas.\<close>

definition rolloutAdvance ::
  "platform \<Rightarrow> rollout_env \<Rightarrow> WorkerApp \<Rightarrow> int \<Rightarrow> int \<Rightarrow> StatefulSet \<Rightarrow> fleetOutcome eff" where
  "rolloutAdvance P E app liveReplicas part sts =
     (let out = (outcome PhaseRollingOut [] (seconds 10))\<lparr>fo_partition := part\<rparr> in
      if part \<le> 0 \<or> ss_observedGeneration (st_status sts) \<noteq> om_generation (st_meta sts)
      then eff_return (out\<lparr>fo_waitingOn := ''waiting for StatefulSet observation''\<rparr>)
      else case parseTime (sts_annotation sts settleAnnotation) of
        None \<Rightarrow> rolloutRelease P E app liveReplicas part sts
      | Some deadline \<Rightarrow>
          if ro_nowCheck E < deadline
          then eff_return (out\<lparr>fo_waitingOn := ''waiting for rollout settle interval'',
                               fo_requeue := duration_sat (deadline - ro_nowUntil E)\<rparr>)
          else rolloutRelease P E app liveReplicas part sts)"

definition rolloutStep ::
  "platform \<Rightarrow> rollout_env \<Rightarrow> WorkerApp \<Rightarrow> StatefulSet \<Rightarrow> fleetOutcome eff" where
  "rolloutStep P E app sts =
     (let part = stsPartition sts; liveReplicas = deref0 (st_replicas sts) in
      if part > liveReplicas
      then write_then app (ro_update E) (setStsPartition liveReplicas sts)
             (rolloutAdvance P E app liveReplicas liveReplicas)
      else rolloutAdvance P E app liveReplicas part sts)"

section \<open>Stop all, then start\<close>

definition recreateStep ::
  "rollout_env \<Rightarrow> WorkerApp \<Rightarrow> StatefulSet \<Rightarrow> StatefulSet \<Rightarrow> string \<Rightarrow> fleetOutcome eff" where
  "recreateStep E app existing desired hazard =
     (let out = outcome PhaseRecreating [] (seconds 10) in
      if deref0 (st_replicas existing) \<noteq> 0
      then write_then app (ro_update E)
             (annotate recreateAnnotation annotationTrue (existing\<lparr>st_replicas := Some 0\<rparr>))
             (\<lambda>_. eff_return (out\<lparr>fo_waitingOn := ''scaling to zero for non-rolling celld change''
                    @ (if hazard \<noteq> [] then '': '' @ hazard else [])\<rparr>))
      else case ro_oldPods E of
        Inl e \<Rightarrow> eff_fail e
      | Inr oldPods \<Rightarrow>
          if ss_observedGeneration (st_status existing) \<noteq> om_generation (st_meta existing)
             \<or> oldPods \<noteq> [] \<or> ss_replicas (st_status existing) > 0
          then eff_return (out\<lparr>fo_waitingOn := show_int (ss_replicas (st_status existing)) @ '' pods draining''\<rparr>)
          else
            let hash = sts_annotation desired templateHashAnnotation;
                existing' = setStsPartition 0
                  ((unannotate recreateAnnotation (annotate templateHashAnnotation hash
                      (existing\<lparr>st_template := st_template desired\<rparr>)))
                   \<lparr>st_replicas := Some (desiredReplicas app)\<rparr>)
            in write_then app (ro_update E) existing'
                 (\<lambda>_. eff_return (out\<lparr>fo_waitingOn := ''starting new fleet''\<rparr>)))"

section \<open>Steady state\<close>

definition notConverged :: "string \<Rightarrow> PodState \<Rightarrow> bool" where
  "notConverged version state =
     (case po_deployment state of
        None \<Rightarrow> True
      | Some d \<Rightarrow> ds_version d \<noteq> version \<or> ds_draining d \<noteq> [] \<or> ds_swapping d \<noteq> 0)"

definition steadyFleet ::
  "platform \<Rightarrow> rollout_env \<Rightarrow> WorkerApp \<Rightarrow> StatefulSet \<Rightarrow> string \<Rightarrow> fleetOutcome eff" where
  "steadyFleet P E app existing version =
     (let liveReplicas = deref0 (st_replicas existing); status = st_status existing in
      if \<not> autoscalingEnabled app \<and> liveReplicas \<noteq> desiredReplicas app
      then write_then app (ro_update E) (existing\<lparr>st_replicas := Some (desiredReplicas app)\<rparr>)
             (\<lambda>_. eff_return (outcome PhasePending [] (seconds 10)))
      else if \<not> (ss_readyReplicas status = liveReplicas \<and> ss_updatedReplicas status = liveReplicas
                 \<and> ss_observedGeneration status = om_generation (st_meta existing))
      then eff_return (outcome PhasePending
             (''fleet: '' @ show_int (ss_readyReplicas status) @ ''/'' @ show_int liveReplicas @ '' ready'')
             (seconds 15))
      else
        let seen = observeFleet P (ro_obs E) existing in
        if sw_err seen \<noteq> None \<or> sw_restoring seen \<noteq> 0
        then eff_return (outcome PhasePending
               (''waiting for complete fleet state: restoring='' @ show_int (sw_restoring seen)
                  @ '', error='' @ show_err (sw_err seen)) (seconds 15))
        else case find (\<lambda>e. notConverged version (snd e)) (ro_order E (sw_states seen)) of
          Some e \<Rightarrow> eff_return (outcome PhasePending (fst e @ '': deployment not converged'') (seconds 15))
        | None \<Rightarrow> eff_return ((outcome PhaseReady [] (seconds 30))\<lparr>fo_rolledOut := True\<rparr>))"

section \<open>One pass over the fleet\<close>

text \<open>Whether a pass may write the StatefulSet, so that the scaler has to be paused first.\<close>

definition needsPause :: "WorkerApp \<Rightarrow> StatefulSet \<Rightarrow> bool \<Rightarrow> bool" where
  "needsPause app existing templateChanged \<longleftrightarrow>
     templateChanged \<or> stsPartition existing > 0
     \<or> sts_annotation existing recreateAnnotation = annotationTrue
     \<or> (\<not> autoscalingEnabled app \<and> deref0 (st_replicas existing) \<noteq> desiredReplicas app)"

text \<open>The branch \<open>if templateChanged\<close>.\<close>

definition applyTemplate ::
  "platform \<Rightarrow> rollout_env \<Rightarrow> WorkerApp \<Rightarrow> StatefulSet \<Rightarrow> StatefulSet \<Rightarrow> fleetOutcome eff" where
  "applyTemplate P E app existing desired =
     (case liveFleetBreakingReason P (ro_livePods E) existing desired of
        Inl e \<Rightarrow> eff_fail e
      | Inr breaking \<Rightarrow>
          let recreate = (cd_updateStrategy (ws_celld (wa_spec app)) = UpdateStrategyRecreate) in
          if breaking \<noteq> [] \<and> \<not> recreate
          then eff_return (outcome PhaseDegraded
                 (''celld '' @ stsContainerImage existing @ '' -> '' @ app_image app
                    @ '' is not rolling-safe: '' @ breaking @ ''; set celld.updateStrategy: Recreate'') 0)
          else if recreate then recreateStep E app existing desired breaking
          else
            let liveReplicas = deref0 (st_replicas existing);
                existing' = setStsPartition liveReplicas
                  (annotate settleAnnotation (settle_deadline (ro_nowStart E))
                    (annotate templateHashAnnotation (sts_annotation desired templateHashAnnotation)
                      (existing\<lparr>st_template := st_template desired\<rparr>)))
            in write_then app (ro_update E) existing'
                 (\<lambda>_. eff_return ((outcome PhaseRollingOut [] (seconds 10))\<lparr>fo_partition := liveReplicas\<rparr>)))"

text \<open>The rest of \<open>reconcileFleet\<close> once the existing StatefulSet is known to be the fleet's.\<close>

definition driveFleet ::
  "platform \<Rightarrow> rollout_env \<Rightarrow> WorkerApp \<Rightarrow> string \<Rightarrow> StatefulSet \<Rightarrow> StatefulSet \<Rightarrow> string
    \<Rightarrow> fleetOutcome eff" where
  "driveFleet P E app prometheusURL existing desired version =
     (let templateChanged = (sts_annotation existing templateHashAnnotation
                              \<noteq> sts_annotation desired templateHashAnnotation);
          refusal = runtimeChangeRefusal app (stsContainerImage existing)
      in
      eff_bind (if needsPause app existing templateChanged
                then pauseScaling P (ro_pause E) app prometheusURL else eff_return True)
        (\<lambda>paused.
          if \<not> paused
          then eff_return (outcome PhaseRollingOut ''waiting for KEDA pause and HPA removal'' (seconds 5))
          else if refusal \<noteq> [] then eff_return (outcome PhaseDegraded refusal (seconds 60))
          else if sts_annotation existing recreateAnnotation = annotationTrue
          then recreateStep E app existing desired []
          else if templateChanged then applyTemplate P E app existing desired
          else if stsPartition existing > 0 then rolloutStep P E app existing
          else steadyFleet P E app existing version))"

definition reconcileFleet ::
  "platform \<Rightarrow> rollout_env \<Rightarrow> WorkerApp \<Rightarrow> string \<Rightarrow> string \<Rightarrow> fleetOutcome eff" where
  "reconcileFleet P E app prometheusURL version =
     (case configHash P (ro_secret E) app of
        Inl e \<Rightarrow> eff_fail e
      | Inr hash \<Rightarrow>
          let built = buildStatefulSet P app hash version in
          case pf_SetControllerReference P (wa_meta app) (st_meta built) of
            Inl e \<Rightarrow> eff_fail e
          | Inr m \<Rightarrow>
              let desired = built\<lparr>st_meta := m\<rparr> in
              case ro_existing E of
                Inl e \<Rightarrow>
                  if IsNotFound e
                  then ([Create (KStatefulSet desired)],
                        case ro_create E desired of
                          Some e' \<Rightarrow> Inl e'
                        | None \<Rightarrow> Inr (outcome PhasePending [] (seconds 10)))
                  else eff_fail e
              | Inr existing \<Rightarrow>
                  (case requireOwnership P app ''*v1.StatefulSet'' (st_meta existing) of
                     Inl e \<Rightarrow> eff_fail e
                   | Inr _ \<Rightarrow> driveFleet P E app prometheusURL existing desired version))"

end
