(* ===== verification/Rollout_Safety.thy ===== *)
theory Rollout_Safety
  imports Rollout
begin

text \<open>
  What the rollout state machine guarantees: which requests each branch of
  \<open>src/internal/controller/rollout.go\<close> can issue and what it has checked before.
\<close>

section \<open>Fields under the operator's edits\<close>

lemma setStsPartition_simps [simp]:
  "stsPartition (setStsPartition p s) = p"
  "st_template (setStsPartition p s) = st_template s"
  "st_replicas (setStsPartition p s) = st_replicas s"
  "st_meta (setStsPartition p s) = st_meta s"
  "st_status (setStsPartition p s) = st_status s"
  by (simp_all add: setStsPartition_def stsPartition_def)

lemma map_of_gm_set_same [simp]: "map_of (gm_set k v m) k = Some v"
  by (induction k v m rule: gm_set.induct) auto

lemma annotate_simps [simp]:
  "st_template (annotate k v s) = st_template s"
  "st_replicas (annotate k v s) = st_replicas s"
  "stsPartition (annotate k v s) = stsPartition s"
  "st_status (annotate k v s) = st_status s"
  "om_annotations (st_meta (annotate k v s)) = gm_set k v (om_annotations (st_meta s))"
  by (simp_all add: annotate_def stsPartition_def)

lemma unannotate_simps [simp]:
  "st_template (unannotate k s) = st_template s"
  "st_replicas (unannotate k s) = st_replicas s"
  "stsPartition (unannotate k s) = stsPartition s"
  "om_annotations (st_meta (unannotate k s)) = gm_del k (om_annotations (st_meta s))"
  by (simp_all add: unannotate_def stsPartition_def)

lemma stsPartition_update [simp]:
  "stsPartition (s\<lparr>st_template := t\<rparr>) = stsPartition s"
  "stsPartition (s\<lparr>st_replicas := r\<rparr>) = stsPartition s"
  by (simp_all add: stsPartition_def)

text \<open>The breaking-change checks read nothing but the pod template.\<close>

lemma fleetBreakingReason_template:
  assumes "st_template a = st_template b"
  shows "fleetBreakingReason x a = fleetBreakingReason x b"
proof -
  have "stsContainerImage a = stsContainerImage b" "usesFleetDurability a = usesFleetDurability b"
    using assms by (simp_all add: stsContainerImage_def usesFleetDurability_def)
  then show ?thesis by (simp only: fleetBreakingReason_def)
qed

section \<open>Requests\<close>

definition fleet_updates :: "request list \<Rightarrow> StatefulSet set" where
  "fleet_updates rs = {s. Update (KStatefulSet s) \<in> set rs}"

lemma fleet_updates_simps [simp]:
  "fleet_updates [] = {}"
  "fleet_updates (rs @ rs') = fleet_updates rs \<union> fleet_updates rs'"
  "fleet_updates (Update (KStatefulSet s) # rs) = insert s (fleet_updates rs)"
  "fleet_updates (Update (KUnstructured u) # rs) = fleet_updates rs"
  "fleet_updates (Create k # rs) = fleet_updates rs"
  "fleet_updates (Delete k # rs) = fleet_updates rs"
  by (auto simp: fleet_updates_def)

lemma fst_write_then:
  "fst (write_then app upd s k) =
     Update (KStatefulSet s) # (case upd s of Inl _ \<Rightarrow> [] | Inr t \<Rightarrow> fst (k t))"
  by (simp add: write_then_def updateFleet_def split: sum.split)

lemma write_then_updates [simp]:
  "fleet_updates (fst (write_then app upd s k)) =
     insert s (case upd s of Inl _ \<Rightarrow> {} | Inr t \<Rightarrow> fleet_updates (fst (k t)))"
  by (simp add: fst_write_then split: sum.split)

lemma ensureUnstructured_updates [simp]: "fleet_updates (fst (ensureUnstructured P E app d)) = {}"
  by (simp add: ensureUnstructured_def Let_def split: sum.split)

lemma ensureScaledObject_updates [simp]:
  "fleet_updates (fst (ensureScaledObject P E app url phase)) = {}"
  by (simp add: ensureScaledObject_def Let_def case_prod_unfold split: sum.split option.split)

lemma noTargetingHPA_updates [simp]: "fleet_updates (fst (noTargetingHPA app hpas)) = {}"
  by simp

lemma pauseScaling_updates [simp]: "fleet_updates (fst (pauseScaling P E app url)) = {}"
  by (simp add: pauseScaling_def Let_def case_prod_unfold split: sum.split)

section \<open>Gates\<close>

lemma releasedGate_None:
  "releasedGate get base revn ords = Inr None \<longleftrightarrow>
     (\<forall>i \<in> set ords. \<exists>pod. get (ordinal_name base i) = Inr pod \<and> podReady pod \<and>
        gm_index (om_labels (pod_meta pod)) ''controller-revision-hash'' = revn)"
  by (induction ords) (auto simp: Let_def split: sum.splits if_splits)

text \<open>
  What a pass has seen before it releases an ordinal: \<open>sts\<close> is the StatefulSet it decides
  on, \<open>n\<close> the live replicas and \<open>p\<close> the partition.
\<close>

definition release_gates :: "platform \<Rightarrow> rollout_env \<Rightarrow> WorkerApp \<Rightarrow> int \<Rightarrow> int \<Rightarrow> StatefulSet \<Rightarrow> bool" where
  "release_gates P E app n p sts \<longleftrightarrow>
     0 < p \<and> ss_observedGeneration (st_status sts) = om_generation (st_meta sts) \<and>
     (\<forall>d. parseTime (sts_annotation sts settleAnnotation) = Some d \<longrightarrow> d \<le> ro_nowCheck E) \<and>
     ss_updateRevision (st_status sts) \<noteq> [] \<and>
     (\<forall>i. p \<le> i \<and> i < n \<longrightarrow> (\<exists>pod. ro_pod E (ordinal_name (fleetName app) i) = Inr pod \<and> podReady pod \<and>
        gm_index (om_labels (pod_meta pod)) ''controller-revision-hash'' = ss_updateRevision (st_status sts))) \<and>
     sw_err (observeFleet P (ro_obs E) sts) = None \<and> sw_restoring (observeFleet P (ro_obs E) sts) = 0"

definition released :: "rollout_env \<Rightarrow> int \<Rightarrow> StatefulSet \<Rightarrow> StatefulSet" where
  "released E p sts =
     setStsPartition (p - 1) (annotate settleAnnotation (settle_deadline (ro_nowSettle E)) sts)"

lemma released_simps [simp]:
  "stsPartition (released E p sts) = p - 1"
  "st_template (released E p sts) = st_template sts"
  "st_replicas (released E p sts) = st_replicas sts"
  "sts_annotation (released E p sts) settleAnnotation = settle_deadline (ro_nowSettle E)"
  by (simp_all add: released_def gm_index_def map_of_gm_set_same)

lemma rolloutAdvance_requests:
  "fst (rolloutAdvance P E app n p sts) =
     (if release_gates P E app n p sts then [Update (KStatefulSet (released E p sts))] else [])"
proof (cases "rolloutAdvance P E app n p sts = rolloutRelease P E app n p sts \<and> 0 < p \<and>
    ss_observedGeneration (st_status sts) = om_generation (st_meta sts) \<and>
    (\<forall>d. parseTime (sts_annotation sts settleAnnotation) = Some d \<longrightarrow> d \<le> ro_nowCheck E)")
  case True
  then have "fst (rolloutAdvance P E app n p sts) = fst (rolloutRelease P E app n p sts)" by simp
  also have "\<dots> = (if release_gates P E app n p sts then [Update (KStatefulSet (released E p sts))] else [])"
  proof (cases "releasedGate (ro_pod E) (fleetName app) (ss_updateRevision (st_status sts)) [p..n - 1] = Inr None")
    case pass: True
    from pass [unfolded releasedGate_None] True show ?thesis
      by (auto simp: rolloutRelease_def pass Let_def release_gates_def released_def fst_write_then
          split: sum.split)
  next
    case False
    then have "\<not> release_gates P E app n p sts"
      unfolding releasedGate_None release_gates_def by fastforce
    with False show ?thesis
      by (auto simp: rolloutRelease_def Let_def split: sum.split option.split)
  qed
  finally show ?thesis .
next
  case False
  then have "\<not> release_gates P E app n p sts"
    by (auto simp: rolloutAdvance_def Let_def release_gates_def split: option.splits)
  with False show ?thesis
    by (auto simp: rolloutAdvance_def Let_def split: option.splits if_splits)
qed

lemma rolloutStep_requests:
  defines "n \<equiv> \<lambda>sts. deref0 (st_replicas sts)"
  shows "fst (rolloutStep P E app sts) =
     (if n sts < stsPartition sts
      then Update (KStatefulSet (setStsPartition (n sts) sts)) #
        (case ro_update E (setStsPartition (n sts) sts) of
           Inl _ \<Rightarrow> []
         | Inr t \<Rightarrow> if release_gates P E app (n sts) (n sts) t
                    then [Update (KStatefulSet (released E (n sts) t))] else [])
      else if release_gates P E app (n sts) (stsPartition sts) sts
      then [Update (KStatefulSet (released E (stsPartition sts) sts))] else [])"
  by (simp add: rolloutStep_def Let_def n_def fst_write_then rolloutAdvance_requests
      split: sum.split)

section \<open>The scaler is out of the way\<close>

definition hpa_targets :: "WorkerApp \<Rightarrow> hpa \<Rightarrow> bool" where
  "hpa_targets app h \<longleftrightarrow> hpa_targetKind h = ''StatefulSet'' \<and> hpa_targetName h = fleetName app"

text \<open>
  No autoscaler can change the replica count: no HPA of the namespace targets the fleet, and
  the ScaledObject is absent, or (with autoscaling on) is the fleet's own, carries the pause
  annotation and reports \<open>Paused\<close>, or KEDA is not installed.
\<close>

definition scaler_stopped :: "platform \<Rightarrow> pause_env \<Rightarrow> WorkerApp \<Rightarrow> bool" where
  "scaler_stopped P E app \<longleftrightarrow>
     (\<exists>hpas. pe_hpas E = Inr hpas \<and> \<not> (\<exists>h \<in> set hpas. hpa_targets app h)) \<and>
     (case pe_get E of
        Inl e \<Rightarrow> IsNoMatchError e \<or> (\<not> autoscalingEnabled app \<and> IsNotFound e)
      | Inr obj \<Rightarrow> autoscalingEnabled app \<and>
          gm_index (om_annotations (un_meta obj)) kedaPausedAnnotation = annotationTrue \<and>
          pf_IsControlledBy P (un_meta obj) (wa_meta app) \<and>
          (''Paused'', ''True'') \<in> set (un_conditions obj))"

lemma noTargetingHPA_True:
  "snd (noTargetingHPA app hpas) = Inr True \<longleftrightarrow>
     (\<exists>hs. hpas = Inr hs \<and> \<not> (\<exists>h \<in> set hs. hpa_targets app h))"
  by (auto simp: noTargetingHPA_def hpa_targets_def split: sum.split)

lemma pauseScaling_True:
  "snd (pauseScaling P E app url) = Inr True \<longleftrightarrow> scaler_stopped P E app"
  by (cases "pe_get E")
    (auto simp: pauseScaling_def scaler_stopped_def Let_def case_prod_unfold requireOwnership_def
      noTargetingHPA_True)

section \<open>Updates of the StatefulSet in one pass\<close>

lemma requireOwnership_Inr [simp]:
  "requireOwnership P app ty m = Inr () \<longleftrightarrow> pf_IsControlledBy P m (wa_meta app)"
  by (simp add: requireOwnership_def)

definition fleet_stopped :: "rollout_env \<Rightarrow> StatefulSet \<Rightarrow> bool" where
  "fleet_stopped E sts \<longleftrightarrow> deref0 (st_replicas sts) = 0 \<and> ro_oldPods E = Inr [] \<and>
     ss_replicas (st_status sts) \<le> 0 \<and> ss_observedGeneration (st_status sts) = om_generation (st_meta sts)"

text \<open>A stopped fleet is started again with the new template, at partition zero.\<close>

definition restarted :: "WorkerApp \<Rightarrow> StatefulSet \<Rightarrow> StatefulSet \<Rightarrow> StatefulSet" where
  "restarted app existing desired =
     setStsPartition 0
       ((unannotate recreateAnnotation (annotate templateHashAnnotation
            (sts_annotation desired templateHashAnnotation) (existing\<lparr>st_template := st_template desired\<rparr>)))
        \<lparr>st_replicas := Some (desiredReplicas app)\<rparr>)"

lemma recreateStep_requests:
  "fst (recreateStep E app existing desired hazard) =
     (if deref0 (st_replicas existing) \<noteq> 0
      then [Update (KStatefulSet (annotate recreateAnnotation annotationTrue (existing\<lparr>st_replicas := Some 0\<rparr>)))]
      else if fleet_stopped E existing
      then [Update (KStatefulSet (restarted app existing desired))] else [])"
  by (auto simp: recreateStep_def Let_def fst_write_then fleet_stopped_def restarted_def split: sum.split)

lemma steadyFleet_requests:
  "fst (steadyFleet P E app existing version) =
     (if \<not> autoscalingEnabled app \<and> deref0 (st_replicas existing) \<noteq> desiredReplicas app
      then [Update (KStatefulSet (existing\<lparr>st_replicas := Some (desiredReplicas app)\<rparr>))] else [])"
  by (auto simp: steadyFleet_def Let_def fst_write_then split: sum.split option.split)

text \<open>The branch a pass takes once the scaler is stopped and the runtime change is accepted.\<close>

definition fleet_branch ::
  "platform \<Rightarrow> rollout_env \<Rightarrow> WorkerApp \<Rightarrow> StatefulSet \<Rightarrow> StatefulSet \<Rightarrow> string \<Rightarrow> fleetOutcome eff" where
  "fleet_branch P E app existing desired version =
     (if sts_annotation existing recreateAnnotation = annotationTrue
      then recreateStep E app existing desired []
      else if sts_annotation existing templateHashAnnotation \<noteq> sts_annotation desired templateHashAnnotation
      then applyTemplate P E app existing desired
      else if stsPartition existing > 0 then rolloutStep P E app existing
      else steadyFleet P E app existing version)"

lemma driveFleet_alt:
  defines "pause \<equiv> \<lambda>P E app url existing desired.
    if needsPause app existing (sts_annotation existing templateHashAnnotation
         \<noteq> sts_annotation desired templateHashAnnotation)
    then pauseScaling P (ro_pause E) app url else eff_return True"
  shows "driveFleet P E app url existing desired version =
    eff_bind (pause P E app url existing desired) (\<lambda>paused.
      if \<not> paused
      then eff_return (outcome PhaseRollingOut ''waiting for KEDA pause and HPA removal'' (seconds 5))
      else if runtimeChangeRefusal app (stsContainerImage existing) \<noteq> []
      then eff_return (outcome PhaseDegraded (runtimeChangeRefusal app (stsContainerImage existing)) (seconds 60))
      else fleet_branch P E app existing desired version)"
  unfolding driveFleet_def pause_def fleet_branch_def Let_def by (rule refl)

lemma eff_bind_updates:
  "fleet_updates (fst m) = {} \<Longrightarrow>
   fleet_updates (fst (eff_bind m f)) = (case snd m of Inl _ \<Rightarrow> {} | Inr x \<Rightarrow> fleet_updates (fst (f x)))"
  by (simp add: eff_bind_def split: sum.split)

lemma driveFleet_updates:
  assumes "s \<in> fleet_updates (fst (driveFleet P E app url existing desired version))"
  shows "scaler_stopped P (ro_pause E) app"
    and "runtimeChangeRefusal app (stsContainerImage existing) = []"
    and "s \<in> fleet_updates (fst (fleet_branch P E app existing desired version))"
proof -
  define changed where "changed \<longleftrightarrow>
    sts_annotation existing templateHashAnnotation \<noteq> sts_annotation desired templateHashAnnotation"
  define pause where "pause = (if needsPause app existing changed
    then pauseScaling P (ro_pause E) app url else eff_return True)"
  have pause0: "fleet_updates (fst pause) = {}" by (simp add: pause_def)
  note upd = assms [unfolded driveFleet_alt, folded changed_def, folded pause_def,
      unfolded eff_bind_updates [OF pause0]]
  then have ok: "snd pause = Inr True" by (auto split: sum.splits if_splits)
  with upd show r: "runtimeChangeRefusal app (stsContainerImage existing) = []"
    by (auto split: if_splits)
  from upd ok r show b: "s \<in> fleet_updates (fst (fleet_branch P E app existing desired version))" by simp
  have "needsPause app existing changed"
  proof (rule ccontr)
    assume no: "\<not> needsPause app existing changed"
    with b show False
      by (auto simp: fleet_branch_def needsPause_def changed_def steadyFleet_requests)
  qed
  with ok show "scaler_stopped P (ro_pause E) app"
    by (simp add: pause_def pauseScaling_True)
qed

lemma reconcileFleet_update_origin:
  assumes "s \<in> fleet_updates (fst (reconcileFleet P E app url version))"
  obtains existing hash m where "ro_existing E = Inr existing"
    "pf_IsControlledBy P (st_meta existing) (wa_meta app)"
    "s \<in> fleet_updates (fst (driveFleet P E app url existing
       ((buildStatefulSet P app hash version)\<lparr>st_meta := m\<rparr>) version))"
  using assms by (auto simp: reconcileFleet_def Let_def split: sum.splits if_splits)

section \<open>Changes of the template\<close>

lemma podsBreakingReason_Nil:
  "podsBreakingReason P existing desired pods = [] \<longleftrightarrow>
     (\<forall>p \<in> set pods. pf_IsControlledBy P (pod_meta p) (st_meta existing) \<longrightarrow>
        fleetBreakingReason (pod_as_fleet p) desired = [])"
  by (induction pods) (auto simp: Let_def)

lemma liveFleetBreakingReason_Nil:
  "liveFleetBreakingReason P listed existing desired = Inr [] \<longleftrightarrow>
     fleetBreakingReason existing desired = [] \<and>
     (\<exists>pods. listed = Inr pods \<and> podsBreakingReason P existing desired pods = [])"
  by (auto simp: liveFleetBreakingReason_def Let_def split: sum.splits)

definition frozen :: "rollout_env \<Rightarrow> StatefulSet \<Rightarrow> StatefulSet \<Rightarrow> StatefulSet" where
  "frozen E existing desired =
     setStsPartition (deref0 (st_replicas existing))
       (annotate settleAnnotation (settle_deadline (ro_nowStart E))
         (annotate templateHashAnnotation (sts_annotation desired templateHashAnnotation)
           (existing\<lparr>st_template := st_template desired\<rparr>)))"

abbreviation wants_recreate :: "WorkerApp \<Rightarrow> bool" where
  "wants_recreate app \<equiv> cd_updateStrategy (ws_celld (wa_spec app)) = UpdateStrategyRecreate"

lemma applyTemplate_requests:
  "fst (applyTemplate P E app existing desired) =
     (case liveFleetBreakingReason P (ro_livePods E) existing desired of
        Inl _ \<Rightarrow> []
      | Inr breaking \<Rightarrow>
          if wants_recreate app then fst (recreateStep E app existing desired breaking)
          else if breaking \<noteq> [] then [] else [Update (KStatefulSet (frozen E existing desired))])"
  by (simp add: applyTemplate_def Let_def fst_write_then frozen_def split: sum.split)

lemma recreateStep_template:
  assumes "s \<in> fleet_updates (fst (recreateStep E app existing desired hazard))"
    and "st_template s \<noteq> st_template existing"
  shows "fleet_stopped E existing"
  using assms by (auto simp: recreateStep_requests split: if_splits)

lemma rolloutStep_template:
  assumes "s \<in> fleet_updates (fst (rolloutStep P E app sts))"
    and "\<forall>a b. ro_update E a = Inr b \<longrightarrow> st_template b = st_template a"
  shows "st_template s = st_template sts"
  using assms by (auto simp: rolloutStep_requests split: sum.splits if_splits)

section \<open>Convergence\<close>

lemma write_then_rolledOut:
  assumes "snd (write_then app upd s k) = Inr out" "fo_rolledOut out"
  shows "\<exists>t. snd (k t) = Inr out"
  using assms
  by (auto simp: write_then_def updateFleet_def conflictOutcome_def outcome_def split: sum.splits if_splits)

lemma outcome_not_rolledOut [simp]: "\<not> fo_rolledOut (outcome ph w r)"
  by (simp add: outcome_def)

lemma recreateStep_not_rolledOut:
  "snd (recreateStep E app existing desired hazard) = Inr out \<Longrightarrow> \<not> fo_rolledOut out"
  by (auto simp: recreateStep_def Let_def dest!: write_then_rolledOut split: if_splits sum.splits)

lemma rolloutAdvance_not_rolledOut:
  "snd (rolloutAdvance P E app n p sts) = Inr out \<Longrightarrow> \<not> fo_rolledOut out"
  by (auto simp: rolloutAdvance_def rolloutRelease_def Let_def dest!: write_then_rolledOut
      split: if_splits sum.splits option.splits)

lemma rolloutStep_not_rolledOut:
  "snd (rolloutStep P E app sts) = Inr out \<Longrightarrow> \<not> fo_rolledOut out"
  using rolloutAdvance_not_rolledOut
  by (auto simp: rolloutStep_def Let_def dest!: write_then_rolledOut split: if_splits)

lemma applyTemplate_not_rolledOut:
  "snd (applyTemplate P E app existing desired) = Inr out \<Longrightarrow> \<not> fo_rolledOut out"
  using recreateStep_not_rolledOut
  by (auto simp: applyTemplate_def Let_def dest!: write_then_rolledOut split: if_splits sum.splits)

lemma steadyFleet_rolledOut:
  assumes "snd (steadyFleet P E app existing version) = Inr out" "fo_rolledOut out"
  shows "fo_phase out = PhaseReady \<and> sw_err (observeFleet P (ro_obs E) existing) = None \<and>
    sw_restoring (observeFleet P (ro_obs E) existing) = 0 \<and>
    (\<forall>e \<in> set (ro_order E (sw_states (observeFleet P (ro_obs E) existing))). \<not> notConverged version (snd e))"
  using assms
  by (auto simp: steadyFleet_def Let_def outcome_def find_None_all dest!: write_then_rolledOut
      split: if_splits option.splits)

lemma driveFleet_rolledOut:
  assumes "snd (driveFleet P E app url existing desired version) = Inr out" "fo_rolledOut out"
  shows "snd (steadyFleet P E app existing version) = Inr out"
  using assms recreateStep_not_rolledOut applyTemplate_not_rolledOut rolloutStep_not_rolledOut
  by (auto simp: driveFleet_alt fleet_branch_def eff_bind_def split: if_splits sum.splits)

lemma rolledOut_ordinals:
  assumes "snd (reconcileFleet P E app url version) = Inr out" "fo_rolledOut out"
    and "ro_existing E = Inr existing" "obs_ok (ro_obs E)" "\<forall>m. set (ro_order E m) = set m"
    and "name \<in> fleet_members existing"
  shows "fo_phase out = PhaseReady \<and> (\<exists>st d. (name, st) \<in> set (sw_states (observeFleet P (ro_obs E) existing)) \<and>
    po_deployment st = Some d \<and> ds_version d = version \<and> ds_draining d = [] \<and> ds_swapping d = 0)"
proof -
  from assms(1-3) obtain desired where
    "snd (driveFleet P E app url existing desired version) = Inr out"
    by (auto simp: reconcileFleet_def Let_def split: sum.splits if_splits option.splits)
  from driveFleet_rolledOut [OF this assms(2)]
  have st: "snd (steadyFleet P E app existing version) = Inr out" .
  note ok = steadyFleet_rolledOut [OF st assms(2)]
  then have "fst ` set (sw_states (observeFleet P (ro_obs E) existing)) = fleet_members existing"
    using observeFleet_contract(1) [OF assms(4)] by blast
  with assms(6) obtain st where "(name, st) \<in> set (sw_states (observeFleet P (ro_obs E) existing))"
    by force
  with ok assms(5) show ?thesis
    by (force simp: notConverged_def split: option.splits)
qed

section \<open>What the digest does not see\<close>

text \<open>
  Parts are ended by a zero byte, and the value of a Secret may contain zero bytes: a rotation
  that moves a boundary keeps the digest, and with it the template.
\<close>

lemma digest_boundary:
  defines "one \<equiv> [(''a'', ''x'' @ [CHR 0x00] @ ''b'' @ [CHR 0x00] @ ''y'')]" and "two \<equiv> [(''a'', ''x''), (''b'', ''y'')]"
  assumes "get name = Inr secret" "get' name = Inr (secret\<lparr>sec_data := two\<rparr>)" "sec_data secret = one"
  shows "digest_secrets get [name] = digest_secrets get' [name] \<and> secret \<noteq> secret\<lparr>sec_data := two\<rparr>"
proof -
  have "secret \<noteq> secret\<lparr>sec_data := two\<rparr>"
  proof
    assume "secret = secret\<lparr>sec_data := two\<rparr>"
    then have "sec_data secret = sec_data (secret\<lparr>sec_data := two\<rparr>)" by (rule arg_cong)
    with assms(5) show False by (simp add: one_def two_def)
  qed
  with assms(3-5) show ?thesis by (simp add: digest_parts_def one_def two_def)
qed

section \<open>Properties\<close>

text \<open>
  C1. A step of a rolling update writes the StatefulSet in two situations only. It clamps a
  partition above the live replica count down to it, which releases no ordinal; or it
  releases exactly one ordinal, and then every gate has passed in this pass: the StatefulSet
  was observed at its generation, the settle interval is over, every ordinal released before
  runs the update revision and is ready, and the observation of the whole fleet succeeded
  with \<open>restoring = 0\<close>.
\<close>

theorem rolloutStep_releases_one:
  assumes "s \<in> fleet_updates (fst (rolloutStep P E app sts))"
  shows "deref0 (st_replicas sts) < stsPartition sts \<and> s = setStsPartition (deref0 (st_replicas sts)) sts
    \<or> (\<exists>seen p. p = min (stsPartition sts) (deref0 (st_replicas sts)) \<and>
         (seen = sts \<or> ro_update E (setStsPartition p sts) = Inr seen) \<and>
         release_gates P E app (deref0 (st_replicas sts)) p seen \<and>
         stsPartition s = p - 1 \<and> st_template s = st_template seen \<and> st_replicas s = st_replicas seen)"
  using assms
  by (auto simp: rolloutStep_requests min_def split: if_splits sum.splits)

text \<open>
  C13. The gates are the only obstacle: when they pass, the step releases the next ordinal,
  and once the write is accepted it reports the new partition.
\<close>

theorem rolloutStep_progress:
  assumes "stsPartition sts \<le> deref0 (st_replicas sts)"
    and "release_gates P E app (deref0 (st_replicas sts)) (stsPartition sts) sts"
    and "ro_release E (released E (stsPartition sts) sts) = Inr stored"
  shows "fst (rolloutStep P E app sts) = [Update (KStatefulSet (released E (stsPartition sts) sts))] \<and>
    (\<exists>out. snd (rolloutStep P E app sts) = Inr out \<and> fo_phase out = PhaseRollingOut \<and>
       fo_partition out = stsPartition sts - 1)"
proof -
  let ?p = "stsPartition sts" and ?n = "deref0 (st_replicas sts)"
  from assms(2) have gate: "releasedGate (ro_pod E) (fleetName app) (ss_updateRevision (st_status sts))
      [?p..?n - 1] = Inr None"
    by (auto simp: releasedGate_None release_gates_def)
  have "rolloutAdvance P E app ?n ?p sts = rolloutRelease P E app ?n ?p sts"
    using assms(2) by (auto simp: rolloutAdvance_def release_gates_def Let_def split: option.split)
  moreover have "\<exists>out. snd (rolloutRelease P E app ?n ?p sts) = Inr out \<and> fo_phase out = PhaseRollingOut \<and>
      fo_partition out = ?p - 1"
    using assms(2,3) gate
    by (auto simp: rolloutRelease_def release_gates_def Let_def released_def write_then_def
        updateFleet_def outcome_def)
  ultimately show ?thesis
    using assms(1,2) by (simp add: rolloutStep_requests) (simp add: rolloutStep_def Let_def)
qed

text \<open>
  C12. Two releases are at least ten seconds apart, whatever events trigger the passes: a
  pass that decides on a StatefulSet carrying the settle annotation of an earlier release
  releases nothing before ten seconds have gone by since that release. The deadline survives
  its text form. (The clock reads a time from 1970 on and before the last day of 9999.)
\<close>

theorem releases_spaced:
  assumes "0 \<le> ro_nowSettle E" "ro_nowSettle E < seconds (86400 * 2932896)"
    and "stsPartition sts \<le> deref0 (st_replicas sts)" "stsPartition sts' \<le> deref0 (st_replicas sts')"
    and "s \<in> fleet_updates (fst (rolloutStep P E app sts))"
    and "sts_annotation sts' settleAnnotation = sts_annotation s settleAnnotation"
    and "s' \<in> fleet_updates (fst (rolloutStep P E' app sts'))"
  shows "ro_nowSettle E + seconds 10 \<le> ro_nowCheck E'"
proof -
  from assms(3,5) have "s = released E (stsPartition sts) sts"
    by (auto simp: rolloutStep_requests split: if_splits)
  with assms(6) have "sts_annotation sts' settleAnnotation = settle_deadline (ro_nowSettle E)" by simp
  moreover have "parseTime (settle_deadline (ro_nowSettle E)) = Some (ro_nowSettle E + seconds 10)"
    unfolding settle_deadline_def using assms(1,2) by (intro parse_format) simp_all
  ultimately have "parseTime (sts_annotation sts' settleAnnotation) = Some (ro_nowSettle E + seconds 10)"
    by simp
  moreover from assms(4,7) have "release_gates P E' app (deref0 (st_replicas sts')) (stsPartition sts') sts'"
    by (auto simp: rolloutStep_requests split: if_splits)
  ultimately show ?thesis by (simp add: release_gates_def)
qed

text \<open>
  C4. A pass updates the StatefulSet only if it is controlled by this WorkerApp, every
  autoscaler that could change its replica count is out of the way, and the change of the
  celld image is not refused.
\<close>

theorem reconcileFleet_update_guarded:
  assumes "s \<in> fleet_updates (fst (reconcileFleet P E app url version))"
  shows "\<exists>existing. ro_existing E = Inr existing \<and> pf_IsControlledBy P (st_meta existing) (wa_meta app) \<and>
    scaler_stopped P (ro_pause E) app \<and> runtimeChangeRefusal app (stsContainerImage existing) = []"
  using assms by (rule reconcileFleet_update_origin) (use driveFleet_updates(1,2) in blast)

text \<open>
  C2. A pass changes the pod template of an existing fleet in two situations only. Either
  the fleet is frozen (partition equal to the live replicas, which stay as they are), the
  strategy is not Recreate, and neither the old template nor any pod still running conflicts
  with the new template; or the fleet is stopped (no replicas, no pod left, the StatefulSet
  controller has observed it) and Recreate was chosen. (The server stores the template it is
  sent.)
\<close>

theorem template_change_safe:
  assumes "s \<in> fleet_updates (fst (reconcileFleet P E app url version))"
    and "ro_existing E = Inr existing" "st_template s \<noteq> st_template existing"
    and "\<forall>a b. ro_update E a = Inr b \<longrightarrow> st_template b = st_template a"
  shows "stsPartition s = deref0 (st_replicas existing) \<and> st_replicas s = st_replicas existing \<and>
      \<not> wants_recreate app \<and> fleetBreakingReason existing s = [] \<and>
      (\<exists>pods. ro_livePods E = Inr pods \<and> (\<forall>p \<in> set pods.
         pf_IsControlledBy P (pod_meta p) (st_meta existing) \<longrightarrow> fleetBreakingReason (pod_as_fleet p) s = []))
    \<or> fleet_stopped E existing \<and>
      (wants_recreate app \<or> sts_annotation existing recreateAnnotation = annotationTrue)"
proof -
  obtain hash m where "s \<in> fleet_updates (fst (driveFleet P E app url existing
       ((buildStatefulSet P app hash version)\<lparr>st_meta := m\<rparr>) version))"
    using reconcileFleet_update_origin [OF assms(1)] assms(2) by (metis sum.inject(2))
  note b = driveFleet_updates(3) [OF this]
  let ?d = "(buildStatefulSet P app hash version)\<lparr>st_meta := m\<rparr>"
  show ?thesis
  proof (cases "sts_annotation existing recreateAnnotation = annotationTrue")
    case True
    with b recreateStep_template [OF _ assms(3)] show ?thesis by (simp add: fleet_branch_def)
  next
    case False
    have "s \<in> fleet_updates (fst (applyTemplate P E app existing ?d))"
      using b False assms(3) rolloutStep_template [OF _ assms(4)]
      by (auto simp: fleet_branch_def steadyFleet_requests split: if_splits)
    then consider breaking where "wants_recreate app"
        "s \<in> fleet_updates (fst (recreateStep E app existing ?d breaking))"
      | "\<not> wants_recreate app" "liveFleetBreakingReason P (ro_livePods E) existing ?d = Inr []"
        "s = frozen E existing ?d"
      by (auto simp: applyTemplate_requests split: sum.splits if_splits)
    then show ?thesis
    proof cases
      case 1
      with recreateStep_template [OF _ assms(3)] show ?thesis by blast
    next
      case 2
      then have "st_template ?d = st_template s" by (simp add: frozen_def)
      note same = fleetBreakingReason_template [OF this]
      from 2(2) show ?thesis
        unfolding liveFleetBreakingReason_Nil podsBreakingReason_Nil same
        using 2(1,3) by (auto simp: frozen_def)
    qed
  qed
qed

text \<open>
  A pass that reports the fleet as rolled out reports it Ready, and every expected
  ordinal answered with the wanted application version active, no draining deployment and no
  swap in progress. (Ranging over a Go map visits every entry.)
\<close>

lemma rolledOut_serves:
  assumes "snd (reconcileFleet P E app url version) = Inr out" "fo_rolledOut out"
    and "ro_existing E = Inr existing" "obs_ok (ro_obs E)" "\<forall>m. set (ro_order E m) = set m"
    and "name \<in> fleet_members existing"
  shows "fo_phase out = PhaseReady \<and> (\<exists>st d. (name, st) \<in> set (sw_states (observeFleet P (ro_obs E) existing)) \<and>
    po_deployment st = Some d \<and> ds_version d = version \<and> ds_draining d = [] \<and> ds_swapping d = 0)"
  using assms by (rule rolledOut_ordinals)

end
