(* ===== verification/Scenario.thy ===== *)
theory Scenario
  imports Rollout_Safety "HOL-Library.Code_Target_Nat"
begin

text \<open>
  A concrete fleet: the data on which the theorems with hypotheses are applied. Package
  functions outside the repository are replaced by simple executable ones with the
  documented behaviour the theorems rely on.
\<close>

section \<open>External code\<close>

definition demo_dns :: "string \<Rightarrow> bool" where
  "demo_dns s \<longleftrightarrow> s \<noteq> [] \<and> list_all (\<lambda>c. c \<in> set ''abcdefghijklmnopqrstuvwxyz0123456789-.'') s"

text \<open>A condition of the type is replaced where it stands; a new one is appended.\<close>

fun demo_setCondition :: "Condition \<Rightarrow> Condition list \<Rightarrow> Condition list" where
  "demo_setCondition c [] = [c]"
| "demo_setCondition c (x # cs) = (if cn_type x = cn_type c then c # cs else x # demo_setCondition c cs)"

definition demo_platform :: platform where
  "demo_platform =
     \<lparr>pf_IsControlledBy = (\<lambda>obj owner. list_ex (\<lambda>r. or_controller r \<and> or_uid r = om_uid owner) (om_ownerRefs obj)),
      pf_SetControllerReference = (\<lambda>owner obj. Inr (obj\<lparr>om_ownerRefs := [\<lparr>or_uid = om_uid owner, or_controller = True\<rparr>]\<rparr>)),
      pf_IsDNS1123Label = (\<lambda>s. demo_dns s \<and> CHR ''.'' \<notin> set s),
      pf_IsDNS1123Subdomain = demo_dns,
      pf_IsWildcardDNS1123Subdomain = (\<lambda>s. take 2 s = ''*.'' \<and> demo_dns (drop 2 s)),
      pf_marshalTemplate = (\<lambda>t. Some (concat (map snd (pt_annotations t))
         @ concat (map co_image (ps_containers (pt_spec t))))),
      pf_sha256 = (\<lambda>s. s),
      pf_isIPv6Literal = (\<lambda>s. CHR '':'' \<in> set s),
      pf_SetStatusCondition = demo_setCondition,
      pf_RemoveStatusCondition = (\<lambda>ty cs. filter (\<lambda>x. cn_type x \<noteq> ty) cs),
      pf_marshalIdentity = (\<lambda>(uid, bk, ref, suid, rv). join [uid, bk_name bk, bk_endpoint bk, ref, suid, rv] ''|'')\<rparr>"

section \<open>A WorkerApp and its fleet\<close>

definition demo_meta :: "string \<Rightarrow> string \<Rightarrow> smap \<Rightarrow> smap \<Rightarrow> string \<Rightarrow> objmeta" where
  "demo_meta name uid labels annotations owner =
     \<lparr>om_name = name, om_namespace = ''prod'', om_uid = uid, om_resourceVersion = ''7'',
      om_generation = 4, om_labels = labels, om_annotations = annotations,
      om_ownerRefs = (if owner = [] then [] else [\<lparr>or_uid = owner, or_controller = True\<rparr>]),
      om_deleting = False\<rparr>"

definition demo_spec :: WorkerAppSpec where
  "demo_spec =
     \<lparr>ws_deployTrackingSecretRef = [], ws_deploymentPolicy = [], ws_clusterDomain = [],
      ws_storage = Some \<lparr>sg_sizeGi = 20, sg_storageClassName = None\<rparr>,
      ws_scheduling = \<lparr>sc_nodeSelector = [], sc_tolerations = [], sc_spreadAcrossZones = False\<rparr>,
      ws_hostnames = [''shop.example.com''], ws_appVersion = ''v7'',
      ws_celld = \<lparr>cd_image = ''ghcr.io/denoland/celld:v0.5.2'', cd_updateStrategy = ''Rolling''\<rparr>,
      ws_replicas = Some 3,
      ws_bucket = \<lparr>bk_name = ''s3://cells'', bk_endpoint = [], bk_storageAccount = [], bk_region = [],
        bk_credentialsFrom = \<lparr>bc_iamRole = [], bc_secretRef = ''bucket-key'', bc_azureClientID = []\<rparr>\<rparr>,
      ws_resources = \<lparr>rs_cpuMillis = 0, rs_ephemeralStorageGi = 0, rs_memoryGi = 0, rs_maxResidentCells = 0\<rparr>,
      ws_service = \<lparr>sv_type = [], sv_annotations = []\<rparr>,
      ws_vars = None, ws_websockets = False, ws_autoscaling = None,
      ws_telemetry = \<lparr>tl_enabled = None, tl_sink = [], tl_otlpEndpoint = [], tl_retention = []\<rparr>,
      ws_durability = ''fleet'', ws_trustForwardedHeaders = False\<rparr>"

definition demo_status :: WorkerAppStatus where
  "demo_status =
     \<lparr>wst_expectedAppVersion = [], wst_deployments = [], wst_phase = PhaseUnset,
      wst_rolledOutAppVersion = [], wst_rollout = \<lparr>rl_partition = 0, rl_waitingOn = []\<rparr>,
      wst_fleet = \<lparr>fs_ready = 0, fs_restoring = 0\<rparr>, wst_conditions = []\<rparr>"

definition demo_app :: WorkerApp where
  "demo_app = \<lparr>wa_meta = demo_meta ''shop'' ''app-1'' [] [] [], wa_spec = demo_spec, wa_status = demo_status\<rparr>"

definition demo_revision :: string where
  "demo_revision = ''shop-celld-6d''"

definition demo_pod_spec :: "string \<Rightarrow> PodSpec" where
  "demo_pod_spec img =
     zero_PodSpec\<lparr>ps_containers := [\<lparr>co_name = ''celld'', co_image = img, co_args = [],
       co_env = [env_val ''CELLD_DURABILITY'' ''fleet''], co_envFromSecrets = [], co_ports = [],
       co_startupProbe = None, co_readinessProbe = None, co_livenessProbe = None, co_requests = [],
       co_limits = [], co_volumeMounts = [], co_securityContext = None\<rparr>]\<rparr>"

text \<open>The stored fleet: its image, replicas, partition and annotations.\<close>

definition demo_fleet :: "string \<Rightarrow> int \<Rightarrow> int \<Rightarrow> smap \<Rightarrow> StatefulSet" where
  "demo_fleet img replicas part annotations =
     setStsPartition part (zero_StatefulSet\<lparr>
       st_meta := demo_meta ''shop-celld'' ''sts-1'' [] annotations ''app-1'',
       st_replicas := Some replicas,
       st_template := \<lparr>pt_labels = [], pt_annotations = [], pt_spec = demo_pod_spec img\<rparr>,
       st_status := \<lparr>ss_observedGeneration = 4, ss_replicas = replicas, ss_readyReplicas = replicas,
         ss_updatedReplicas = replicas, ss_updateRevision = demo_revision\<rparr>\<rparr>)"

definition demo_pod :: "nat \<Rightarrow> Pod" where
  "demo_pod i =
     \<lparr>pod_meta = demo_meta (ordinal_name ''shop-celld'' (int i)) (''pod-'' @ show_nat i)
        [(''controller-revision-hash'', demo_revision)] [] ''sts-1'',
      pod_spec = demo_pod_spec ''ghcr.io/denoland/celld:v0.5.2'',
      pod_ip = ''10.0.0.'' @ show_nat i, pod_phase = ''Running'',
      pod_conditions = [(''Ready'', ''True'')], pod_containerStatuses = []\<rparr>"

definition demo_state :: PodState where
  "demo_state =
     \<lparr>po_deployment = Some \<lparr>ds_version = ''v7'', ds_generation = 2, ds_draining = [], ds_swapping = 0\<rparr>,
      po_occupied = 10, po_evicting = 0, po_restoring = 0, po_activating = 0,
      po_activationWaiting = 0, po_capacityWaiting = 0, po_shedding = None, po_rssBytes = 1000,
      po_inUseBytes = 900, po_cgroupWorkingSetBytes = None, po_cgroupCurrentBytes = None\<rparr>"

definition demo_pods :: "Pod list" where
  "demo_pods = [demo_pod 0, demo_pod 1, demo_pod 2]"

definition demo_obs :: obs_env where
  "demo_obs = \<lparr>oe_listed = Inr demo_pods, oe_fetch = (\<lambda>_. Inr demo_state), oe_sched = rev\<rparr>"

definition demo_pause :: pause_env where
  "demo_pause =
     \<lparr>pe_get = Inl (NotFound ''scaledobject''),
      pe_scaler = \<lparr>ue_get = Inl (NotFound ''scaledobject''), ue_create = (\<lambda>_. None),
                   ue_update = (\<lambda>_. None), ue_delete = (\<lambda>_. None)\<rparr>,
      pe_hpas = Inr []\<rparr>"

text \<open>All answers of a pass that finds \<open>existing\<close>, at the time \<open>now\<close>.\<close>

definition demo_env :: "StatefulSet \<Rightarrow> int \<Rightarrow> rollout_env" where
  "demo_env existing now =
     \<lparr>ro_secret = (\<lambda>_. Inl (NotFound ''secret'')), ro_existing = Inr existing, ro_create = (\<lambda>_. None),
      ro_pause = demo_pause, ro_livePods = Inr demo_pods, ro_oldPods = Inr demo_pods,
      ro_update = (\<lambda>s. Inr s), ro_release = (\<lambda>s. Inr s),
      ro_pod = (\<lambda>n. case find (\<lambda>p. pod_name p = n) demo_pods of
                      Some p \<Rightarrow> Inr p | None \<Rightarrow> Inl (NotFound n)),
      ro_obs = demo_obs, ro_order = (\<lambda>m. m),
      ro_nowStart = now, ro_nowCheck = now, ro_nowUntil = now, ro_nowSettle = now\<rparr>"

lemma demo_obs_ok: "obs_ok demo_obs"
  by (simp add: obs_ok_def demo_obs_def demo_pods_def)

text \<open>The fingerprint of the template built for version \<open>v7\<close> while the bucket Secret is missing.\<close>

definition demo_hash :: string where
  "demo_hash = ''7637366436393733''"

definition demo_rolling :: StatefulSet where
  "demo_rolling = demo_fleet ''ghcr.io/denoland/celld:v0.5.2'' 3 2
     [(settleAnnotation, ''1970-01-01T00:00:00.00000005Z''), (templateHashAnnotation, demo_hash)]"

abbreviation demo_rolling_env :: rollout_env where
  "demo_rolling_env \<equiv> demo_env demo_rolling 60"

lemma demo_rolling_step:
  "fst (rolloutStep demo_platform demo_rolling_env demo_app demo_rolling) =
     [Update (KStatefulSet (released demo_rolling_env 2 demo_rolling))]"
  by code_simp

lemma demo_rolling_fields [simp]:
  "stsPartition demo_rolling = 2" "st_replicas demo_rolling = Some 3"
  by (simp_all add: demo_rolling_def demo_fleet_def)

end
