(* ===== verification/Rollout_Machine.thy ===== *)
theory Rollout_Machine
  imports Rollout_Safety
begin

text \<open>
  The rollout as an abstract machine, and \<open>reconcileFleet\<close> (\<open>src/internal/controller/rollout.go\<close>)
  as an implementation of it. The machine sees of a StatefulSet only its position: the
  template hash, the recreate mark, the partition and the replica count. Its six moves are
  the promises of the rollout; the simulation shows that the writes of a pass are moves, one
  after the other, towards the goal of that pass. A rank that every move decreases bounds the
  writes of any number of passes with one goal.
\<close>

section \<open>Machines with a rank\<close>

text \<open>
  What termination and progress need of a machine: every step decreases the rank, and the rank
  is zero exactly where the machine has arrived.
\<close>

locale ranked_steps =
  fixes step :: "'s \<Rightarrow> 's \<Rightarrow> bool" and rnk :: "'s \<Rightarrow> nat" and final :: "'s \<Rightarrow> bool"
  assumes step_decreases: "step p q \<Longrightarrow> rnk q < rnk p"
    and zero_final: "rnk p = 0 \<longleftrightarrow> final p"
begin

lemma final_stuck: "final p \<Longrightarrow> \<not> step p q"
  by (metis step_decreases zero_final not_less_zero)

lemma path_decreases: "successively step ps \<Longrightarrow> k < length ps \<Longrightarrow> rnk (ps ! k) + k \<le> rnk (ps ! 0)"
proof (induction k)
  case (Suc k)
  then have "step (ps ! k) (ps ! Suc k)" by (simp add: successively_conv_nth)
  from step_decreases [OF this] Suc show ?case by simp
qed simp

end

section \<open>Positions and goals\<close>

record fleet_position =
  fp_hash :: string
  fp_recreating :: bool
  fp_partition :: int
  fp_replicas :: int

definition position :: "StatefulSet \<Rightarrow> fleet_position" where
  "position sts =
     \<lparr>fp_hash = sts_annotation sts templateHashAnnotation,
      fp_recreating = (sts_annotation sts recreateAnnotation = annotationTrue),
      fp_partition = stsPartition sts, fp_replicas = deref0 (st_replicas sts)\<rparr>"

record rollout_goal =
  gl_hash :: string
  gl_recreate :: bool
  gl_autoscaled :: bool
  gl_replicas :: int

definition goal_for :: "WorkerApp \<Rightarrow> StatefulSet \<Rightarrow> rollout_goal" where
  "goal_for app desired =
     \<lparr>gl_hash = sts_annotation desired templateHashAnnotation, gl_recreate = wants_recreate app,
      gl_autoscaled = autoscalingEnabled app, gl_replicas = desiredReplicas app\<rparr>"

text \<open>What a pass of a WorkerApp drives its fleet to, if it gets that far.\<close>

definition desired_fleet :: "platform \<Rightarrow> rollout_env \<Rightarrow> WorkerApp \<Rightarrow> string \<Rightarrow> StatefulSet option" where
  "desired_fleet P E app version =
     (case configHash P (ro_secret E) app of
        Inl _ \<Rightarrow> None
      | Inr hash \<Rightarrow>
          (let built = buildStatefulSet P app hash version in
           case pf_SetControllerReference P (wa_meta app) (st_meta built) of
             Inl _ \<Rightarrow> None
           | Inr m \<Rightarrow> Some (built\<lparr>st_meta := m\<rparr>)))"

section \<open>The machine\<close>

text \<open>A fleet that has to be stopped before it may change.\<close>

definition must_stop :: "rollout_goal \<Rightarrow> fleet_position \<Rightarrow> bool" where
  "must_stop g p \<longleftrightarrow> fp_recreating p \<or> (fp_hash p \<noteq> gl_hash g \<and> gl_recreate g)"

inductive move :: "rollout_goal \<Rightarrow> fleet_position \<Rightarrow> fleet_position \<Rightarrow> bool" for g where
  freeze: "\<not> must_stop g p \<Longrightarrow> fp_hash p \<noteq> gl_hash g \<Longrightarrow>
     move g p (p\<lparr>fp_hash := gl_hash g, fp_partition := fp_replicas p\<rparr>)"
| stop: "must_stop g p \<Longrightarrow> fp_replicas p \<noteq> 0 \<Longrightarrow> move g p (p\<lparr>fp_replicas := 0, fp_recreating := True\<rparr>)"
| restart: "must_stop g p \<Longrightarrow> fp_replicas p = 0 \<Longrightarrow>
     move g p \<lparr>fp_hash = gl_hash g, fp_recreating = False, fp_partition = 0, fp_replicas = gl_replicas g\<rparr>"
| clamp: "\<not> fp_recreating p \<Longrightarrow> fp_hash p = gl_hash g \<Longrightarrow> 0 < fp_partition p \<Longrightarrow> fp_replicas p < fp_partition p \<Longrightarrow>
     move g p (p\<lparr>fp_partition := fp_replicas p\<rparr>)"
| release: "\<not> fp_recreating p \<Longrightarrow> fp_hash p = gl_hash g \<Longrightarrow> 0 < fp_partition p \<Longrightarrow> fp_partition p \<le> fp_replicas p \<Longrightarrow>
     move g p (p\<lparr>fp_partition := fp_partition p - 1\<rparr>)"
| scale: "\<not> fp_recreating p \<Longrightarrow> fp_hash p = gl_hash g \<Longrightarrow> fp_partition p \<le> 0 \<Longrightarrow> \<not> gl_autoscaled g \<Longrightarrow>
     fp_replicas p \<noteq> gl_replicas g \<Longrightarrow> move g p (p\<lparr>fp_replicas := gl_replicas g\<rparr>)"

text \<open>The goal is reached: nothing is left to release, and the replica count is the wanted one.\<close>

definition arrived :: "rollout_goal \<Rightarrow> fleet_position \<Rightarrow> bool" where
  "arrived g p \<longleftrightarrow> \<not> fp_recreating p \<and> fp_hash p = gl_hash g \<and> fp_partition p \<le> 0 \<and>
     (gl_autoscaled g \<or> fp_replicas p = gl_replicas g)"

text \<open>The number of moves still possible.\<close>

definition rank :: "rollout_goal \<Rightarrow> fleet_position \<Rightarrow> nat" where
  "rank g p =
     (let resize = (if gl_autoscaled g \<or> fp_replicas p = gl_replicas g then 0 else 1) in
      if must_stop g p then (if fp_replicas p = 0 then 1 else 2)
      else if fp_hash p \<noteq> gl_hash g then nat (fp_replicas p) + 1 + resize
      else nat (min (fp_partition p) (fp_replicas p))
           + (if 0 < fp_partition p \<and> fp_replicas p < fp_partition p then 1 else 0) + resize)"

lemma move_rank: "move g p q \<Longrightarrow> rank g q < rank g p"
  by (induction rule: move.induct) (auto simp: rank_def must_stop_def Let_def min_def)

lemma rank_arrived: "rank g p = 0 \<longleftrightarrow> arrived g p"
  by (auto simp: rank_def arrived_def must_stop_def Let_def min_def)

interpretation rm: ranked_steps "move g" "rank g" "arrived g" for g
  by unfold_locales (simp_all add: move_rank rank_arrived)

lemma move_possible: "\<not> arrived g p \<Longrightarrow> \<exists>q. move g p q"
proof -
  assume n: "\<not> arrived g p"
  consider "must_stop g p" | "\<not> must_stop g p" "fp_hash p \<noteq> gl_hash g" | "\<not> fp_recreating p" "fp_hash p = gl_hash g"
    by (auto simp: must_stop_def)
  then show ?thesis
  proof cases
    case 1
    then show ?thesis by (cases "fp_replicas p = 0") (auto intro: move.intros)
  next
    case 3
    with n show ?thesis by (cases "0 < fp_partition p"; cases "fp_partition p \<le> fp_replicas p")
        (auto simp: arrived_def not_le not_less intro: move.intros)
  qed (auto intro: move.intros)
qed

lemma rank_bound: "rank g p \<le> nat (fp_replicas p) + 2"
  by (auto simp: rank_def Let_def min_def)

section \<open>The writes of a pass\<close>

fun fleet_writes :: "request list \<Rightarrow> StatefulSet list" where
  "fleet_writes [] = []"
| "fleet_writes (Update (KStatefulSet s) # rs) = s # fleet_writes rs"
| "fleet_writes (_ # rs) = fleet_writes rs"

lemma fleet_writes_append [simp]: "fleet_writes (rs @ rs') = fleet_writes rs @ fleet_writes rs'"
  by (induction rs rule: fleet_writes.induct) auto

lemma set_fleet_writes: "set (fleet_writes rs) = fleet_updates rs"
  by (induction rs rule: fleet_writes.induct) (auto simp: fleet_updates_def)

lemma fleet_writes_Nil: "fleet_updates rs = {} \<longleftrightarrow> fleet_writes rs = []"
  by (simp flip: set_fleet_writes)

lemma eff_bind_writes:
  assumes "fleet_updates (fst m) = {}"
  shows "fleet_writes (fst (eff_bind m f)) = (case snd m of Inl _ \<Rightarrow> [] | Inr x \<Rightarrow> fleet_writes (fst (f x)))"
  using assms by (simp add: eff_bind_def fleet_writes_Nil split: sum.split)

text \<open>The API server stores what it is sent, as far as a position shows.\<close>

definition stores_position :: "rollout_env \<Rightarrow> bool" where
  "stores_position E \<longleftrightarrow> (\<forall>s t. ro_update E s = Inr t \<longrightarrow> position t = position s)"

lemma map_of_gm_set_other: "j \<noteq> k \<Longrightarrow> map_of (gm_set k v m) j = map_of m j"
  by (induction k v m rule: gm_set.induct) auto

lemmas annotation_names = templateHashAnnotation_def recreateAnnotation_def settleAnnotation_def

lemma position_edits [simp]:
  "position (setStsPartition n s) = (position s)\<lparr>fp_partition := n\<rparr>"
  "position (annotate settleAnnotation v s) = position s"
  "position (annotate templateHashAnnotation v s) = (position s)\<lparr>fp_hash := v\<rparr>"
  "position (annotate recreateAnnotation v s) = (position s)\<lparr>fp_recreating := v = annotationTrue\<rparr>"
  "position (unannotate recreateAnnotation s) = (position s)\<lparr>fp_recreating := False\<rparr>"
  "position (s\<lparr>st_replicas := r\<rparr>) = (position s)\<lparr>fp_replicas := deref0 r\<rparr>"
  "position (s\<lparr>st_template := t\<rparr>) = position s"
  by (simp_all add: position_def gm_index_def map_of_gm_set_other map_of_gm_del)
    (simp_all add: annotation_names annotationTrue_def map_of_gm_set_other)

lemma position_results:
  "position (released E n s) = (position s)\<lparr>fp_partition := n - 1\<rparr>"
  "position (frozen E s d) =
     (position s)\<lparr>fp_hash := sts_annotation d templateHashAnnotation, fp_partition := fp_replicas (position s)\<rparr>"
  "position (restarted app s d) =
     \<lparr>fp_hash = sts_annotation d templateHashAnnotation, fp_recreating = False, fp_partition = 0,
      fp_replicas = desiredReplicas app\<rparr>"
  by (simp_all add: released_def frozen_def restarted_def)
    (simp_all add: position_def)

lemma position_sel:
  "fp_hash (position s) = sts_annotation s templateHashAnnotation"
  "fp_recreating (position s) \<longleftrightarrow> sts_annotation s recreateAnnotation = annotationTrue"
  "fp_partition (position s) = stsPartition s"
  "fp_replicas (position s) = deref0 (st_replicas s)"
  by (simp_all add: position_def)

section \<open>The simulation\<close>

text \<open>A path: every element is one move from its predecessor.\<close>

abbreviation path :: "rollout_goal \<Rightarrow> fleet_position list \<Rightarrow> bool" where
  "path g ps \<equiv> successively (move g) ps"

lemma recreateStep_path:
  assumes "must_stop (goal_for app desired) (position s)"
  shows "path (goal_for app desired) (map position (s # fleet_writes (fst (recreateStep E app s desired hazard))))"
proof (cases "deref0 (st_replicas s) = 0")
  case True
  then have "position (restarted app s desired) =
      \<lparr>fp_hash = gl_hash (goal_for app desired), fp_recreating = False, fp_partition = 0,
       fp_replicas = gl_replicas (goal_for app desired)\<rparr>"
    by (simp add: position_results goal_for_def)
  with True move.restart [OF assms] show ?thesis
    by (simp add: recreateStep_requests position_sel)
next
  case False
  with move.stop [OF assms] show ?thesis by (simp add: recreateStep_requests position_sel)
qed

lemma applyTemplate_path:
  assumes "\<not> fp_recreating (position s)" "fp_hash (position s) \<noteq> gl_hash (goal_for app desired)"
  shows "path (goal_for app desired) (map position (s # fleet_writes (fst (applyTemplate P E app s desired))))"
proof (cases "wants_recreate app")
  case True
  then have "must_stop (goal_for app desired) (position s)"
    using assms by (simp add: must_stop_def goal_for_def)
  from recreateStep_path [OF this] True show ?thesis by (simp add: applyTemplate_requests split: sum.split)
next
  case False
  then have "\<not> must_stop (goal_for app desired) (position s)"
    using assms by (simp add: must_stop_def goal_for_def)
  from move.freeze [OF this assms(2)] False show ?thesis
    by (simp add: applyTemplate_requests position_results goal_for_def split: sum.split)
qed

lemma rolloutStep_path:
  assumes "\<not> fp_recreating (position s)" "fp_hash (position s) = gl_hash g" "0 < fp_partition (position s)"
    and "stores_position E"
  shows "path g (map position (s # fleet_writes (fst (rolloutStep P E app s))))"
proof (cases "deref0 (st_replicas s) < stsPartition s")
  case True
  let ?c = "setStsPartition (deref0 (st_replicas s)) s"
  have c: "move g (position s) (position ?c)"
    using move.clamp [OF assms(1-3)] True by (simp add: position_sel)
  have "move g (position ?c) (position (released E (deref0 (st_replicas s)) t))"
    if "ro_update E ?c = Inr t" "0 < deref0 (st_replicas s)" for t
  proof -
    have "position t = position ?c" using assms(4) that(1) by (simp add: stores_position_def)
    with move.release [of "position t" g] assms(1,2) that(2) show ?thesis
      by (simp add: position_results position_sel)
  qed
  with c True show ?thesis
    by (auto simp: rolloutStep_requests release_gates_def split: sum.split)
next
  case False
  with move.release [OF assms(1-3)] show ?thesis
    by (simp add: rolloutStep_requests position_results position_sel)
qed

lemma steadyFleet_path:
  assumes "\<not> fp_recreating (position s)" "fp_hash (position s) = gl_hash (goal_for app desired)"
    and "fp_partition (position s) \<le> 0"
  shows "path (goal_for app desired) (map position (s # fleet_writes (fst (steadyFleet P E app s version))))"
  using move.scale [OF assms] by (simp add: steadyFleet_requests goal_for_def position_sel)

lemma fleet_branch_path:
  assumes "stores_position E"
  shows "path (goal_for app desired) (map position (s # fleet_writes (fst (fleet_branch P E app s desired version))))"
proof (cases "fp_recreating (position s)")
  case True
  with recreateStep_path [of app desired s E "[]"] show ?thesis
    by (simp add: fleet_branch_def position_sel must_stop_def)
next
  case False
  with applyTemplate_path [of s app desired P E] rolloutStep_path [of s "goal_for app desired" E P app]
    steadyFleet_path [of s app desired P E version] assms
  show ?thesis by (simp add: fleet_branch_def position_sel goal_for_def)
qed

lemma driveFleet_path:
  assumes "stores_position E"
  shows "path (goal_for app desired) (map position (s # fleet_writes (fst (driveFleet P E app url s desired version))))"
proof -
  have "fleet_writes (fst (driveFleet P E app url s desired version)) \<in>
      {[], fleet_writes (fst (fleet_branch P E app s desired version))}"
    unfolding driveFleet_alt by (subst eff_bind_writes) (auto split: sum.split)
  with fleet_branch_path [OF assms, of app desired s P version] show ?thesis by auto
qed

lemma reconcileFleet_drive:
  assumes "ro_existing E = Inr s" "desired_fleet P E app version = Some d"
  shows "fst (reconcileFleet P E app url version) =
    (if pf_IsControlledBy P (st_meta s) (wa_meta app) then fst (driveFleet P E app url s d version) else [])"
  using assms
  by (auto simp: reconcileFleet_def desired_fleet_def requireOwnership_def Let_def split: sum.splits)

lemma reconcileFleet_path:
  assumes "ro_existing E = Inr s" "desired_fleet P E app version = Some d" "stores_position E"
  shows "path (goal_for app d) (map position (s # fleet_writes (fst (reconcileFleet P E app url version))))"
  unfolding reconcileFleet_drive [OF assms(1,2)] using driveFleet_path [OF assms(3)] by force

lemma arrived_quiet:
  assumes "ro_existing E = Inr s" "desired_fleet P E app version = Some d" "stores_position E"
    and "arrived (goal_for app d) (position s)"
  shows "fleet_writes (fst (reconcileFleet P E app url version)) = []"
  using reconcileFleet_path [OF assms(1-3), of url] rm.final_stuck [OF assms(4)]
  by (cases "fleet_writes (fst (reconcileFleet P E app url version))") auto

section \<open>Runs\<close>

text \<open>
  The positions the stored fleet goes through while passes with one goal drive it. A pass
  starts from any StatefulSet with the stored position (its status, revision and other fields
  move freely), and the server accepts any number \<open>k\<close> of its writes, in order; a rejected one
  ends the pass. The third argument counts the accepted writes.
\<close>

inductive rollout_run :: "platform \<Rightarrow> rollout_goal \<Rightarrow> fleet_position \<Rightarrow> nat \<Rightarrow> fleet_position \<Rightarrow> bool"
  for P g p0 where
  start: "rollout_run P g p0 0 p0"
| pass: "rollout_run P g p0 n (position s) \<Longrightarrow> ro_existing E = Inr s \<Longrightarrow>
     desired_fleet P E app version = Some d \<Longrightarrow> goal_for app d = g \<Longrightarrow> stores_position E \<Longrightarrow> ws = fleet_writes (fst (reconcileFleet P E app url version)) \<Longrightarrow> k \<le> length ws \<Longrightarrow>
     rollout_run P g p0 (n + k) (map position (s # ws) ! k)"

lemma run_rank: "rollout_run P g p n q \<Longrightarrow> rank g q + n \<le> rank g p"
proof (induction rule: rollout_run.induct)
  case (pass n s E app version d ws url k)
  have "rank g (map position (s # ws) ! k) + k \<le> rank g (map position (s # ws) ! 0)"
    using reconcileFleet_path [OF pass.hyps(2,3,5), of url] pass.hyps(4,6,7) by (intro rm.path_decreases) simp_all
  with pass.IH show ?case by simp
qed simp

lemma run_arrived:
  assumes "rollout_run P g p n q" "arrived g p"
  shows "n = 0 \<and> arrived g q"
  using run_rank [OF assms(1)] assms(2) by (simp flip: rank_arrived)

section \<open>Progress\<close>

text \<open>
  Nothing in the cluster holds the rollout up in this pass: the fleet belongs to the
  WorkerApp, the scaler is stopped, the change is not refused, and what the next move waits
  for has happened (the old pods are gone, no incompatible pod runs, the gates pass).
\<close>

definition unblocked :: "platform \<Rightarrow> rollout_env \<Rightarrow> WorkerApp \<Rightarrow> StatefulSet \<Rightarrow> StatefulSet \<Rightarrow> bool" where
  "unblocked P E app d s \<longleftrightarrow>
     pf_IsControlledBy P (st_meta s) (wa_meta app) \<and> scaler_stopped P (ro_pause E) app \<and>
     runtimeChangeRefusal app (stsContainerImage s) = [] \<and>
     (fp_recreating (position s) \<or> fp_hash (position s) = gl_hash (goal_for app d) \<or>
        (\<exists>reason. liveFleetBreakingReason P (ro_livePods E) s d = Inr reason \<and> (reason = [] \<or> wants_recreate app))) \<and>
     (must_stop (goal_for app d) (position s) \<and> fp_replicas (position s) = 0 \<longrightarrow> fleet_stopped E s) \<and>
     (\<not> must_stop (goal_for app d) (position s) \<and> fp_hash (position s) = gl_hash (goal_for app d) \<and>
        0 < fp_partition (position s) \<and> fp_partition (position s) \<le> fp_replicas (position s) \<longrightarrow>
        release_gates P E app (fp_replicas (position s)) (fp_partition (position s)) s)"

lemma recreateStep_progress:
  assumes "deref0 (st_replicas s) \<noteq> 0 \<or> fleet_stopped E s"
  shows "fleet_writes (fst (recreateStep E app s d hazard)) \<noteq> []"
  using assms by (auto simp: recreateStep_requests fleet_stopped_def)

lemma fleet_branch_progress:
  assumes "unblocked P E app d s" "\<not> arrived (goal_for app d) (position s)"
  shows "fleet_writes (fst (fleet_branch P E app s d version)) \<noteq> []"
proof -
  let ?g = "goal_for app d"
  consider "must_stop ?g (position s)"
    | "\<not> must_stop ?g (position s)" "fp_hash (position s) \<noteq> gl_hash ?g"
    | "\<not> must_stop ?g (position s)" "fp_hash (position s) = gl_hash ?g" by blast
  then show ?thesis
  proof cases
    case 1
    with assms(1) have "deref0 (st_replicas s) \<noteq> 0 \<or> fleet_stopped E s"
      by (auto simp: unblocked_def position_sel)
    note go = recreateStep_progress [OF this]
    from 1 assms(1) go show ?thesis
      by (auto simp: fleet_branch_def unblocked_def must_stop_def goal_for_def position_sel applyTemplate_requests)
  next
    case 2
    with assms(1) show ?thesis
      by (auto simp: fleet_branch_def unblocked_def must_stop_def goal_for_def position_sel applyTemplate_requests)
  next
    case 3
    with assms show ?thesis
      by (auto simp: fleet_branch_def unblocked_def must_stop_def goal_for_def position_sel arrived_def
          rolloutStep_requests steadyFleet_requests not_le)
  qed
qed

lemma driveFleet_unblocked:
  assumes "scaler_stopped P (ro_pause E) app" "runtimeChangeRefusal app (stsContainerImage s) = []"
  shows "fleet_writes (fst (driveFleet P E app url s d version)) = fleet_writes (fst (fleet_branch P E app s d version))"
  unfolding driveFleet_alt
  by (subst eff_bind_writes) (use assms in \<open>auto simp flip: pauseScaling_True [of P "ro_pause E" app url]\<close>)

lemma reconcileFleet_unblocked:
  assumes "ro_existing E = Inr s" "desired_fleet P E app version = Some d" "unblocked P E app d s"
  shows "fleet_writes (fst (reconcileFleet P E app url version)) = fleet_writes (fst (fleet_branch P E app s d version))"
  using assms(3) driveFleet_unblocked unfolding reconcileFleet_drive [OF assms(1,2)] by (simp add: unblocked_def)

lemma reconcileFleet_progress:
  assumes "ro_existing E = Inr s" "desired_fleet P E app version = Some d" "unblocked P E app d s"
    and "\<not> arrived (goal_for app d) (position s)"
  shows "fleet_writes (fst (reconcileFleet P E app url version)) \<noteq> []"
  using fleet_branch_progress [OF assms(3,4)] unfolding reconcileFleet_unblocked [OF assms(1-3)] .

text \<open>
  A run of passes that nothing holds up, and whose first write (if there is one) is accepted.
  The third argument counts the passes.
\<close>

inductive clear_run :: "platform \<Rightarrow> rollout_goal \<Rightarrow> fleet_position \<Rightarrow> nat \<Rightarrow> fleet_position \<Rightarrow> bool"
  for P g p0 where
  start: "clear_run P g p0 0 p0"
| pass: "clear_run P g p0 n (position s) \<Longrightarrow> ro_existing E = Inr s \<Longrightarrow> desired_fleet P E app version = Some d \<Longrightarrow>
     goal_for app d = g \<Longrightarrow> stores_position E \<Longrightarrow> unblocked P E app d s \<Longrightarrow>
     ws = fleet_writes (fst (reconcileFleet P E app url version)) \<Longrightarrow> k \<le> length ws \<Longrightarrow> (k = 0 \<longrightarrow> ws = []) \<Longrightarrow>
     clear_run P g p0 (Suc n) (map position (s # ws) ! k)"

lemma clear_run_rank: "clear_run P g p n q \<Longrightarrow> rank g q \<le> rank g p - n"
proof (induction rule: clear_run.induct)
  case (pass n s E app version d ws url k)
  have r: "rank g (map position (s # ws) ! k) + k \<le> rank g (map position (s # ws) ! 0)"
    using reconcileFleet_path [OF pass.hyps(2,3,5), of url] pass.hyps(4,7,8) by (intro rm.path_decreases) simp_all
  show ?case
  proof (cases "arrived g (position s)")
    case True
    with r show ?thesis by (simp flip: rank_arrived)
  next
    case False
    with reconcileFleet_progress [OF pass.hyps(2,3,6)] pass.hyps(4,7,9) have "k \<noteq> 0" by blast
    with r pass.IH show ?thesis by simp
  qed
qed simp

section \<open>Properties\<close>

text \<open>
  C3. The rollout is the abstract machine: the StatefulSets a pass sends, in order, lead from
  the stored one by one move each towards the goal of the pass. So the template changes only
  frozen at the live replicas or on a stopped fleet, the partition falls by one ordinal at a
  time, and replicas change only to stop, to restart, or in the steady state. (The server
  stores the hash, mark, partition and replicas it is sent.)
\<close>

theorem reconcileFleet_refines:
  assumes "ro_existing E = Inr s" "desired_fleet P E app version = Some d" "stores_position E"
  shows "successively (move (goal_for app d))
    (map position (s # fleet_writes (fst (reconcileFleet P E app url version))))"
  using assms by (rule reconcileFleet_path)

text \<open>
  C5. The operator comes to rest: passes with one goal, however many and whatever else
  happens to the StatefulSet's status, have at most two accepted writes more than the fleet
  has replicas, and none once the goal is reached.
\<close>

theorem rollout_terminates:
  assumes "rollout_run P g (position s) n q"
  shows "n \<le> nat (deref0 (st_replicas s)) + 2 \<and> (arrived g (position s) \<longrightarrow> n = 0 \<and> arrived g q)"
  using run_rank [OF assms] rank_bound [of g "position s"] run_arrived [OF assms] by (auto simp: position_sel)


end
