(* ===== verification/Rollout_Witnesses.thy ===== *)
theory Rollout_Witnesses
  imports Scenario Rollout_Machine
begin

text \<open>
  The theorems of \<open>Fleet_State\<close> and \<open>Rollout_Safety\<close> on the concrete fleet of \<open>Scenario\<close>.
\<close>

section \<open>Sweeps and observations\<close>

lemma demo_pods_distinct: "distinct (map pod_name demo_pods)"
  by code_simp

theorem FleetSweep_order_independent_witness:
  "sw_states (FleetSweep (oe_fetch demo_obs) demo_pods) = sw_states (FleetSweep (oe_fetch demo_obs) (rev demo_pods))"
  using FleetSweep_order_independent [of demo_pods "rev demo_pods" "oe_fetch demo_obs"] demo_pods_distinct
  by simp

section \<open>The rollout\<close>

lemma demo_rolling_released:
  "released demo_rolling_env 2 demo_rolling
     \<in> fleet_updates (fst (rolloutStep demo_platform demo_rolling_env demo_app demo_rolling))"
  by (simp add: demo_rolling_step)

lemma demo_rolling_gates: "release_gates demo_platform demo_rolling_env demo_app 3 2 demo_rolling"
  using demo_rolling_released by (simp add: rolloutStep_requests split: if_splits)

theorem rolloutStep_releases_one_witness:
  "stsPartition (released demo_rolling_env 2 demo_rolling) =
     min (stsPartition demo_rolling) (deref0 (st_replicas demo_rolling)) - 1"
  using rolloutStep_releases_one [OF demo_rolling_released] by auto

theorem rolloutStep_progress_witness:
  "\<exists>out. snd (rolloutStep demo_platform demo_rolling_env demo_app demo_rolling) = Inr out \<and>
     fo_phase out = PhaseRollingOut \<and> fo_partition out = 1"
  using rolloutStep_progress [of demo_rolling demo_platform demo_rolling_env demo_app
      "released demo_rolling_env 2 demo_rolling"] demo_rolling_gates
  by (simp add: demo_env_def)

text \<open>The fleet after the release, observed again; and a pass eleven seconds later.\<close>

definition demo_next :: StatefulSet where
  "demo_next = released demo_rolling_env 2 demo_rolling"

abbreviation demo_next_env :: rollout_env where
  "demo_next_env \<equiv> demo_env demo_next 11000000060"

lemma demo_next_step:
  "fst (rolloutStep demo_platform demo_next_env demo_app demo_next) =
     [Update (KStatefulSet (released demo_next_env 1 demo_next))]"
  by code_simp

theorem releases_spaced_witness:
  "ro_nowSettle demo_rolling_env + seconds 10 \<le> ro_nowCheck demo_next_env"
proof (rule releases_spaced [OF _ _ _ _ demo_rolling_released])
  show "released demo_next_env 1 demo_next
      \<in> fleet_updates (fst (rolloutStep demo_platform demo_next_env demo_app demo_next))"
    by (simp add: demo_next_step)
qed (simp_all add: demo_next_def demo_env_def)

section \<open>Whole passes\<close>

lemma demo_pass:
  "fst (reconcileFleet demo_platform demo_rolling_env demo_app [] ''v7'') =
     [Update (KStatefulSet (released demo_rolling_env 2 demo_rolling))]"
  by code_simp

theorem reconcileFleet_update_guarded_witness:
  "scaler_stopped demo_platform (ro_pause demo_rolling_env) demo_app"
  using reconcileFleet_update_guarded [of "released demo_rolling_env 2 demo_rolling"
      demo_platform demo_rolling_env demo_app "[]" "''v7''"]
  by (auto simp: demo_pass)

text \<open>A fleet on an older patch release: the pass starts a rolling update.\<close>

definition demo_old :: StatefulSet where
  "demo_old = demo_fleet ''ghcr.io/denoland/celld:v0.5.1'' 3 0 [(templateHashAnnotation, ''old'')]"

fun single_update :: "request list \<Rightarrow> StatefulSet option" where
  "single_update [Update (KStatefulSet s)] = Some s"
| "single_update _ = None"

lemma single_update_Some: "single_update rs = Some s \<longleftrightarrow> rs = [Update (KStatefulSet s)]"
  by (cases rs rule: single_update.cases) auto

lemma demo_start_pass:
  "map_option (\<lambda>s. pt_labels (st_template s) \<noteq> [])
     (single_update (fst (reconcileFleet demo_platform (demo_env demo_old 60) demo_app [] ''v7''))) = Some True"
  by code_simp

theorem template_change_safe_witness:
  "\<exists>s. s \<in> fleet_updates (fst (reconcileFleet demo_platform (demo_env demo_old 60) demo_app [] ''v7'')) \<and>
     stsPartition s = 3"
proof -
  obtain s where s: "fst (reconcileFleet demo_platform (demo_env demo_old 60) demo_app [] ''v7'') =
      [Update (KStatefulSet s)]" "pt_labels (st_template s) \<noteq> []"
    using demo_start_pass by (auto simp: single_update_Some)
  then have "st_template s \<noteq> st_template demo_old" by (auto simp: demo_old_def demo_fleet_def)
  with s have "stsPartition s = 3"
    using template_change_safe [of s demo_platform "demo_env demo_old 60" demo_app "[]" "''v7''" demo_old]
    by simp (simp add: demo_env_def demo_old_def demo_fleet_def fleet_stopped_def)
  with s show ?thesis by simp
qed

section \<open>The rollout as a machine\<close>

text \<open>What the passes over the fleet drive it to.\<close>

lemma demo_desired_same:
  "desired_fleet demo_platform (demo_env s now) demo_app ''v7'' =
     desired_fleet demo_platform demo_rolling_env demo_app ''v7''"
  by (simp add: desired_fleet_def demo_env_def)

lemma demo_desired_hash:
  "map_option (goal_for demo_app) (desired_fleet demo_platform demo_rolling_env demo_app ''v7'') =
     Some \<lparr>gl_hash = demo_hash, gl_recreate = False, gl_autoscaled = False, gl_replicas = 3\<rparr>"
  by code_simp

definition demo_goal :: rollout_goal where
  "demo_goal = \<lparr>gl_hash = demo_hash, gl_recreate = False, gl_autoscaled = False, gl_replicas = 3\<rparr>"

lemma demo_desired:
  "\<exists>d. (\<forall>s now. desired_fleet demo_platform (demo_env s now) demo_app ''v7'' = Some d) \<and> goal_for demo_app d = demo_goal"
  using demo_desired_hash demo_desired_same unfolding demo_goal_def by auto

lemma demo_stores: "stores_position (demo_env s now)"
  by (simp add: stores_position_def demo_env_def)

lemma demo_positions:
  "position demo_rolling = \<lparr>fp_hash = demo_hash, fp_recreating = False, fp_partition = 2, fp_replicas = 3\<rparr>"
  by code_simp

theorem reconcileFleet_refines_witness:
  "move demo_goal (position demo_rolling) (position (released demo_rolling_env 2 demo_rolling))"
proof -
  obtain d where d: "\<And>s now. desired_fleet demo_platform (demo_env s now) demo_app ''v7'' = Some d"
    "goal_for demo_app d = demo_goal" using demo_desired by blast
  have "ro_existing demo_rolling_env = Inr demo_rolling" by (simp add: demo_env_def)
  from reconcileFleet_refines [OF this d(1) demo_stores, of "[]"] show ?thesis
    by (simp add: demo_pass d(2))
qed

theorem rollout_terminates_witness:
  "rollout_run demo_platform demo_goal (position demo_rolling) 1 (position (released demo_rolling_env 2 demo_rolling)) \<and>
     (1::nat) \<le> nat (deref0 (st_replicas demo_rolling)) + 2"
proof -
  obtain d where d: "\<And>s now. desired_fleet demo_platform (demo_env s now) demo_app ''v7'' = Some d"
    "goal_for demo_app d = demo_goal" using demo_desired by blast
  have "ro_existing demo_rolling_env = Inr demo_rolling" by (simp add: demo_env_def)
  from rollout_run.pass [OF rollout_run.start this d(1,2) demo_stores refl, of 1 "[]"]
  have run: "rollout_run demo_platform demo_goal (position demo_rolling) 1 (position (released demo_rolling_env 2 demo_rolling))"
    by (simp add: demo_pass)
  with rollout_terminates [OF run] show ?thesis by blast
qed

text \<open>Five passes: two release an ordinal each, three find the goal reached.\<close>

lemma demo_next_gates: "release_gates demo_platform demo_next_env demo_app 3 1 demo_next"
proof -
  have "stsPartition demo_next = 1" "st_replicas demo_next = Some 3" by (simp_all add: demo_next_def)
  then show ?thesis using demo_next_step by (simp add: rolloutStep_requests split: if_splits)
qed

lemma demo_common:
  assumes "st_meta s = m" "om_ownerRefs m = [\<lparr>or_uid = ''app-1'', or_controller = True\<rparr>]"
    and "st_template s = st_template demo_rolling"
  shows "pf_IsControlledBy demo_platform (st_meta s) (wa_meta demo_app)"
    "scaler_stopped demo_platform (ro_pause (demo_env s now)) demo_app"
    "runtimeChangeRefusal demo_app (stsContainerImage s) = []"
proof -
  show "pf_IsControlledBy demo_platform (st_meta s) (wa_meta demo_app)"
    using assms(1,2) by (simp add: demo_platform_def demo_app_def demo_meta_def)
  have "snd (pauseScaling demo_platform demo_pause demo_app []) = Inr True" by code_simp
  then show "scaler_stopped demo_platform (ro_pause (demo_env s now)) demo_app"
    by (simp add: pauseScaling_True demo_env_def)
  have "runtimeChangeRefusal demo_app (stsContainerImage demo_rolling) = []" by code_simp
  then show "runtimeChangeRefusal demo_app (stsContainerImage s) = []"
    using assms(3) by (simp add: stsContainerImage_def)
qed

definition demo_done :: StatefulSet where
  "demo_done = released demo_next_env 1 demo_next"

lemma demo_path:
  "position demo_next = \<lparr>fp_hash = demo_hash, fp_recreating = False, fp_partition = 1, fp_replicas = 3\<rparr>"
  "position demo_done = \<lparr>fp_hash = demo_hash, fp_recreating = False, fp_partition = 0, fp_replicas = 3\<rparr>"
  by (simp_all add: demo_done_def demo_next_def position_results demo_positions)

lemma demo_unblocked:
  assumes "s \<in> {demo_rolling, demo_next, demo_done}" "goal_for demo_app d = demo_goal"
    and "0 < stsPartition s \<longrightarrow> release_gates demo_platform (demo_env s now) demo_app 3 (stsPartition s) s"
  shows "unblocked demo_platform (demo_env s now) demo_app d s"
proof -
  have "om_ownerRefs (st_meta s) = [\<lparr>or_uid = ''app-1'', or_controller = True\<rparr>]" "st_template s = st_template demo_rolling"
    using assms(1)
    by (auto simp: demo_done_def demo_next_def released_def annotate_def demo_rolling_def demo_fleet_def demo_meta_def)
  note common = demo_common [OF refl this]
  have "fp_hash (position s) = demo_hash" "\<not> fp_recreating (position s)" "fp_replicas (position s) = 3"
    using assms(1) by (auto simp: demo_path demo_positions)
  with common assms(2,3) show ?thesis
    by (simp add: unblocked_def must_stop_def demo_goal_def position_sel)
qed

lemma demo_idle:
  assumes "goal_for demo_app d = demo_goal" "\<And>s now. desired_fleet demo_platform (demo_env s now) demo_app ''v7'' = Some d"
    and "clear_run demo_platform demo_goal p n (position demo_done)"
  shows "clear_run demo_platform demo_goal p (Suc n) (position demo_done)"
proof -
  let ?E = "demo_env demo_done 30000000000"
  have e: "ro_existing ?E = Inr demo_done" by (simp add: demo_env_def)
  have "fp_partition (position demo_done) = 0" by (simp add: demo_path)
  then have u: "unblocked demo_platform ?E demo_app d demo_done"
    using assms(1) by (intro demo_unblocked) (simp_all add: position_sel)
  have "arrived (goal_for demo_app d) (position demo_done)"
    by (simp add: assms(1) arrived_def demo_path demo_goal_def)
  note none = arrived_quiet [OF e assms(2) demo_stores this, of "[]"]
  from clear_run.pass [OF assms(3) e assms(2,1) demo_stores u refl, of 0 "[]"] none show ?thesis by simp
qed


end
