(* ===== verification/Go_Url.thy ===== *)
theory Go_Url
  imports Api_Types
begin

text \<open>
  What the operator uses of package \<open>net/url\<close>: \<open>url.Parse\<close> with the fields \<open>Scheme\<close>, \<open>User\<close>,
  \<open>Host\<close>, \<open>RawQuery\<close> and \<open>Fragment\<close>, and the method \<open>Hostname\<close>. An error is \<open>None\<close>. The syntax of
  an address between brackets is package \<open>net/netip\<close> (a parameter).
\<close>

section \<open>Characters\<close>

abbreviation code :: "char \<Rightarrow> nat" where
  "code c \<equiv> of_char c"

definition is_letter :: "char \<Rightarrow> bool" where
  "is_letter c \<longleftrightarrow> (0x41 \<le> code c \<and> code c \<le> 0x5A) \<or> (0x61 \<le> code c \<and> code c \<le> 0x7A)"

definition alnum :: "char \<Rightarrow> bool" where
  "alnum c \<longleftrightarrow> is_letter c \<or> is_digit c"

definition is_hex :: "char \<Rightarrow> bool" where
  "is_hex c \<longleftrightarrow> c \<in> set ''0123456789abcdefABCDEF''"

definition unhex :: "char \<Rightarrow> nat" where
  "unhex c = (if is_digit c then code c - 0x30
              else if 0x61 \<le> code c then code c - 0x61 + 10 else code c - 0x41 + 10)"

definition to_lower :: "char \<Rightarrow> char" where
  "to_lower c = (if 0x41 \<le> code c \<and> code c \<le> 0x5A then char_of (code c + 32) else c)"

text \<open>\<open>shouldEscape\<close> in the modes \<open>encodeHost\<close> and \<open>encodeZone\<close>.\<close>

definition host_escape :: "char \<Rightarrow> bool" where
  "host_escape c \<longleftrightarrow> \<not> (alnum c \<or> c \<in> set ''!$&()*+,;=:[]<>-_.~'' \<or> c = CHR 0x27 \<or> c = CHR 0x22)"

section \<open>Unescaping\<close>

datatype escape_mode = EncodeHost | EncodeZone | EncodeOther

fun unescape :: "escape_mode \<Rightarrow> string \<Rightarrow> string option" where
  "unescape mode [] = Some []"
| "unescape mode (c # s) =
     (if c = CHR ''%'' then
        (case s of
           a # b # r \<Rightarrow>
             if \<not> is_hex a \<or> \<not> is_hex b then None
             else
               let v = unhex a * 16 + unhex b; literal = (a = CHR ''2'' \<and> b = CHR ''5'') in
               if mode = EncodeHost \<and> unhex a < 8 \<and> \<not> literal then None
               else if mode = EncodeZone \<and> \<not> literal \<and> v \<noteq> 0x20 \<and> host_escape (char_of v) then None
               else map_option (\<lambda>t. char_of v # t) (unescape mode r)
         | _ \<Rightarrow> None)
      else if mode \<noteq> EncodeOther \<and> code c < 0x80 \<and> host_escape c then None
      else map_option (\<lambda>t. c # t) (unescape mode s))"

section \<open>Parsing\<close>

record URL =
  u_scheme :: string
  u_user :: bool
  u_host :: string
  u_rawQuery :: string
  u_fragment :: string

text \<open>The longest prefix of scheme characters, and what stops it.\<close>

definition getScheme :: "string \<Rightarrow> (string \<times> string) option" where
  "getScheme s =
     (let scheme = takeWhile (\<lambda>c. alnum c \<or> c \<in> set ''+-.'') s;
          rest = dropWhile (\<lambda>c. alnum c \<or> c \<in> set ''+-.'') s
      in if take 1 rest \<noteq> '':'' then Some ([], s)
         else if scheme = [] then None
         else if \<not> is_letter (hd scheme) then Some ([], s)
         else Some (scheme, drop 1 rest))"

definition validOptionalPort :: "string \<Rightarrow> bool" where
  "validOptionalPort port \<longleftrightarrow> port = [] \<or> (take 1 port = '':'' \<and> list_all is_digit (drop 1 port))"

text \<open>\<open>strings.Index(s, "%25")\<close>: the text before the first occurrence and from it on.\<close>

fun split_zone :: "string \<Rightarrow> (string \<times> string) option" where
  "split_zone [] = None"
| "split_zone (c # s) =
     (if take 3 (c # s) = ''%25'' then Some ([], c # s)
      else map_option (\<lambda>(a, b). (c # a, b)) (split_zone s))"

definition from_last :: "string \<Rightarrow> char \<Rightarrow> string" where
  "from_last s c = drop (nat (lastIndex s c)) s"

text \<open>Outside brackets the first colon starts the port (the rule since Go 1.26).\<close>

definition parseHost :: "platform \<Rightarrow> string \<Rightarrow> string option" where
  "parseHost P host =
     (let open = lastIndex host (CHR ''[''); close = lastIndex host (CHR '']'') in
      if open \<noteq> - 1 then
        (if close < 0 then None
         else
           let colonPort = drop (nat (close + 1)) host;
               hostname = drop (nat (open + 1)) (take (nat close) host)
           in if \<not> validOptionalPort colonPort then None
              else
                Option.bind (unescape EncodeHost colonPort) (\<lambda>port.
                Option.bind (case split_zone hostname of
                               Some (a, b) \<Rightarrow> Option.bind (unescape EncodeHost a) (\<lambda>x.
                                             Option.bind (unescape EncodeZone b) (\<lambda>y. Some (x @ y)))
                             | None \<Rightarrow> unescape EncodeHost hostname) (\<lambda>name.
                if \<not> pf_isIPv6Literal P name then None else Some (''['' @ name @ '']'' @ port))))
      else if \<not> validOptionalPort (dropWhile (\<lambda>c. c \<noteq> CHR '':'') host) then None
      else unescape EncodeHost host)"

definition validUserinfo :: "string \<Rightarrow> bool" where
  "validUserinfo s \<longleftrightarrow> list_all (\<lambda>c. alnum c \<or> c \<in> set ''-._:~!$&()*+,;=%@'' \<or> c = CHR 0x27) s"

text \<open>User information present, and the host.\<close>

definition parseAuthority :: "platform \<Rightarrow> string \<Rightarrow> (bool \<times> string) option" where
  "parseAuthority P authority =
     (let i = lastIndex authority (CHR ''@'') in
      if i < 0 then map_option (\<lambda>h. (False, h)) (parseHost P authority)
      else
        let userinfo = take (nat i) authority; (username, password, _) = cut userinfo (CHR '':'') in
        Option.bind (parseHost P (drop (nat (i + 1)) authority)) (\<lambda>h.
          if \<not> validUserinfo userinfo then None
          else Option.bind (unescape EncodeOther username) (\<lambda>_.
               Option.bind (unescape EncodeOther password) (\<lambda>_. Some (True, h)))))"

definition control_byte :: "char \<Rightarrow> bool" where
  "control_byte c \<longleftrightarrow> code c < 0x20 \<or> code c = 0x7F"

definition url_parse_body :: "platform \<Rightarrow> string \<Rightarrow> URL option" where
  "url_parse_body P raw =
     (if list_ex control_byte raw then None
      else if raw = ''*''
      then Some \<lparr>u_scheme = [], u_user = False, u_host = [], u_rawQuery = [], u_fragment = []\<rparr>
      else
        Option.bind (getScheme raw) (\<lambda>(scheme0, rest0).
          let scheme = map to_lower scheme0;
              (rest, query, _) = cut rest0 (CHR ''?'');
              u = \<lparr>u_scheme = scheme, u_user = False, u_host = [], u_rawQuery = query, u_fragment = []\<rparr>
          in if \<not> hasPrefix rest ''/'' then
               (if scheme \<noteq> [] then Some u
                else if CHR '':'' \<in> set (fst (cut rest (CHR ''/''))) then None
                else map_option (\<lambda>_. u) (unescape EncodeOther rest))
             else if (scheme \<noteq> [] \<or> \<not> hasPrefix rest ''///'') \<and> hasPrefix rest ''//'' then
               let authority = takeWhile (\<lambda>c. c \<noteq> CHR ''/'') (drop 2 rest);
                   path = dropWhile (\<lambda>c. c \<noteq> CHR ''/'') (drop 2 rest)
               in Option.bind (parseAuthority P authority) (\<lambda>(user, host).
                    map_option (\<lambda>_. u\<lparr>u_user := user, u_host := host\<rparr>) (unescape EncodeOther path))
             else map_option (\<lambda>_. u) (unescape EncodeOther rest)))"

definition url_parse :: "platform \<Rightarrow> string \<Rightarrow> URL option" where
  "url_parse P raw =
     (let (u, frag, _) = cut raw (CHR ''#'') in
      Option.bind (url_parse_body P u) (\<lambda>url.
        if frag = [] then Some url
        else map_option (\<lambda>f. url\<lparr>u_fragment := f\<rparr>) (unescape EncodeOther frag)))"

text \<open>The method \<open>Hostname\<close>: the host without its port and brackets.\<close>

definition hostname :: "URL \<Rightarrow> string" where
  "hostname url =
     (let host = u_host url;
          h = (if lastIndex host (CHR '':'') \<noteq> - 1 \<and> validOptionalPort (from_last host (CHR '':''))
               then take (nat (lastIndex host (CHR '':''))) host else host)
      in if hasPrefix h ''['' \<and> hasSuffix h '']'' then take (length h - 2) (drop 1 h) else h)"

end
