(* ===== verification/App_Validation.thy ===== *)
theory App_Validation
  imports Fleet_Objects Fleet_State Go_Url
begin

text \<open>
  The validation a WorkerApp passes before any child is written
  (\<open>src/internal/controller/validation.go\<close>): \<open>validateApp\<close>, \<open>validateTrust\<close>, \<open>validateVars\<close> and the
  regular expression \<open>runtimeImageTag\<close> as a matcher. The four allowlists of the reconciler are
  a record.
\<close>

section \<open>The image tag\<close>

definition AppVersionAuto :: string where
  "AppVersionAuto = ''auto''"

text \<open>\<open>[0-9]+\<close> at the front; digits are matched greedily, and what follows is never a digit.\<close>

definition eat_digits :: "string \<Rightarrow> string option" where
  "eat_digits s = (if takeWhile is_digit s = [] then None else Some (dropWhile is_digit s))"

definition eat_dot :: "string \<Rightarrow> string option" where
  "eat_dot s = (if take 1 s = ''.'' then Some (drop 1 s) else None)"

definition suffix_char :: "char \<Rightarrow> bool" where
  "suffix_char c \<longleftrightarrow> alnum c \<or> c = CHR ''.'' \<or> c = CHR ''-''"

definition tag_suffix :: "string \<Rightarrow> bool" where
  "tag_suffix s \<longleftrightarrow> (case s of [] \<Rightarrow> True
     | c # r \<Rightarrow> c \<in> set ''-.+'' \<and> r \<noteq> [] \<and> list_all suffix_char r)"

definition runtimeImageTag :: "string \<Rightarrow> bool" where
  "runtimeImageTag tag =
     (case Option.bind (eat_digits (trimPrefix tag ''v'')) (\<lambda>s1.
           Option.bind (eat_dot s1) (\<lambda>s2.
           Option.bind (eat_digits s2) (\<lambda>s3.
           Option.bind (eat_dot s3) eat_digits))) of
        Some rest \<Rightarrow> tag_suffix rest
      | None \<Rightarrow> False)"

text \<open>
  \<open>image[strings.LastIndex(image, "/")+1:]\<close> of the reference without its digest, cut at the
  first colon: the tag, if there is one.
\<close>

definition image_tag :: "string \<Rightarrow> string option" where
  "image_tag ref =
     (let img = fst (cut ref (CHR ''@''));
          (_, tag, tagged) = cut (drop (nat (lastIndex img (CHR ''/'') + 1)) img) (CHR '':'')
      in if tagged then Some tag else None)"

section \<open>Validation\<close>

record trust_policy =
  tp_allowedImagePrefixes :: "string list"
  tp_allowedIAMRoles :: "string list"
  tp_allowedAzureClientIDs :: "string list"
  tp_allowedBucketEndpoints :: "string list"

definition trackableBucket :: "WorkerApp \<Rightarrow> bool" where
  "trackableBucket app \<longleftrightarrow> hasPrefix (bk_name (ws_bucket (wa_spec app))) ''s3://''"

definition validateVars :: "platform \<Rightarrow> WorkerApp \<Rightarrow> unit result" where
  "validateVars P app =
     (case ws_vars (wa_spec app) of
        None \<Rightarrow> Inr ()
      | Some v \<Rightarrow>
          if va_secretRef v = [] \<or> \<not> pf_IsDNS1123Subdomain P (va_secretRef v)
          then Inl (OtherError ''vars.secretRef is required and must be a Secret name'')
          else if (case minorOf (app_image app) of None \<Rightarrow> False | Some mv \<Rightarrow> mv_cmp mv (mk_version 0 5) \<ge> 0)
          then Inl (OtherError (''vars.secretRef is unsupported by celld v0.5+; move vars into the deployment''
                      @ CHR 0x27 # ''s Wrangler configuration and remove spec.vars''))
          else Inr ())"

definition endpoint_allowed :: "platform \<Rightarrow> trust_policy \<Rightarrow> string \<Rightarrow> bool" where
  "endpoint_allowed P T endpoint =
     (case url_parse P endpoint of
        None \<Rightarrow> False
      | Some u \<Rightarrow> u_scheme u = ''https'' \<and> hostname u \<noteq> [] \<and> \<not> u_user u \<and> u_rawQuery u = []
                  \<and> u_fragment u = [] \<and> endpoint \<in> set (tp_allowedBucketEndpoints T))"

definition validateTrust :: "platform \<Rightarrow> trust_policy \<Rightarrow> WorkerApp \<Rightarrow> unit result" where
  "validateTrust P T app =
     (let prefixes = (if tp_allowedImagePrefixes T = [] then [''ghcr.io/denoland/celld:'']
                      else tp_allowedImagePrefixes T);
          creds = app_credentials app;
          endpoint = bk_endpoint (ws_bucket (wa_spec app))
      in
      if \<not> list_ex (hasPrefix (app_image app)) prefixes
      then Inl (OtherError ''celld image is not in the operator image allowlist'')
      else if length (filter (\<lambda>v. v \<noteq> []) [bc_iamRole creds, bc_secretRef creds, bc_azureClientID creds]) > 1
      then Inl (OtherError ''select only one bucket credential family'')
      else if bc_iamRole creds \<noteq> [] \<and> bc_iamRole creds \<noteq> iamRoleAuto
              \<and> bc_iamRole creds \<notin> set (tp_allowedIAMRoles T)
      then Inl (OtherError ''IAM role is not in the operator allowlist'')
      else if bc_azureClientID creds \<noteq> [] \<and> bc_azureClientID creds \<notin> set (tp_allowedAzureClientIDs T)
      then Inl (OtherError ''azure identity is not in the operator allowlist'')
      else if endpoint \<noteq> [] \<and> \<not> endpoint_allowed P T endpoint
      then Inl (OtherError ''bucket endpoint must be an explicitly allowed HTTPS URL without credentials, query, or fragment'')
      else Inr ())"

definition validateApp :: "platform \<Rightarrow> trust_policy \<Rightarrow> WorkerApp \<Rightarrow> unit result" where
  "validateApp P T app =
     (let spec = wa_spec app; creds = app_credentials app; replicas = desiredReplicas app;
          mem = rs_memoryGi (ws_resources spec)
      in
      if length (app_name app) > 48 \<or> \<not> pf_IsDNS1123Label P (app_name app)
      then Inl (OtherError ''name must be a DNS label of at most 48 characters'')
      else case find (\<lambda>host. \<not> pf_IsDNS1123Subdomain P host \<and> \<not> pf_IsWildcardDNS1123Subdomain P host)
                  (ws_hostnames spec) of
        Some host \<Rightarrow> Inl (OtherError (''invalid hostname '' @ go_quote host))
      | None \<Rightarrow>
      if ws_appVersion spec = [] then Inl (OtherError ''appVersion is required'')
      else if (case image_tag (app_image app) of None \<Rightarrow> True | Some tag \<Rightarrow> \<not> runtimeImageTag tag)
      then Inl (OtherError ''celld image must include a numeric major.minor.patch tag, including when digest-pinned'')
      else if ws_appVersion spec = AppVersionAuto \<and>
              (\<not> trackableBucket app \<or> ws_deployTrackingSecretRef spec = [])
      then Inl (OtherError ''auto requires an s3 bucket and deployTrackingSecretRef'')
      else if list_ex (\<lambda>ref. ref \<noteq> [] \<and> \<not> pf_IsDNS1123Subdomain P ref)
                [bc_secretRef creds, ws_deployTrackingSecretRef spec]
      then Inl (OtherError ''invalid Secret reference'')
      else res_bind (validateVars P app) (\<lambda>_.
      if replicas < 1 \<or> mem < 0 \<or> mem > 65536
      then Inl (OtherError ''invalid replica or memory configuration'')
      else if (case ws_autoscaling spec of None \<Rightarrow> False
               | Some as \<Rightarrow> as_enabled as \<and>
                   defaultPositive (as_minReplicas as) 2 > defaultPositive (as_maxReplicas as) 10)
      then Inl (OtherError ''minReplicas exceeds maxReplicas'')
      else if ws_durability spec = DurabilityFleet \<and>
              (ws_storage spec = None \<or> replicas < 3 \<or>
               (case ws_autoscaling spec of None \<Rightarrow> False
                | Some as \<Rightarrow> as_enabled as \<and> defaultPositive (as_minReplicas as) 2 < 3))
      then Inl (OtherError ''fleet durability requires persistent storage and at least three replicas'')
      else if \<not> pf_IsDNS1123Subdomain P (clusterDomain app)
      then Inl (OtherError ''invalid clusterDomain'')
      else validateTrust P T app))"

section \<open>The matcher and the expression\<close>

definition digits :: "string \<Rightarrow> bool" where
  "digits s \<longleftrightarrow> s \<noteq> [] \<and> list_all is_digit s"

text \<open>
  The regular expression read declaratively: an optional \<open>v\<close>, three numbers separated by
  dots, and an optional suffix.
\<close>

definition tag_language :: "string \<Rightarrow> bool" where
  "tag_language tag \<longleftrightarrow> (\<exists>v a b c suf. tag = v @ a @ ''.'' @ b @ ''.'' @ c @ suf \<and>
     v \<in> {[], ''v''} \<and> digits a \<and> digits b \<and> digits c \<and> tag_suffix suf)"

lemma takeWhile_digits:
  assumes "digits a" "r = [] \<or> \<not> is_digit (hd r)"
  shows "takeWhile is_digit (a @ r) = a" "dropWhile is_digit (a @ r) = r"
  using assms by (auto simp: digits_def takeWhile_append dropWhile_append list_all_iff takeWhile_eq_Nil_iff
      dropWhile_eq_self_iff)

lemma eat_digits_Some: "eat_digits s = Some r \<longleftrightarrow> (\<exists>a. s = a @ r \<and> digits a \<and> (r = [] \<or> \<not> is_digit (hd r)))"
proof
  assume s: "eat_digits s = Some r"
  then have "s = takeWhile is_digit s @ r" "digits (takeWhile is_digit s)"
    by (auto simp: eat_digits_def digits_def list_all_iff dest: set_takeWhileD split: if_splits)
  moreover from s have "r = [] \<or> \<not> is_digit (hd r)"
    by (metis eat_digits_def hd_dropWhile option.discI option.inject)
  ultimately show "\<exists>a. s = a @ r \<and> digits a \<and> (r = [] \<or> \<not> is_digit (hd r))" by blast
next
  assume "\<exists>a. s = a @ r \<and> digits a \<and> (r = [] \<or> \<not> is_digit (hd r))"
  then obtain a where a: "s = a @ r" "digits a" "r = [] \<or> \<not> is_digit (hd r)" by blast
  moreover from a(2) have "a \<noteq> []" by (simp add: digits_def)
  ultimately show "eat_digits s = Some r"
    by (simp add: eat_digits_def takeWhile_digits)
qed

lemma eat_dot_Some: "eat_dot s = Some r \<longleftrightarrow> s = CHR ''.'' # r"
  by (cases s) (auto simp: eat_dot_def)

lemma tag_suffix_not_digit: "tag_suffix s \<Longrightarrow> s = [] \<or> \<not> is_digit (hd s)"
  by (auto simp: tag_suffix_def is_digit_def split: list.splits)

lemma digits_not_v: "digits a \<Longrightarrow> \<not> hasPrefix (a @ r) ''v''"
  by (cases a) (auto simp: digits_def hasPrefix_def is_digit_def)

lemma trimPrefix_v:
  "trimPrefix tag ''v'' = t \<longleftrightarrow> tag = ''v'' @ t \<or> (tag = t \<and> \<not> hasPrefix tag ''v'')"
  by (auto simp: trimPrefix_def hasPrefix_iff)

lemma runtimeImageTag_core:
  "runtimeImageTag tag \<longleftrightarrow> (\<exists>a b c suf. trimPrefix tag ''v'' = a @ ''.'' @ b @ ''.'' @ c @ suf \<and>
     digits a \<and> digits b \<and> digits c \<and> tag_suffix suf)"
  (is "_ \<longleftrightarrow> ?R")
proof
  assume "runtimeImageTag tag"
  then obtain s1 s2 s3 s4 r where "eat_digits (trimPrefix tag ''v'') = Some s1" "eat_dot s1 = Some s2"
    "eat_digits s2 = Some s3" "eat_dot s3 = Some s4" "eat_digits s4 = Some r" "tag_suffix r"
    by (auto simp: runtimeImageTag_def bind_eq_Some_conv split: option.splits)
  then obtain a b c where "trimPrefix tag ''v'' = a @ CHR ''.'' # b @ CHR ''.'' # c @ r"
    "digits a" "digits b" "digits c"
    unfolding eat_digits_Some eat_dot_Some by blast
  with \<open>tag_suffix r\<close> show ?R by (intro exI [of _ a] exI [of _ b] exI [of _ c] exI [of _ r]) simp
next
  assume ?R
  then obtain a b c suf where tag: "trimPrefix tag ''v'' = a @ ''.'' @ b @ ''.'' @ c @ suf"
    "digits a" "digits b" "digits c" "tag_suffix suf" by blast
  have dot: "\<not> is_digit (CHR ''.'')" by (simp add: is_digit_def)
  have "eat_digits (trimPrefix tag ''v'') = Some (''.'' @ b @ ''.'' @ c @ suf)"
    unfolding eat_digits_Some tag(1) using tag(2) dot by auto
  moreover have "eat_digits (b @ ''.'' @ c @ suf) = Some (''.'' @ c @ suf)"
    unfolding eat_digits_Some using tag(3) dot by auto
  moreover have "eat_digits (c @ suf) = Some suf"
    unfolding eat_digits_Some using tag(4) tag_suffix_not_digit [OF tag(5)] by blast
  ultimately show "runtimeImageTag tag"
    using tag(5) by (simp add: runtimeImageTag_def eat_dot_def)
qed

lemma runtimeImageTag_language: "runtimeImageTag tag \<longleftrightarrow> tag_language tag"
proof
  assume "runtimeImageTag tag"
  then obtain a b c suf where t: "trimPrefix tag ''v'' = a @ ''.'' @ b @ ''.'' @ c @ suf"
    "digits a" "digits b" "digits c" "tag_suffix suf"
    unfolding runtimeImageTag_core by blast
  from t(1) have "\<exists>v. v \<in> {[], ''v''} \<and> tag = v @ a @ ''.'' @ b @ ''.'' @ c @ suf"
    unfolding trimPrefix_v by auto
  with t(2-) show "tag_language tag" unfolding tag_language_def by blast
next
  assume "tag_language tag"
  then obtain v a b c suf where t: "tag = v @ a @ ''.'' @ b @ ''.'' @ c @ suf" "v \<in> {[], ''v''}"
    "digits a" "digits b" "digits c" "tag_suffix suf"
    unfolding tag_language_def by blast
  have "trimPrefix tag ''v'' = a @ ''.'' @ b @ ''.'' @ c @ suf"
    unfolding trimPrefix_v using t(1,2) digits_not_v [OF t(3)] by auto
  with t(3-) show "runtimeImageTag tag" unfolding runtimeImageTag_core by blast
qed

section \<open>Versions of validated images\<close>

lemma digits_val_bound: "list_all is_digit s \<Longrightarrow> 0 \<le> digits_val s \<and> digits_val s < 10 ^ length s"
proof (induction s rule: rev_induct)
  case (snoc c s)
  then have "0 \<le> digits_val s" "digits_val s + 1 \<le> 10 ^ length s" "0 \<le> digit_val c" "digit_val c \<le> 9"
    by (auto simp: digit_val_def is_digit_def)
  then show ?case by simp
qed (simp add: digits_val_def)

lemma atoi_digits:
  assumes "digits s" "length s \<le> 18"
  shows "atoi s = Some (digits_val s)"
proof -
  have "(10::int) ^ length s \<le> 10 ^ 18" using assms(2) by (intro power_increasing) simp_all
  with digits_val_bound [of s] assms have "int64_ok (digits_val s)"
    by (simp add: int64_ok_def digits_def)
  moreover have "\<not> hasPrefix s ''-''" "\<not> hasPrefix s ''+''"
    using assms(1) by (cases s; auto simp: digits_def hasPrefix_def is_digit_def)+
  ultimately show ?thesis using assms(1) by (simp add: atoi_def digits_def Let_def)
qed

lemma digits_no_sep: "digits a \<Longrightarrow> \<not> is_digit c \<Longrightarrow> c \<notin> set a"
  by (auto simp: digits_def list_all_iff)

lemma tag_no_colon:
  assumes "runtimeImageTag tag"
  shows "CHR '':'' \<notin> set tag"
proof -
  from assms obtain v a b c suf where t: "tag = v @ a @ ''.'' @ b @ ''.'' @ c @ suf" "v \<in> {[], ''v''}"
    "digits a" "digits b" "digits c" "tag_suffix suf"
    unfolding runtimeImageTag_language tag_language_def by blast
  have "\<not> is_digit (CHR '':'')" by (simp add: is_digit_def)
  then have "CHR '':'' \<notin> set a" "CHR '':'' \<notin> set b" "CHR '':'' \<notin> set c"
    using t(3-5) digits_no_sep by blast+
  moreover have "CHR '':'' \<notin> set suf"
    using t(6) by (auto simp: tag_suffix_def list_all_iff suffix_char_def alnum_def is_letter_def is_digit_def
        split: list.splits)
  ultimately show ?thesis using t(1,2) by auto
qed

lemma cut_found:
  assumes "snd (snd (cut s c))"
  shows "s = fst (cut s c) @ c # fst (snd (cut s c))"
proof (cases "dropWhile (\<lambda>x. x \<noteq> c) s")
  case Nil
  with assms show ?thesis by (simp add: cut_def)
next
  case (Cons x r)
  then have "x = c" using hd_dropWhile [of "\<lambda>x. x \<noteq> c" s] by auto
  moreover have "s = takeWhile (\<lambda>x. x \<noteq> c) s @ x # r"
    using takeWhile_dropWhile_id [of "\<lambda>x. x \<noteq> c" s] Cons by metis
  ultimately show ?thesis using Cons by (simp add: cut_def)
qed

lemma minorOf_tag:
  assumes "image_tag ref = Some tag" "runtimeImageTag tag" "length tag \<le> 18"
  shows "\<exists>a b. minorOf ref = Some (mk_version a b) \<and> 0 \<le> a \<and> 0 \<le> b"
proof -
  let ?img = "fst (cut ref (CHR ''@''))"
  let ?k = "nat (lastIndex ?img (CHR ''/'') + 1)"
  from assms(1) have tag: "fst (snd (cut (drop ?k ?img) (CHR '':''))) = tag"
    "snd (snd (cut (drop ?k ?img) (CHR '':'')))"
    by (auto simp: image_tag_def Let_def split: prod.splits if_splits)
  define pre where "pre = fst (cut (drop ?k ?img) (CHR '':''))"
  have "drop ?k ?img = pre @ CHR '':'' # tag"
    using cut_found [OF tag(2)] tag(1) unfolding pre_def by simp
  then have img: "?img = (take ?k ?img @ pre) @ CHR '':'' # tag"
    by (metis append_assoc append_take_drop_id)
  define front where "front = take ?k ?img @ pre"
  have idx: "lastIndex ?img (CHR '':'') = int (length front)"
    by (subst img) (simp only: front_def [symmetric] lastIndex_append [OF tag_no_colon [OF assms(2)]])
  have rest: "drop (nat (int (length front) + 1)) ?img = tag"
    by (subst img) (simp add: front_def [symmetric] nat_add_distrib)
  obtain a b c suf where t: "trimPrefix tag ''v'' = a @ ''.'' @ b @ ''.'' @ c @ suf"
    "digits a" "digits b" using assms(2) unfolding runtimeImageTag_core by blast
  have dot: "\<not> is_digit (CHR ''.'')" by (simp add: is_digit_def)
  have parts: "splitN (trimPrefix tag ''v'') (CHR ''.'') 3 = [a, b, c @ suf]"
    using cut_append [OF digits_no_sep [OF t(2) dot], of "b @ ''.'' @ c @ suf"]
      cut_append [OF digits_no_sep [OF t(3) dot], of "c @ suf"]
    unfolding t(1) by (simp add: numeral_3_eq_3)
  have "length (trimPrefix tag ''v'') \<le> length tag" by (simp add: trimPrefix_def)
  with t(1) assms(3) have "length a \<le> 18" "length b \<le> 18" by simp_all
  note ab = atoi_digits [OF t(2) this(1)] atoi_digits [OF t(3) this(2)]
  have "minorOf ref = Some (mk_version (digits_val a) (digits_val b))"
    unfolding minorOf_def Let_def idx rest parts by (simp add: ab)
  with digits_val_bound t(2,3) show ?thesis by (auto simp: digits_def)
qed

text \<open>A member of a JSON object.\<close>

definition jmember :: "string \<Rightarrow> json \<Rightarrow> json option" where
  "jmember k j = (case j of JObj ms \<Rightarrow> map_of ms k | _ \<Rightarrow> None)"

lemma jmember_jobj: "distinct (map fst es) \<Longrightarrow> jmember k (jobj es) = map_of es k"
  using gm.get_puts [OF gm_wf_Nil, of es k]
  by (simp add: jmember_def jobj_def split: option.splits)

text \<open>The bounds the scaler is given.\<close>

lemma scaler_bounds:
  "jmember ''minReplicaCount'' (un_spec (buildScaledObject app as url paused)) =
     Some (JInt (if as_minReplicas as = 0 then 2 else as_minReplicas as))"
  "jmember ''maxReplicaCount'' (un_spec (buildScaledObject app as url paused)) =
     Some (JInt (if as_maxReplicas as = 0 then 10 else as_maxReplicas as))"
  by (simp_all add: buildScaledObject_def newUnstructuredObject_def Let_def jmember_jobj)

section \<open>What validation establishes\<close>

lemma validateApp_name:
  "validateApp P T app = Inr () \<Longrightarrow> length (app_name app) \<le> 48"
  by (auto simp: validateApp_def Let_def split: if_splits)

lemma validateApp_checked:
  assumes "validateApp P T app = Inr ()"
  shows "\<exists>tag. image_tag (app_image app) = Some tag \<and> runtimeImageTag tag"
    and "1 \<le> desiredReplicas app" "0 \<le> rs_memoryGi (ws_resources (wa_spec app))"
      "rs_memoryGi (ws_resources (wa_spec app)) \<le> 65536"
    and "ws_autoscaling (wa_spec app) = Some as \<Longrightarrow> as_enabled as \<Longrightarrow>
      defaultPositive (as_minReplicas as) 2 \<le> defaultPositive (as_maxReplicas as) 10"
    and "ws_durability (wa_spec app) = DurabilityFleet \<Longrightarrow>
      ws_storage (wa_spec app) \<noteq> None \<and> 3 \<le> desiredReplicas app \<and>
      (\<forall>as. ws_autoscaling (wa_spec app) = Some as \<longrightarrow> as_enabled as \<longrightarrow> 3 \<le> defaultPositive (as_minReplicas as) 2)"
    and "validateTrust P T app = Inr ()"
  using assms
  by (auto simp: validateApp_def Let_def res_bind_def not_less split: if_splits option.splits sum.splits)

lemma validateTrust_checked:
  assumes "validateTrust P T app = Inr ()"
  shows "\<exists>p \<in> set (if tp_allowedImagePrefixes T = [] then [''ghcr.io/denoland/celld:'']
                   else tp_allowedImagePrefixes T). hasPrefix (app_image app) p"
    and "bc_iamRole (app_credentials app) \<in> {[], iamRoleAuto} \<union> set (tp_allowedIAMRoles T)"
    and "bc_azureClientID (app_credentials app) \<in> {[]} \<union> set (tp_allowedAzureClientIDs T)"
    and "bk_endpoint (ws_bucket (wa_spec app)) = [] \<or> endpoint_allowed P T (bk_endpoint (ws_bucket (wa_spec app)))"
  using assms by (auto simp: validateTrust_def Let_def list_ex_iff split: if_splits)

section \<open>Properties\<close>


text \<open>
  Every image that passes validation has a version the rollout checks can read, also
  with a registry port in the name or pinned by digest: the guard tables never fall back to
  "unknown" for a validated specification. (The tag is at most 18 characters long, so that
  its numbers fit in 64 bits.)
\<close>

lemma validated_image_version:
  assumes "validateApp P T app = Inr ()" "image_tag (app_image app) = Some tag" "length tag \<le> 18"
  shows "\<exists>a b. minorOf (app_image app) = Some (mk_version a b) \<and> 0 \<le> a \<and> 0 \<le> b"
proof -
  from validateApp_checked(1) [OF assms(1)] assms(2) have "runtimeImageTag tag" by simp
  with assms(2,3) show ?thesis by (intro minorOf_tag)
qed

text \<open>
  C27. The names derived from a validated application fit where Kubernetes limits them to 63
  characters: the fleet, its internal Service, and the pods (of the first \<open>10^8\<close> ordinals).
\<close>

theorem validated_names_fit:
  assumes "validateApp P T app = Inr ()" "0 \<le> i" "i < 10 ^ 8"
  shows "length (internalServiceName app) \<le> 63 \<and> length (fleetName app) \<le> 63 \<and>
    length (ordinal_name (fleetName app) i) \<le> 63"
proof -
  have "length (show_nat (nat i)) \<le> 8" using assms(2,3) by (intro length_show_nat) simp_all
  with validateApp_name [OF assms(1)] assms(2) show ?thesis
    by (simp add: internalServiceName_def fleetName_def ordinal_name_def show_int_def)
qed

text \<open>
  C26. The memory shed threshold written into the pods of a validated application is exact
  (no overflow), positive, and strictly below 95 percent of the memory limit of the
  container, so the runtime sheds before its absolute cap.
\<close>

theorem validated_rss_threshold:
  assumes "validateApp P T app = Inr ()"
  shows "rssMb app = memoryGi app * 4096 div 5 \<and> 0 < rssMb app \<and>
    100 * rssMb app < 95 * (memoryGi app * 1024) \<and>
    map_of (co_limits (templateContainer app)) ''memory'' = Some (Gi (memoryGi app))"
proof -
  from validateApp_checked(3,4) [OF assms] have m: "1 \<le> memoryGi app" "memoryGi app \<le> 65536"
    by (auto simp: memoryGi_def Let_def)
  then have "wrap64 (memoryGi app * 1024) = memoryGi app * 1024"
    "wrap64 (memoryGi app * 1024 * 4) = memoryGi app * 4096"
    by (subst wrap64_id; simp add: int64_ok_def)+
  with m show ?thesis by (simp add: rssMb_def templateContainer_def Let_def) linarith
qed

text \<open>
  C24. Fleet durability is only ever run on persistent disks with at least three replicas:
  a validated application that asks for it gets a volume claim, at least three replicas, and
  (when autoscaled) a scaler whose floor is at least three.
\<close>

theorem validated_fleet_durability:
  assumes "validateApp P T app = Inr ()" "ws_durability (wa_spec app) = DurabilityFleet"
  shows "fleetClaims app \<noteq> [] \<and> 3 \<le> desiredReplicas app \<and>
    (\<forall>as. ws_autoscaling (wa_spec app) = Some as \<and> as_enabled as \<longrightarrow>
      (\<exists>k \<ge> 3. jmember ''minReplicaCount'' (un_spec (buildScaledObject app as url paused)) = Some (JInt k)))"
proof -
  note ok = validateApp_checked(6) [OF assms]
  have "\<exists>k \<ge> 3. jmember ''minReplicaCount'' (un_spec (buildScaledObject app as url paused)) = Some (JInt k)"
    if "ws_autoscaling (wa_spec app) = Some as" "as_enabled as" for as
  proof (rule exI [of _ "as_minReplicas as"])
    from ok that have "3 \<le> as_minReplicas as" by (auto simp: defaultPositive_def split: if_splits)
    then show "3 \<le> as_minReplicas as \<and>
        jmember ''minReplicaCount'' (un_spec (buildScaledObject app as url paused)) = Some (JInt (as_minReplicas as))"
      by (simp add: scaler_bounds)
  qed
  with ok show ?thesis by (auto simp: fleetClaims_def split: option.split)
qed

text \<open>
  C25. What a validated application puts into the objects of its fleet is on the operator's
  allowlists: the container image, the role and the identity annotated on the service
  account, and every custom bucket endpoint handed to the pods.
\<close>

theorem validated_children_trusted:
  assumes "validateApp P T app = Inr ()"
  shows "(\<exists>p \<in> set (if tp_allowedImagePrefixes T = [] then [''ghcr.io/denoland/celld:'']
                   else tp_allowedImagePrefixes T). hasPrefix (co_image (templateContainer app)) p) \<and>
    gm_index (om_annotations (sa_meta (buildServiceAccount app))) roleArnAnnotation \<in> {[]} \<union> set (tp_allowedIAMRoles T) \<and>
    gm_index (om_annotations (sa_meta (buildServiceAccount app))) azureClientIDAnnotation
      \<in> {[]} \<union> set (tp_allowedAzureClientIDs T) \<and>
    (\<forall>e \<in> set (templateEnv app). ev_name e = ''S3_ENDPOINT'' \<longrightarrow> ev_value e \<in> set (tp_allowedBucketEndpoints T))"
proof -
  note ok = validateTrust_checked [OF validateApp_checked(7) [OF assms]]
  have ep: "ev_value e = bk_endpoint (ws_bucket (wa_spec app)) \<and> ev_value e \<noteq> []"
    if "e \<in> set (templateEnv app)" "ev_name e = ''S3_ENDPOINT''" for e
    using that by (auto simp: templateEnv_def Let_def split: if_splits)
  have allowed: "endpoint_allowed P T x \<Longrightarrow> x \<in> set (tp_allowedBucketEndpoints T)" for x
    by (auto simp: endpoint_allowed_def split: option.splits)
  have "\<exists>p \<in> set (if tp_allowedImagePrefixes T = [] then [''ghcr.io/denoland/celld:'']
                   else tp_allowedImagePrefixes T). hasPrefix (co_image (templateContainer app)) p"
    using ok(1) by (simp add: templateContainer_def Let_def)
  moreover have "gm_index (om_annotations (sa_meta (buildServiceAccount app))) roleArnAnnotation
      \<in> {[]} \<union> set (tp_allowedIAMRoles T)"
    using ok(2) by (auto simp: buildServiceAccount_def Let_def new_meta_def gm_index_def
        roleArnAnnotation_def azureClientIDAnnotation_def)
  moreover have "gm_index (om_annotations (sa_meta (buildServiceAccount app))) azureClientIDAnnotation
      \<in> {[]} \<union> set (tp_allowedAzureClientIDs T)"
    using ok(3) by (auto simp: buildServiceAccount_def Let_def new_meta_def gm_index_def
        roleArnAnnotation_def azureClientIDAnnotation_def)
  moreover have "ev_value e \<in> set (tp_allowedBucketEndpoints T)"
    if "e \<in> set (templateEnv app)" "ev_name e = ''S3_ENDPOINT''" for e
    using ep [OF that] ok(4) allowed by metis
  ultimately show ?thesis by blast
qed

end
