(* ===== verification/Go_Json.thy ===== *)
theory Go_Json
  imports K8s_Types
begin

text \<open>
  What the operator uses of package \<open>encoding/json\<close>: reading a document into a \<^typ>\<open>json\<close> value
  (with the replacement of malformed UTF-8 and unpaired surrogates and the nesting limit of
  the Go decoder), decoding a value into a Go slice of strings or into integer and string
  fields, and writing a slice of strings.

  The reader takes fuel; twice the length of the document is enough, because at least every
  second call consumes a byte (\<open>json_value_fuel\<close>).
\<close>

section \<open>UTF-8\<close>

abbreviation byte :: "char \<Rightarrow> nat" where
  "byte c \<equiv> of_char c"

definition in_range :: "nat \<Rightarrow> nat \<Rightarrow> nat \<Rightarrow> bool" where
  "in_range lo hi n \<longleftrightarrow> lo \<le> n \<and> n \<le> hi"

text \<open>The length of the encoded character at the front, zero if the bytes are malformed.\<close>

definition utf8_len :: "string \<Rightarrow> nat" where
  "utf8_len s =
     (case map byte (take 4 s) of
        [] \<Rightarrow> 0
      | b # bs \<Rightarrow>
          let cont = in_range 0x80 0xBF in
          if b < 0x80 then 1
          else if in_range 0xC2 0xDF b then
            (case bs of x # _ \<Rightarrow> if cont x then 2 else 0 | _ \<Rightarrow> 0)
          else if in_range 0xE0 0xEF b then
            (case bs of x # y # _ \<Rightarrow>
               if in_range (if b = 0xE0 then 0xA0 else 0x80) (if b = 0xED then 0x9F else 0xBF) x \<and> cont y
               then 3 else 0
             | _ \<Rightarrow> 0)
          else if in_range 0xF0 0xF4 b then
            (case bs of x # y # z # _ \<Rightarrow>
               if in_range (if b = 0xF0 then 0x90 else 0x80) (if b = 0xF4 then 0x8F else 0xBF) x \<and> cont y \<and> cont z
               then 4 else 0
             | _ \<Rightarrow> 0)
          else 0)"

definition utf8_encode :: "nat \<Rightarrow> string" where
  "utf8_encode r =
     map char_of
       (if r < 0x80 then [r]
        else if r < 0x800 then [0xC0 + r div 0x40, 0x80 + r mod 0x40]
        else if r < 0x10000 then [0xE0 + r div 0x1000, 0x80 + r div 0x40 mod 0x40, 0x80 + r mod 0x40]
        else [0xF0 + r div 0x40000, 0x80 + r div 0x1000 mod 0x40, 0x80 + r div 0x40 mod 0x40, 0x80 + r mod 0x40])"

definition replacementChar :: string where
  "replacementChar = utf8_encode 0xFFFD"

section \<open>Tokens\<close>

fun skip_ws :: "string \<Rightarrow> string" where
  "skip_ws [] = []"
| "skip_ws (c # s) = (if byte c \<in> {0x20, 0x09, 0x0A, 0x0D} then skip_ws s else c # s)"

definition hex_val :: "char \<Rightarrow> nat option" where
  "hex_val c =
     (let b = byte c in
      if in_range 0x30 0x39 b then Some (b - 0x30)
      else if in_range 0x61 0x66 b then Some (b - 0x61 + 10)
      else if in_range 0x41 0x46 b then Some (b - 0x41 + 10)
      else None)"

fun hex4 :: "string \<Rightarrow> (nat \<times> string) option" where
  "hex4 (a # b # c # d # s) =
     (case (hex_val a, hex_val b, hex_val c, hex_val d) of
        (Some w, Some x, Some y, Some z) \<Rightarrow> Some (((w * 16 + x) * 16 + y) * 16 + z, s)
      | _ \<Rightarrow> None)"
| "hex4 _ = None"

definition escape_char :: "char \<Rightarrow> char option" where
  "escape_char e =
     map_of [(CHR 0x22, CHR 0x22), (CHR 0x5C, CHR 0x5C), (CHR ''/'', CHR ''/''),
             (CHR ''b'', CHR 0x08), (CHR ''f'', CHR 0x0C), (CHR ''n'', CHR 0x0A),
             (CHR ''r'', CHR 0x0D), (CHR ''t'', CHR 0x09)] e"

text \<open>A four-digit escape, with the second half of a surrogate pair if it follows.\<close>

definition unicode_unit :: "string \<Rightarrow> (string \<times> string) option" where
  "unicode_unit s =
     (case hex4 s of
        None \<Rightarrow> None
      | Some (v, r) \<Rightarrow>
          if in_range 0xD800 0xDFFF v then
            (case (if take 2 r = [CHR 0x5C, CHR ''u''] then hex4 (drop 2 r) else None) of
               Some (w, r') \<Rightarrow>
                 if v < 0xDC00 \<and> in_range 0xDC00 0xDFFF w
                 then Some (utf8_encode (0x10000 + (v - 0xD800) * 0x400 + (w - 0xDC00)), r')
                 else Some (replacementChar, r)
             | None \<Rightarrow> Some (replacementChar, r))
          else Some (utf8_encode v, r))"

text \<open>One unit of a string literal: its decoded bytes and what follows.\<close>

fun string_unit :: "string \<Rightarrow> (string \<times> string) option" where
  "string_unit [] = None"
| "string_unit (c # r) =
     (if c = CHR 0x5C then
        (case r of
           [] \<Rightarrow> None
         | e # r' \<Rightarrow> if e = CHR ''u'' then unicode_unit r'
                    else map_option (\<lambda>d. ([d], r')) (escape_char e))
      else if byte c < 0x20 then None
      else let n = utf8_len (c # r) in
           if n = 0 then Some (replacementChar, r) else Some (take n (c # r), drop n (c # r)))"

text \<open>The rest of a string literal, after its opening quote.\<close>

function json_string :: "string \<Rightarrow> (string \<times> string) option" where
  "json_string s =
     (case s of
        [] \<Rightarrow> None
      | c # r \<Rightarrow>
          if c = CHR 0x22 then Some ([], r)
          else case string_unit s of
                 None \<Rightarrow> None
               | Some (u, s') \<Rightarrow>
                   if length s' < length s
                   then map_option (\<lambda>(t, rest). (u @ t, rest)) (json_string s') else None)"
  by pat_completeness auto
termination by (relation "measure length") auto

declare json_string.simps [simp del]

definition digits1 :: "string \<Rightarrow> (string \<times> string) option" where
  "digits1 s = (if takeWhile is_digit s = [] then None
                else Some (takeWhile is_digit s, dropWhile is_digit s))"

definition json_int :: "string \<Rightarrow> (string \<times> string) option" where
  "json_int s = (if take 1 s = ''0'' then Some (''0'', drop 1 s) else digits1 s)"

definition json_frac :: "string \<Rightarrow> (string \<times> string) option" where
  "json_frac s =
     (if take 1 s = ''.'' then map_option (\<lambda>(d, r). (''.'' @ d, r)) (digits1 (drop 1 s)) else Some ([], s))"

definition json_exp :: "string \<Rightarrow> (string \<times> string) option" where
  "json_exp s =
     (if take 1 s \<in> {''e'', ''E''} then
        let t = drop 1 s; sign = (if take 1 t \<in> {''+'', ''-''} then take 1 t else []) in
        map_option (\<lambda>(d, r). (take 1 s @ sign @ d, r)) (digits1 (drop (length sign) t))
      else Some ([], s))"

definition json_number :: "string \<Rightarrow> (string \<times> string) option" where
  "json_number s =
     (let neg = (if take 1 s = ''-'' then ''-'' else []) in
      Option.bind (json_int (drop (length neg) s)) (\<lambda>(i, s1).
      Option.bind (json_frac s1) (\<lambda>(f, s2).
      Option.bind (json_exp s2) (\<lambda>(e, s3). Some (neg @ i @ f @ e, s3)))))"

section \<open>Documents\<close>

definition maxNestingDepth :: nat where
  "maxNestingDepth = 10000"

fun json_value :: "nat \<Rightarrow> nat \<Rightarrow> string \<Rightarrow> (json \<times> string) option"
  and json_elems :: "nat \<Rightarrow> nat \<Rightarrow> string \<Rightarrow> (json list \<times> string) option"
  and json_members :: "nat \<Rightarrow> nat \<Rightarrow> string \<Rightarrow> ((string \<times> json) list \<times> string) option" where
  "json_value 0 d s = None"
| "json_value (Suc n) d s =
     (case s of
        [] \<Rightarrow> None
      | c # r \<Rightarrow>
          if c = CHR ''{'' then
            (if d = 0 then None
             else if take 1 (skip_ws r) = ''}'' then Some (JObj [], drop 1 (skip_ws r))
             else map_option (\<lambda>(ms, t). (JObj ms, t)) (json_members n (d - 1) (skip_ws r)))
          else if c = CHR ''['' then
            (if d = 0 then None
             else if take 1 (skip_ws r) = '']'' then Some (JArr [], drop 1 (skip_ws r))
             else map_option (\<lambda>(vs, t). (JArr vs, t)) (json_elems n (d - 1) (skip_ws r)))
          else if c = CHR 0x22 then map_option (\<lambda>(k, t). (JStr k, t)) (json_string r)
          else if take 4 s = ''true'' then Some (JBool True, drop 4 s)
          else if take 5 s = ''false'' then Some (JBool False, drop 5 s)
          else if take 4 s = ''null'' then Some (JNull, drop 4 s)
          else map_option (\<lambda>(k, t). (JNum k, t)) (json_number s))"
| "json_elems 0 d s = None"
| "json_elems (Suc n) d s =
     (case json_value n d s of
        None \<Rightarrow> None
      | Some (v, r) \<Rightarrow>
          (case skip_ws r of
             [] \<Rightarrow> None
           | c # t \<Rightarrow>
               if c = CHR '']'' then Some ([v], t)
               else if c = CHR '','' then map_option (\<lambda>(vs, u). (v # vs, u)) (json_elems n d (skip_ws t))
               else None))"
| "json_members 0 d s = None"
| "json_members (Suc n) d s =
     (if take 1 s \<noteq> [CHR 0x22] then None
      else case json_string (drop 1 s) of
        None \<Rightarrow> None
      | Some (k, r) \<Rightarrow>
          if take 1 (skip_ws r) \<noteq> '':'' then None
          else case json_value n d (skip_ws (drop 1 (skip_ws r))) of
            None \<Rightarrow> None
          | Some (v, r') \<Rightarrow>
              (case skip_ws r' of
                 [] \<Rightarrow> None
               | c # t \<Rightarrow>
                   if c = CHR ''}'' then Some ([(k, v)], t)
                   else if c = CHR '','' then map_option (\<lambda>(ms, u). ((k, v) # ms, u)) (json_members n d (skip_ws t))
                   else None))"

definition json_parse :: "string \<Rightarrow> json option" where
  "json_parse s =
     (case json_value (Suc (2 * length s)) maxNestingDepth (skip_ws s) of
        Some (v, r) \<Rightarrow> if skip_ws r = [] then Some v else None
      | None \<Rightarrow> None)"

section \<open>Every reader consumes its token; the fuel is enough\<close>

lemma skip_ws_length: "length (skip_ws s) \<le> length s"
  by (induction s) auto

lemma json_string_shorter: "json_string s = Some (t, r) \<Longrightarrow> length r < length s"
proof (induction "length s" arbitrary: s t rule: less_induct)
  case less
  note res = less.prems [unfolded json_string.simps [of s]]
  show ?case
  proof (cases "string_unit s")
    case None
    with res show ?thesis by (auto split: list.splits if_splits)
  next
    case (Some us)
    then obtain u s' where u: "string_unit s = Some (u, s')" by (cases us) auto
    show ?thesis
    proof (cases "take 1 s = [CHR 0x22]")
      case True
      with res show ?thesis by (auto split: list.splits)
    next
      case False
      with res u obtain t' where "length s' < length s" "json_string s' = Some (t', r)"
        by (auto split: list.splits if_splits)
      with less.hyps [of s' t'] show ?thesis by simp
    qed
  qed
qed

lemma digits1_shorter: "digits1 s = Some (t, r) \<Longrightarrow> length r < length s"
  by (cases s) (auto simp: digits1_def length_dropWhile_le less_Suc_eq_le split: if_splits)

lemma json_int_shorter: "json_int s = Some (t, r) \<Longrightarrow> length r < length s"
  by (cases s) (auto simp: json_int_def dest: digits1_shorter split: if_splits)

lemma json_frac_shorter: "json_frac s = Some (t, r) \<Longrightarrow> length r \<le> length s"
  using digits1_shorter [of "drop 1 s"] by (auto simp: json_frac_def split: if_splits)

lemma json_exp_shorter: "json_exp s = Some (t, r) \<Longrightarrow> length r \<le> length s"
  by (auto simp: json_exp_def Let_def dest!: digits1_shorter split: if_splits)

lemma json_number_shorter: "json_number s = Some (t, r) \<Longrightarrow> length r < length s"
  by (fastforce simp: json_number_def Let_def bind_eq_Some_conv dest: json_int_shorter json_frac_shorter json_exp_shorter
      split: if_splits)

lemma skip_ws_less: "length s < n \<Longrightarrow> length (skip_ws s) < n"
  using skip_ws_length [of s] by linarith

lemma skip_ws_Cons: "skip_ws s = c # t \<Longrightarrow> length t < length s"
  using skip_ws_length [of s] by simp

lemma json_shorter:
  "json_value n d s = Some (v, r) \<Longrightarrow> length r < length s"
  "json_elems n d s = Some (vs, r) \<Longrightarrow> length r < length s"
  "json_members n d s = Some (ms, r) \<Longrightarrow> length r < length s"
proof (induction n d s and n d s and n d s arbitrary: v r and vs r and ms r
    rule: json_value_json_elems_json_members.induct)
  case (2 n d s)
  show ?case
  proof (cases s)
    case (Cons c t)
    have ws: "length (skip_ws t) \<le> length t" by (rule skip_ws_length)
    have ms: "length r < length (skip_ws t)" if "json_members n (d - 1) (skip_ws t) = Some (ms, r)" "c = CHR ''{''"
      "d \<noteq> 0" "take 1 (skip_ws t) \<noteq> ''}''" for ms
      using 2(1) Cons that by blast
    have vs: "length r < length (skip_ws t)" if "json_elems n (d - 1) (skip_ws t) = Some (vs, r)" "c = CHR ''[''"
      "d \<noteq> 0" "take 1 (skip_ws t) \<noteq> '']''" for vs
      using 2(2) Cons that by blast
    show ?thesis
      using 2(3) Cons ws
      by (auto dest!: json_string_shorter json_number_shorter ms [simplified] vs [simplified] split: if_splits)
  qed (use 2 in simp)
next
  case (4 n d s)
  then show ?case
    by (auto split: option.splits list.splits if_splits dest!: skip_ws_Cons)
      (meson order.strict_trans order.strict_trans2 skip_ws_length)
next
  case (6 n d s)
  from 6(3) obtain k r1 where k: "json_string (drop 1 s) = Some (k, r1)" "take 1 (skip_ws r1) = '':''"
    by (auto split: if_splits option.splits)
  have le: "length (skip_ws (drop 1 (skip_ws r1))) \<le> length s"
    using json_string_shorter [OF k(1)] skip_ws_length [of r1] skip_ws_length [of "drop 1 (skip_ws r1)"] by simp
  from 6(3) k obtain v2 r2 where v2: "json_value n d (skip_ws (drop 1 (skip_ws r1))) = Some (v2, r2)"
    by (auto split: if_splits option.splits)
  have "take 1 s = [CHR 0x22]" using 6(3) by (simp split: if_splits)
  note ih = 6(1) [OF _ k(1) refl _ v2] 6(2) [OF _ k(1) refl _ v2 refl]
  have r2: "length r2 < length s" using ih(1) le k(2) \<open>take 1 s = [CHR 0x22]\<close> by simp
  show ?case
  proof (cases "skip_ws r2")
    case (Cons c t)
    have t: "length t < length s" using skip_ws_Cons [OF Cons] r2 by simp
    have rest: "length r < length s" if "json_members n d (skip_ws t) = Some (ms', r)" "c \<noteq> CHR ''}''" "c = CHR '',''" for ms'
      using ih(2) [of c t ms' r] that Cons k(2) \<open>take 1 s = [CHR 0x22]\<close> skip_ws_length [of t] t by simp
    from 6(3) k v2 Cons \<open>take 1 s = [CHR 0x22]\<close> t rest show ?thesis
      by (auto split: if_splits)
  qed (use 6(3) k v2 \<open>take 1 s = [CHR 0x22]\<close> in simp)
qed simp_all

lemma json_fuel:
  "(\<forall>n m d. 2 * length s < n \<and> 2 * length s < m \<longrightarrow> json_value n d s = json_value m d s) \<and>
   (\<forall>n m d. Suc (2 * length s) < n \<and> Suc (2 * length s) < m \<longrightarrow> json_elems n d s = json_elems m d s) \<and>
   (\<forall>n m d. Suc (2 * length s) < n \<and> Suc (2 * length s) < m \<longrightarrow> json_members n d s = json_members m d s)"
proof (induction "length s" arbitrary: s rule: less_induct)
  case less
  have IV: "length s' < length s \<Longrightarrow> 2 * length s' < n \<Longrightarrow> 2 * length s' < m \<Longrightarrow>
      json_value n d s' = json_value m d s'" for s' n m d using less by blast
  have IE: "length s' < length s \<Longrightarrow> Suc (2 * length s') < n \<Longrightarrow> Suc (2 * length s') < m \<Longrightarrow>
      json_elems n d s' = json_elems m d s'" for s' n m d using less by blast
  have IM: "length s' < length s \<Longrightarrow> Suc (2 * length s') < n \<Longrightarrow> Suc (2 * length s') < m \<Longrightarrow>
      json_members n d s' = json_members m d s'" for s' n m d using less by blast
  have V: "json_value n d s = json_value m d s" if n: "2 * length s < n" and m: "2 * length s < m" for n m d
  proof -
    obtain n' m' where nm: "n = Suc n'" "m = Suc m'" using n m by (cases n; cases m) auto
    show ?thesis
    proof (cases s)
      case (Cons c r)
      have ws: "length (skip_ws r) < length s" using Cons skip_ws_length [of r] by simp
      have "json_elems n' (d - 1) (skip_ws r) = json_elems m' (d - 1) (skip_ws r)"
        by (rule IE) (use n m ws nm in simp_all)
      moreover have "json_members n' (d - 1) (skip_ws r) = json_members m' (d - 1) (skip_ws r)"
        by (rule IM) (use n m ws nm in simp_all)
      ultimately show ?thesis unfolding nm json_value.simps Cons by (simp only: list.case)
    qed (simp add: nm)
  qed
  have E: "json_elems n d s = json_elems m d s"
    if n: "Suc (2 * length s) < n" and m: "Suc (2 * length s) < m" for n m d
  proof -
    obtain n' m' where nm: "n = Suc n'" "m = Suc m'" using n m by (cases n; cases m) auto
    have v: "json_value n' d s = json_value m' d s" by (rule V) (use n m nm in simp_all)
    have rest: "json_elems n' d (skip_ws t) = json_elems m' d (skip_ws t)"
      if "json_value m' d s = Some (v, r)" "skip_ws r = c # t" for v r c t
      by (rule IE) (use json_shorter(1) [OF that(1)] skip_ws_Cons [OF that(2)] skip_ws_length [of t]
          n m nm in simp_all)
    show ?thesis unfolding nm json_elems.simps v
      by (auto simp: rest split: option.split list.split)
  qed
  have M: "json_members n d s = json_members m d s"
    if n: "Suc (2 * length s) < n" and m: "Suc (2 * length s) < m" for n m d
  proof -
    obtain n' m' where nm: "n = Suc n'" "m = Suc m'" using n m by (cases n; cases m) auto
    have ws: "length (skip_ws (drop 1 (skip_ws r))) < length s"
      if k: "json_string (drop 1 s) = Some (k, r)" for k r
      using json_string_shorter [OF k] skip_ws_length [of r] skip_ws_length [of "drop 1 (skip_ws r)"]
      by simp
    have v: "json_value n' d (skip_ws (drop 1 (skip_ws r))) = json_value m' d (skip_ws (drop 1 (skip_ws r)))"
      if k: "json_string (drop 1 s) = Some (k, r)" for k r
      by (rule IV) (use ws [OF k] n m nm in simp_all)
    have rest: "json_members n' d (skip_ws t) = json_members m' d (skip_ws t)"
      if k: "json_string (drop 1 s) = Some (k, r)"
        and "json_value m' d (skip_ws (drop 1 (skip_ws r))) = Some (v, r')" "skip_ws r' = c # t" for k r v r' c t
      by (rule IM) (use json_shorter(1) [OF that(2)] skip_ws_Cons [OF that(3)] skip_ws_length [of t] ws [OF k]
          n m nm in simp_all)
    show ?thesis
    proof (cases "json_string (drop 1 s)")
      case (Some kr)
      then obtain k r where k: "json_string (drop 1 s) = Some (k, r)" by (cases kr) auto
      show ?thesis unfolding nm json_members.simps k option.case prod.case v [OF k]
        by (auto simp: rest [OF k] split: option.split list.split)
    qed (simp add: nm)
  qed
  from V E M show ?case by blast
qed

text \<open>The fuel of \<open>json_parse\<close> is enough: more of it changes nothing.\<close>

lemma json_value_fuel:
  "2 * length s < n \<Longrightarrow> json_value n d s = json_value (Suc (2 * length s)) d s"
  using json_fuel [of s] by (meson lessI)

section \<open>Writing strings\<close>

definition ascii_escape :: "char \<Rightarrow> string" where
  "ascii_escape c =
     (if c = CHR 0x22 \<or> c = CHR 0x5C then [CHR 0x5C, c]
      else if c = CHR 0x08 then [CHR 0x5C, CHR ''b'']
      else if c = CHR 0x0C then [CHR 0x5C, CHR ''f'']
      else if c = CHR 0x0A then [CHR 0x5C, CHR ''n'']
      else if c = CHR 0x0D then [CHR 0x5C, CHR ''r'']
      else if c = CHR 0x09 then [CHR 0x5C, CHR ''t'']
      else if byte c < 0x20 \<or> c \<in> {CHR ''<'', CHR ''>'', CHR ''&''}
      then [CHR 0x5C, CHR ''u'', CHR ''0'', CHR ''0'', hex_digit (byte c div 16), hex_digit (byte c mod 16)]
      else [c])"

definition rune_escape :: "string \<Rightarrow> string" where
  "rune_escape u =
     (if u = utf8_encode 0x2028 then CHR 0x5C # ''u2028''
      else if u = utf8_encode 0x2029 then CHR 0x5C # ''u2029'' else u)"

function json_quote_body :: "string \<Rightarrow> string" where
  "json_quote_body [] = []"
| "json_quote_body (c # r) =
     (if byte c < 0x80 then ascii_escape c @ json_quote_body r
      else if utf8_len (c # r) = 0 then CHR 0x5C # ''ufffd'' @ json_quote_body r
      else rune_escape (take (utf8_len (c # r)) (c # r)) @ json_quote_body (drop (utf8_len (c # r)) (c # r)))"
  by pat_completeness auto
termination by (relation "measure length") auto

definition json_quote :: "string \<Rightarrow> string" where
  "json_quote s = CHR 0x22 # json_quote_body s @ [CHR 0x22]"

text \<open>\<open>json.Marshal\<close> of a slice of strings, which is nil when it has no element.\<close>

definition json_marshal_strings :: "string list \<Rightarrow> string" where
  "json_marshal_strings ks =
     (if ks = [] then ''null'' else ''['' @ join (map json_quote ks) '','' @ '']'')"

section \<open>Decoding into Go values\<close>

text \<open>
  \<open>json.Unmarshal\<close> into a nil slice of strings, the error ignored: an element of another
  type is left empty.
\<close>

definition json_unmarshal_strings :: "string \<Rightarrow> string list" where
  "json_unmarshal_strings raw =
     (case json_parse raw of
        Some (JArr vs) \<Rightarrow> map (\<lambda>v. case v of JStr s \<Rightarrow> s | _ \<Rightarrow> []) vs
      | _ \<Rightarrow> [])"

text \<open>
  Field names are matched up to case (\<open>foldName\<close>); outside ASCII only the long s and the
  Kelvin sign fold to an ASCII letter.
\<close>

fun fold_name :: "string \<Rightarrow> string" where
  "fold_name [] = []"
| "fold_name (c # r) =
     (if take 2 (c # r) = utf8_encode 0x17F then CHR ''S'' # fold_name (drop 1 r)
      else if take 3 (c # r) = utf8_encode 0x212A then CHR ''K'' # fold_name (drop 2 r)
      else if in_range 0x61 0x7A (byte c) then char_of (byte c - 32) # fold_name r
      else c # fold_name r)"

text \<open>The values given for a field of a struct, in document order.\<close>

definition field_values :: "string \<Rightarrow> (string \<times> json) list \<Rightarrow> json list" where
  "field_values name ms = map snd (filter (\<lambda>m. fold_name (fst m) = fold_name name) ms)"

text \<open>
  Decoding successive values into one field: \<open>step\<close> decodes a value that is not null over the
  previous content and fails on a value of another type. What null does depends on the kind
  of the field.
\<close>

fun decode_field :: "('a \<Rightarrow> json \<Rightarrow> 'a option) \<Rightarrow> 'a \<Rightarrow> json list \<Rightarrow> 'a option" where
  "decode_field step x [] = Some x"
| "decode_field step x (v # vs) = Option.bind (step x v) (\<lambda>y. decode_field step y vs)"

definition into_string :: "string \<Rightarrow> json \<Rightarrow> string option" where
  "into_string x v = (case v of JNull \<Rightarrow> Some x | JStr s \<Rightarrow> Some s | _ \<Rightarrow> None)"

definition into_int64 :: "int \<Rightarrow> json \<Rightarrow> int option" where
  "into_int64 x v = (case v of JNull \<Rightarrow> Some x | JNum n \<Rightarrow> atoi n | _ \<Rightarrow> None)"

definition into_string_ptr :: "string option \<Rightarrow> json \<Rightarrow> string option option" where
  "into_string_ptr x v = (case v of JNull \<Rightarrow> Some None | JStr s \<Rightarrow> Some (Some s) | _ \<Rightarrow> None)"

definition into_int64_ptr :: "int option \<Rightarrow> json \<Rightarrow> int option option" where
  "into_int64_ptr x v = (case v of JNull \<Rightarrow> Some None | JNum n \<Rightarrow> map_option Some (atoi n) | _ \<Rightarrow> None)"

definition into_raw_slice :: "json list \<Rightarrow> json \<Rightarrow> json list option" where
  "into_raw_slice x v = (case v of JNull \<Rightarrow> Some [] | JArr vs \<Rightarrow> Some vs | _ \<Rightarrow> None)"

text \<open>The errors of the decoder; the operator passes their text on and nothing else.\<close>

definition json_error :: gerror where
  "json_error = OtherError ''invalid JSON''"

section \<open>What is written reads back\<close>

definition ascii :: "string \<Rightarrow> bool" where
  "ascii s \<longleftrightarrow> (\<forall>c \<in> set s. byte c < 0x80)"

lemma hex_val_hex_digit: "n < 16 \<Longrightarrow> hex_val (hex_digit n) = Some n"
proof -
  have "\<forall>n \<in> set [0..<16]. hex_val (hex_digit n) = Some n"
    by code_simp
  then show "n < 16 \<Longrightarrow> hex_val (hex_digit n) = Some n" by auto
qed

lemma hex_val_0: "hex_val (CHR ''0'') = Some 0"
  by code_simp

lemma string_unit_ascii_escape:
  assumes "byte c < 0x80"
  shows "string_unit (ascii_escape c @ r) = Some ([c], r)"
proof -
  have u: "unicode_unit (CHR ''0'' # CHR ''0'' # hex_digit (byte c div 16) # hex_digit (byte c mod 16) # r)
      = Some ([c], r)"
    using assms by (simp add: unicode_unit_def hex_val_hex_digit hex_val_0 in_range_def utf8_encode_def)
  show ?thesis
    using assms u by (auto simp: ascii_escape_def escape_char_def utf8_len_def Let_def)
qed

lemma ascii_escape_not_quote: "ascii_escape c @ r \<noteq> []" "take 1 (ascii_escape c @ r) \<noteq> [CHR 0x22]"
  by (simp_all add: ascii_escape_def)

lemma json_string_quote_body:
  "ascii s \<Longrightarrow> json_string (json_quote_body s @ CHR 0x22 # r) = Some (s, r)"
proof (induction s)
  case Nil
  show ?case by (simp add: json_string.simps)
next
  case (Cons c s)
  then have c: "byte c < 0x80" and ih: "json_string (json_quote_body s @ CHR 0x22 # r) = Some (s, r)"
    by (simp_all add: ascii_def)
  let ?t = "json_quote_body s @ CHR 0x22 # r"
  obtain x y where xy: "ascii_escape c @ ?t = x # y" "x \<noteq> CHR 0x22"
    using ascii_escape_not_quote [of c ?t] by (cases "ascii_escape c @ ?t") auto
  have "length ?t < length (ascii_escape c @ ?t)" by (simp add: ascii_escape_def)
  with xy string_unit_ascii_escape [OF c, of ?t] ih
  have "json_string (ascii_escape c @ ?t) = Some (c # s, r)"
    by (subst json_string.simps) (simp del: string_unit.simps)
  with c show ?case by simp
qed

lemma json_elems_strings:
  "ks \<noteq> [] \<Longrightarrow> \<forall>k \<in> set ks. ascii k \<Longrightarrow> length ks < n \<Longrightarrow>
   json_elems n d (join (map json_quote ks) '','' @ CHR '']'' # r) = Some (map JStr ks, r)"
proof (induction ks arbitrary: n)
  case (Cons k ks)
  note ih = Cons.IH and prems = Cons.prems
  from prems obtain n' where n: "n = Suc (Suc n')" by (cases n; cases "n - 1") auto
  have v: "json_value (Suc n') d (json_quote k @ t) = Some (JStr k, t)" for t
    using prems(2) by (simp add: json_quote_def json_string_quote_body)
  show ?case
  proof (cases ks)
    case Nil
    with v show ?thesis by (simp add: n)
  next
    case (Cons k' ks')
    have "json_elems (Suc n') d (join (map json_quote ks) '','' @ CHR '']'' # r) = Some (map JStr ks, r)"
      by (rule ih) (use Cons prems n in simp_all)
    moreover have "skip_ws (join (map json_quote ks) '','' @ CHR '']'' # r) = join (map json_quote ks) '','' @ CHR '']'' # r"
      using Cons by (cases ks') (simp_all add: json_quote_def)
    moreover have "json_elems n d (json_quote k @ '','' @ join (map json_quote ks) '','' @ CHR '']'' # r) =
        map_option (\<lambda>(vs, u). (JStr k # vs, u))
          (json_elems (Suc n') d (skip_ws (join (map json_quote ks) '','' @ CHR '']'' # r)))"
      unfolding n by (subst json_elems.simps) (simp only: v, simp)
    ultimately show ?thesis using Cons by simp
  qed
qed simp

lemma json_marshal_strings_readback:
  assumes "\<forall>k \<in> set ks. ascii k"
  shows "json_unmarshal_strings (json_marshal_strings ks) = ks"
proof (cases "ks = []")
  case True
  have "json_unmarshal_strings ''null'' = []" by code_simp
  with True show ?thesis by (simp add: json_marshal_strings_def)
next
  case False
  let ?b = "join (map json_quote ks) '','' @ '']''"
  have len: "length ks < Suc (length ?b)"
    by (induction ks rule: induct_list012) (simp_all add: json_quote_def)
  have ws: "skip_ws ?b = ?b" "take 1 ?b \<noteq> '']''"
    using False by (cases ks rule: list.exhaust; cases "tl ks"; simp add: json_quote_def)+
  have "length ks < 2 * Suc (length ?b)" using len by simp
  from json_elems_strings [OF False assms this, of "maxNestingDepth - 1" "[]"]
  have "json_parse (''['' @ ?b) = Some (JArr (map JStr ks))"
    using ws by (simp add: json_parse_def maxNestingDepth_def)
  then show ?thesis
    using False by (simp add: json_unmarshal_strings_def json_marshal_strings_def comp_def)
qed

end
