(* ===== verification/Deploy_Tracker.thy ===== *)
theory Deploy_Tracker
  imports App_Validation Rollout Go_Json
begin

text \<open>
  Deploy tracking (\<open>src/internal/controller/deploytracker.go\<close>): reading the bucket's
  \<open>deploy/current.json\<close>, the cache in front of it, and the version a fleet should serve.

  The object store is a parameter: the answer to a request. The cache of the tracker is an
  association list with distinct keys; Go's iteration over it starts anywhere, so the entry
  evicted last is chosen by a field of the environment. \<open>te_other\<close> is what concurrent passes
  for other fleets did to the cache between the two critical sections of \<open>pointerVersion\<close>.
\<close>

section \<open>Reading the pointer\<close>

record s3_request =
  s3_bucket :: string
  s3_key :: string
  s3_region :: string
  s3_endpoint :: string
  s3_accessKey :: string
  s3_secretKey :: string
  s3_sessionToken :: string

text \<open>\<open>be_get\<close>: the error of the request, or the error of reading the body, or the body.\<close>

record bucket_env =
  be_secret :: "Secret result"
  be_get :: "s3_request \<Rightarrow> string result result"

definition pointerKey :: "string \<Rightarrow> string" where
  "pointerKey prefix =
     (if prefix \<noteq> [] then trimSuffix prefix ''/'' @ ''/'' @ ''deploy/current.json''
      else ''deploy/current.json'')"

definition trackingRegion :: "BucketSpec \<Rightarrow> string" where
  "trackingRegion spec =
     (if bk_region spec \<noteq> [] then bk_region spec
      else if bk_endpoint spec \<noteq> [] then defaultBucketRegion else ''us-east-1'')"

text \<open>\<open>json.Unmarshal(raw, &pointer)\<close>.\<close>

definition decodePointer :: "string \<Rightarrow> string option" where
  "decodePointer raw =
     (case json_parse raw of
        Some (JObj ms) \<Rightarrow> decode_field into_string [] (field_values ''version'' ms)
      | Some JNull \<Rightarrow> Some []
      | _ \<Rightarrow> None)"

definition currentBucketVersion :: "bucket_env \<Rightarrow> WorkerApp \<Rightarrow> string result" where
  "currentBucketVersion E app =
     (let spec = ws_bucket (wa_spec app); rest = trimPrefix (bk_name spec) ''s3://'';
          (bucket, prefix, _) = cut rest (CHR ''/''); key = pointerKey prefix
      in
      if \<not> hasPrefix (bk_name spec) ''s3://''
      then Inl (OtherError (''deploy tracking supports s3:// buckets only (got '' @ bk_name spec @ '')''))
      else if ws_deployTrackingSecretRef (wa_spec app) = []
      then Inl (OtherError ''deployTrackingSecretRef is required; ambient cloud credentials are never used'')
      else case be_secret E of
        Inl e \<Rightarrow> Inl (Wrapped ''reading tracking credentials'' e)
      | Inr secret \<Rightarrow>
          let accessKey = gm_index (sec_data secret) ''AWS_ACCESS_KEY_ID'';
              secretKey = gm_index (sec_data secret) ''AWS_SECRET_ACCESS_KEY''
          in if accessKey = [] \<or> secretKey = []
             then Inl (OtherError ''tracking Secret requires AWS_ACCESS_KEY_ID and AWS_SECRET_ACCESS_KEY'')
             else case be_get E \<lparr>s3_bucket = bucket, s3_key = key, s3_region = trackingRegion spec,
                            s3_endpoint = bk_endpoint spec, s3_accessKey = accessKey, s3_secretKey = secretKey,
                            s3_sessionToken = gm_index (sec_data secret) ''AWS_SESSION_TOKEN''\<rparr> of
               Inl e \<Rightarrow> Inl (Wrapped (''reading '' @ key) e)
             | Inr (Inl e) \<Rightarrow> Inl e
             | Inr (Inr body) \<Rightarrow>
                 let raw = take (65536 + 1) body in
                 if length raw > 65536 then Inl (OtherError ''deploy pointer exceeds 64 KiB'')
                 else case decodePointer raw of
                   None \<Rightarrow> Inl (Wrapped (''decoding '' @ key) json_error)
                 | Some version \<Rightarrow>
                     if version = [] then Inl (OtherError (key @ '' has no version'')) else Inr version)"

section \<open>The cache\<close>

record trackedVersion =
  tv_version :: string
  tv_fetchedAt :: int
  tv_identity :: string
  tv_failure :: "gerror option"

type_synonym tracker_key = "string \<times> string"
type_synonym tracker_cache = "(tracker_key \<times> trackedVersion) list"

record DeployTracker =
  dt_interval :: int
  dt_cache :: tracker_cache

definition NewDeployTracker :: "int \<Rightarrow> DeployTracker" where
  "NewDeployTracker interval =
     \<lparr>dt_interval = (if interval \<le> 0 then seconds 60 else interval), dt_cache = []\<rparr>"

definition tc_delete :: "tracker_key \<Rightarrow> tracker_cache \<Rightarrow> tracker_cache" where
  "tc_delete k c = filter (\<lambda>e. fst e \<noteq> k) c"

definition tc_put :: "tracker_key \<Rightarrow> trackedVersion \<Rightarrow> tracker_cache \<Rightarrow> tracker_cache" where
  "tc_put k v c = (k, v) # tc_delete k c"

definition Forget :: "tracker_key \<Rightarrow> DeployTracker \<Rightarrow> DeployTracker" where
  "Forget k t = t\<lparr>dt_cache := tc_delete k (dt_cache t)\<rparr>"

record tracker_env =
  te_secret :: "Secret result"
  te_bucket :: bucket_env
  te_nowCheck :: int
  te_nowEvict :: "tracker_key \<Rightarrow> int"
  te_nowStore :: int
  te_pick :: "tracker_cache \<Rightarrow> tracker_key"
  te_other :: "tracker_cache \<Rightarrow> tracker_cache"
  te_live :: "StatefulSet result"

definition app_key :: "WorkerApp \<Rightarrow> tracker_key" where
  "app_key app = (app_namespace app, app_name app)"

definition cacheLimit :: nat where
  "cacheLimit = 1024"

text \<open>The eviction before an insertion: first what is past its interval, then any one entry.\<close>

definition makeRoom :: "tracker_env \<Rightarrow> int \<Rightarrow> tracker_cache \<Rightarrow> tracker_cache" where
  "makeRoom E interval c =
     (if length c \<ge> cacheLimit then
        let c' = filter (\<lambda>e. te_nowEvict E (fst e) - tv_fetchedAt (snd e) < interval) c in
        if length c' \<ge> cacheLimit then tc_delete (te_pick E c') c' else c'
      else c)"

definition zero_Secret :: Secret where
  "zero_Secret = \<lparr>sec_uid = [], sec_resourceVersion = [], sec_data = []\<rparr>"

text \<open>Whose pointer a cached version is: application, bucket and credentials, digested.\<close>

definition trackingIdentity :: "platform \<Rightarrow> WorkerApp \<Rightarrow> Secret \<Rightarrow> string" where
  "trackingIdentity P app secret =
     hex (pf_sha256 P (pf_marshalIdentity P (om_uid (wa_meta app), ws_bucket (wa_spec app),
        ws_deployTrackingSecretRef (wa_spec app), sec_uid secret, sec_resourceVersion secret)))"

text \<open>
  \<open>pointerVersion\<close>: version, whether it is a previous read served because the fresh one
  failed, and the error; with the tracker it leaves behind.
\<close>

definition pointerVersion ::
  "platform \<Rightarrow> tracker_env \<Rightarrow> WorkerApp \<Rightarrow> DeployTracker
    \<Rightarrow> DeployTracker \<times> string \<times> bool \<times> gerror option" where
  "pointerVersion P E app t =
     (case (if ws_deployTrackingSecretRef (wa_spec app) \<noteq> [] then te_secret E else Inr zero_Secret) of
        Inl e \<Rightarrow> (t, [], False, Some e)
      | Inr secret \<Rightarrow>
          let identity = trackingIdentity P app secret;
              cached = (case map_of (dt_cache t) (app_key app) of
                          Some v \<Rightarrow> if tv_identity v = identity then Some v else None
                        | None \<Rightarrow> None);
              reread = (let (fresh, failure) =
                              (case currentBucketVersion (te_bucket E) app of
                                 Inr v \<Rightarrow> (v, None)
                               | Inl e \<Rightarrow> (case cached of Some v \<Rightarrow> tv_version v | None \<Rightarrow> [], Some e));
                            entry = \<lparr>tv_version = fresh, tv_fetchedAt = te_nowStore E,
                                     tv_identity = identity, tv_failure = failure\<rparr>
                        in (t\<lparr>dt_cache := tc_put (app_key app) entry
                                 (makeRoom E (dt_interval t) (te_other E (dt_cache t)))\<rparr>,
                            fresh, failure \<noteq> None \<and> fresh \<noteq> [], failure))
          in case cached of
               Some v \<Rightarrow>
                 if te_nowCheck E - tv_fetchedAt v < dt_interval t
                 then (t, tv_version v, tv_failure v \<noteq> None \<and> tv_version v \<noteq> [], tv_failure v)
                 else reread
             | None \<Rightarrow> reread)"

section \<open>The version a fleet should serve\<close>

definition condDeployTrackingReady :: string where
  "condDeployTrackingReady = ''DeployTrackingReady''"

definition liveTemplateVersion :: "StatefulSet result \<Rightarrow> string" where
  "liveTemplateVersion live =
     (case live of
        Inl _ \<Rightarrow> []
      | Inr sts \<Rightarrow> gm_index (pt_annotations (st_template sts)) appVersionAnnotation)"

abbreviation dq :: string where
  "dq \<equiv> [CHR 0x22]"

text \<open>The result: the tracker, the version, whether it is tracked, the conditions appended.\<close>

definition resolveAppVersion ::
  "platform \<Rightarrow> tracker_env \<Rightarrow> WorkerApp \<Rightarrow> DeployTracker
    \<Rightarrow> DeployTracker \<times> string \<times> bool \<times> Condition list" where
  "resolveAppVersion P E app t =
     (let spec = wa_spec app; pinned = ws_appVersion spec;
          notReady = (\<lambda>reason msg. [mk_condition condDeployTrackingReady ConditionFalse reason msg])
      in
      if \<not> trackableBucket app then
        (if pinned \<noteq> AppVersionAuto then (t, pinned, False, [])
         else (t, liveTemplateVersion (te_live E), False,
               notReady ''UnsupportedStore''
                 (''appVersion '' @ dq @ ''auto'' @ dq @ '' reads deploy/current.json over the S3 API only; pin appVersion for ''
                    @ bk_name (ws_bucket spec))))
      else if pinned \<noteq> AppVersionAuto then
        (if ws_deployTrackingSecretRef spec = [] then (t, pinned, False, [])
         else case pointerVersion P E app t of
           (t', current, _, failure) \<Rightarrow>
             (t', pinned, False,
              if failure = None \<and> current \<noteq> pinned
              then notReady ''VersionMismatch''
                     (''bucket deploy/current.json is '' @ current @ '' but spec.appVersion is '' @ pinned
                        @ ''; nodes load the bucket'' @ CHR 0x27 # ''s version'')
              else []))
      else case pointerVersion P E app t of
        (t', current, staleCache, failure) \<Rightarrow>
          (case failure of
             None \<Rightarrow> (t', current, True,
               [mk_condition condDeployTrackingReady ConditionTrue ''Tracking'' (''following '' @ current)])
           | Some e \<Rightarrow>
               if staleCache
               then (t', current, True, notReady ''BucketUnreachable''
                       (''holding last known version '' @ current @ '': '' @ Error e))
               else (t', liveTemplateVersion (te_live E), True, notReady ''BucketUnreachable'' (Error e))))"

section \<open>The cache stays well formed\<close>

text \<open>
  At most \<open>cacheLimit\<close> entries, one per fleet, and an entry without a failure has a version.
\<close>

definition cache_ok :: "tracker_cache \<Rightarrow> bool" where
  "cache_ok c \<longleftrightarrow> length c \<le> cacheLimit \<and> distinct (map fst c) \<and>
     (\<forall>e \<in> set c. tv_failure (snd e) = None \<longrightarrow> tv_version (snd e) \<noteq> [])"

abbreviation tracker_ok :: "DeployTracker \<Rightarrow> bool" where
  "tracker_ok t \<equiv> cache_ok (dt_cache t)"

lemma cache_ok_filter: "cache_ok c \<Longrightarrow> cache_ok (filter Q c)"
  by (auto simp: cache_ok_def distinct_map_filter intro: le_trans [OF length_filter_le])

lemma cache_ok_delete: "cache_ok c \<Longrightarrow> cache_ok (tc_delete k c)"
  unfolding tc_delete_def by (rule cache_ok_filter)

lemma length_tc_delete:
  "length (tc_delete k c) \<le> length c"
  "k \<in> fst ` set c \<Longrightarrow> length (tc_delete k c) < length c"
  unfolding tc_delete_def by (auto intro: length_filter_less)

lemma makeRoom_ok: "cache_ok c \<Longrightarrow> cache_ok (makeRoom E i c)"
  by (simp add: makeRoom_def Let_def cache_ok_filter cache_ok_delete)

text \<open>Go's iteration over a map that is not empty yields one of its keys.\<close>

definition pick_ok :: "tracker_env \<Rightarrow> bool" where
  "pick_ok E \<longleftrightarrow> (\<forall>c. c \<noteq> [] \<longrightarrow> te_pick E c \<in> fst ` set c)"

lemma makeRoom_length:
  assumes "cache_ok c" "pick_ok E"
  shows "length (makeRoom E i c) < cacheLimit"
proof (cases "length c < cacheLimit")
  case True
  then show ?thesis by (simp add: makeRoom_def)
next
  case False
  let ?c' = "filter (\<lambda>e. te_nowEvict E (fst e) - tv_fetchedAt (snd e) < i) c"
  have le: "length ?c' \<le> cacheLimit"
    using cache_ok_filter [OF assms(1)] by (simp add: cache_ok_def)
  show ?thesis
  proof (cases "length ?c' < cacheLimit")
    case True
    with False show ?thesis by (simp add: makeRoom_def Let_def)
  next
    case full: False
    then have "?c' \<noteq> []" by (auto simp: cacheLimit_def)
    with assms(2) have "length (tc_delete (te_pick E ?c') ?c') < length ?c'"
      unfolding pick_ok_def by (intro length_tc_delete(2)) blast
    with False full le show ?thesis by (simp add: makeRoom_def Let_def)
  qed
qed

lemma cache_ok_put:
  assumes "cache_ok c" "length c < cacheLimit" "tv_failure v = None \<longrightarrow> tv_version v \<noteq> []"
  shows "cache_ok (tc_put k v c)"
proof -
  have "length (tc_put k v c) \<le> cacheLimit"
    using length_tc_delete(1) [of k c] assms(2) by (simp add: tc_put_def)
  with cache_ok_delete [OF assms(1), of k] assms(3) show ?thesis
    by (auto simp: tc_put_def cache_ok_def tc_delete_def)
qed

lemma map_of_tc_put [simp]: "map_of (tc_put k v c) k = Some v"
  by (simp add: tc_put_def)

lemma currentBucketVersion_nonempty: "currentBucketVersion E app = Inr v \<Longrightarrow> v \<noteq> []"
  by (auto simp: currentBucketVersion_def Let_def split: prod.splits if_splits sum.splits option.splits)

section \<open>One read through the cache\<close>

definition trackingSecret :: "tracker_env \<Rightarrow> WorkerApp \<Rightarrow> Secret result" where
  "trackingSecret E app =
     (if ws_deployTrackingSecretRef (wa_spec app) \<noteq> [] then te_secret E else Inr zero_Secret)"

definition cached_entry :: "DeployTracker \<Rightarrow> WorkerApp \<Rightarrow> string \<Rightarrow> trackedVersion option" where
  "cached_entry t app identity =
     (case map_of (dt_cache t) (app_key app) of
        Some v \<Rightarrow> if tv_identity v = identity then Some v else None
      | None \<Rightarrow> None)"

definition fresh_read :: "tracker_env \<Rightarrow> WorkerApp \<Rightarrow> trackedVersion option \<Rightarrow> string \<times> gerror option" where
  "fresh_read E app cached =
     (case currentBucketVersion (te_bucket E) app of
        Inr v \<Rightarrow> (v, None)
      | Inl e \<Rightarrow> (case cached of Some v \<Rightarrow> tv_version v | None \<Rightarrow> [], Some e))"

definition stored ::
  "tracker_env \<Rightarrow> WorkerApp \<Rightarrow> DeployTracker \<Rightarrow> string \<Rightarrow> string \<times> gerror option \<Rightarrow> DeployTracker" where
  "stored E app t identity r =
     t\<lparr>dt_cache := tc_put (app_key app) \<lparr>tv_version = fst r, tv_fetchedAt = te_nowStore E,
         tv_identity = identity, tv_failure = snd r\<rparr> (makeRoom E (dt_interval t) (te_other E (dt_cache t)))\<rparr>"

definition hit :: "tracker_env \<Rightarrow> DeployTracker \<Rightarrow> trackedVersion option \<Rightarrow> bool" where
  "hit E t cached \<longleftrightarrow> (\<exists>v. cached = Some v \<and> te_nowCheck E - tv_fetchedAt v < dt_interval t)"

lemma pointerVersion_cases:
  "trackingSecret E app = Inl e \<Longrightarrow> pointerVersion P E app t = (t, [], False, Some e)"
  "trackingSecret E app = Inr secret \<Longrightarrow> cached_entry t app (trackingIdentity P app secret) = Some v \<Longrightarrow>
     hit E t (Some v) \<Longrightarrow>
     pointerVersion P E app t = (t, tv_version v, tv_failure v \<noteq> None \<and> tv_version v \<noteq> [], tv_failure v)"
  "trackingSecret E app = Inr secret \<Longrightarrow> cached_entry t app (trackingIdentity P app secret) = cached \<Longrightarrow>
     \<not> hit E t cached \<Longrightarrow> fresh_read E app cached = (fresh, failure) \<Longrightarrow>
     pointerVersion P E app t = (stored E app t (trackingIdentity P app secret) (fresh, failure),
       fresh, failure \<noteq> None \<and> fresh \<noteq> [], failure)"
  by (auto simp: pointerVersion_def trackingSecret_def cached_entry_def hit_def fresh_read_def stored_def Let_def
      split: option.splits sum.splits if_splits prod.splits)

text \<open>What \<open>te_other\<close> and \<open>te_pick\<close> of the environment respect.\<close>

definition tracker_env_ok :: "tracker_env \<Rightarrow> DeployTracker \<Rightarrow> bool" where
  "tracker_env_ok E t \<longleftrightarrow> pick_ok E \<and> cache_ok (te_other E (dt_cache t))"

lemma stored_ok:
  assumes "tracker_env_ok E t" "snd r = None \<longrightarrow> fst r \<noteq> []"
  shows "tracker_ok (stored E app t identity r)"
  using assms makeRoom_ok makeRoom_length
  by (auto simp: stored_def tracker_env_ok_def intro!: cache_ok_put)

lemma fresh_read_ok: "snd (fresh_read E app cached) = None \<longrightarrow> fst (fresh_read E app cached) \<noteq> []"
  using currentBucketVersion_nonempty by (auto simp: fresh_read_def split: sum.splits)

lemma cached_entry_ok:
  assumes "tracker_ok t" "cached_entry t app identity = Some v" "tv_failure v = None"
  shows "tv_version v \<noteq> []"
  using assms map_of_SomeD by (fastforce simp: cached_entry_def cache_ok_def split: option.splits if_splits)

text \<open>The three ways a read can end.\<close>

lemma pointerVersion_outcomes:
  obtains (unreadable) e where "trackingSecret E app = Inl e" "pointerVersion P E app t = (t, [], False, Some e)"
  | (cached) secret v where "trackingSecret E app = Inr secret"
      "cached_entry t app (trackingIdentity P app secret) = Some v" "hit E t (Some v)"
      "pointerVersion P E app t = (t, tv_version v, tv_failure v \<noteq> None \<and> tv_version v \<noteq> [], tv_failure v)"
  | (fresh) secret r where "trackingSecret E app = Inr secret"
      "r = fresh_read E app (cached_entry t app (trackingIdentity P app secret))"
      "pointerVersion P E app t = (stored E app t (trackingIdentity P app secret) r,
         fst r, snd r \<noteq> None \<and> fst r \<noteq> [], snd r)"
proof (cases "trackingSecret E app")
  case (Inl e)
  with pointerVersion_cases(1) unreadable show ?thesis by blast
next
  case (Inr secret)
  let ?id = "trackingIdentity P app secret"
  show ?thesis
  proof (cases "hit E t (cached_entry t app ?id)")
    case True
    then obtain v where "cached_entry t app ?id = Some v" by (auto simp: hit_def)
    with True Inr pointerVersion_cases(2) cached show ?thesis by metis
  next
    case False
    let ?r = "fresh_read E app (cached_entry t app ?id)"
    have "?r = (fst ?r, snd ?r)" by simp
    from fresh [OF Inr refl] pointerVersion_cases(3) [OF Inr refl False this] show ?thesis by simp
  qed
qed

section \<open>The interface the resolver relies on\<close>

locale pointer_source =
  fixes read :: "'s \<Rightarrow> 's \<times> string \<times> bool \<times> gerror option"
    and ready :: "'s \<Rightarrow> bool" and inv :: "'s \<Rightarrow> bool"
  assumes read_keeps: "inv s \<Longrightarrow> ready s \<Longrightarrow> inv (fst (read s))"
    and read_fresh: "inv s \<Longrightarrow> read s = (s', v, stale, None) \<Longrightarrow> v \<noteq> []"
    and read_stale: "read s = (s', v, stale, f) \<Longrightarrow> stale \<longleftrightarrow> f \<noteq> None \<and> v \<noteq> []"
begin

text \<open>A read names a version, or it fails and says that it has none to hold on to.\<close>

lemma version_or_none: "inv s \<Longrightarrow> read s = (s', v, stale, f) \<Longrightarrow> v \<noteq> [] \<or> (f \<noteq> None \<and> \<not> stale)"
  using read_fresh read_stale by (cases f) blast+

end

definition track :: "platform \<Rightarrow> WorkerApp \<Rightarrow> tracker_env \<times> DeployTracker
    \<Rightarrow> (tracker_env \<times> DeployTracker) \<times> string \<times> bool \<times> gerror option" where
  "track P app s = (case pointerVersion P (fst s) app (snd s) of (t, r) \<Rightarrow> ((fst s, t), r))"

lemma pointerVersion_ok:
  assumes "tracker_ok t" "tracker_env_ok E t"
  shows "tracker_ok (fst (pointerVersion P E app t))"
  by (cases rule: pointerVersion_outcomes [of E app P t]) (use assms stored_ok fresh_read_ok in auto)

lemma pointerVersion_fresh:
  assumes "tracker_ok t" "pointerVersion P E app t = (t', v, stale, None)"
  shows "v \<noteq> []"
  by (cases rule: pointerVersion_outcomes [of E app P t])
    (use assms cached_entry_ok fresh_read_ok in fastforce)+

lemma pointerVersion_stale:
  assumes "pointerVersion P E app t = (t', v, stale, f)"
  shows "stale \<longleftrightarrow> f \<noteq> None \<and> v \<noteq> []"
  by (cases rule: pointerVersion_outcomes [of E app P t]) (use assms in auto)

interpretation ps: pointer_source "track P app" "\<lambda>s. tracker_env_ok (fst s) (snd s)" "\<lambda>s. tracker_ok (snd s)"
  for P app
proof
  fix s s' v stale f
  show "tracker_ok (snd s) \<Longrightarrow> tracker_env_ok (fst s) (snd s) \<Longrightarrow> tracker_ok (snd (fst (track P app s)))"
    using pointerVersion_ok [of "snd s" "fst s" P app] by (auto simp: track_def split: prod.splits)
  show "tracker_ok (snd s) \<Longrightarrow> track P app s = (s', v, stale, None) \<Longrightarrow> v \<noteq> []"
    using pointerVersion_fresh [of "snd s" P "fst s" app] by (auto simp: track_def split: prod.splits)
  show "track P app s = (s', v, stale, f) \<Longrightarrow> stale \<longleftrightarrow> f \<noteq> None \<and> v \<noteq> []"
    using pointerVersion_stale [of P "fst s" app "snd s"] by (auto simp: track_def split: prod.splits)
qed

section \<open>Every tracker a manager can reach\<close>

lemma resolveAppVersion_tracker:
  "fst (resolveAppVersion P E app t) \<in> {t, fst (pointerVersion P E app t)}"
  by (auto simp: resolveAppVersion_def Let_def split: prod.splits option.splits)

text \<open>
  The trackers reachable by any interleaving of passes and deletions. In a pass, other passes
  may have run between the two critical sections: the cache found by the second one is the
  cache of a reachable tracker as well.
\<close>

inductive tracker_reachable :: "DeployTracker \<Rightarrow> bool" where
  start: "tracker_reachable (NewDeployTracker i)"
| forget: "tracker_reachable t \<Longrightarrow> tracker_reachable (Forget k t)"
| resolve: "tracker_reachable t \<Longrightarrow> pick_ok E \<Longrightarrow>
    tracker_reachable (t\<lparr>dt_cache := te_other E (dt_cache t)\<rparr>) \<Longrightarrow>
    tracker_reachable (fst (resolveAppVersion P E app t))"

lemma reachable_ok: "tracker_reachable t \<Longrightarrow> tracker_ok t"
proof (induction rule: tracker_reachable.induct)
  case (start i)
  show ?case by (simp add: NewDeployTracker_def cache_ok_def)
next
  case (forget t k)
  then show ?case by (simp add: Forget_def cache_ok_delete)
next
  case (resolve t E P app)
  then have "tracker_env_ok E t" by (simp add: tracker_env_ok_def)
  with pointerVersion_ok resolve.IH(1) show ?case
    using resolveAppVersion_tracker [of P E app t] by auto
qed

lemma buildPodTemplate_version:
  assumes "ws_deploymentPolicy (wa_spec app) \<noteq> ''InPlace''"
  shows "gm_index (pt_annotations (buildPodTemplate app h v)) appVersionAnnotation = v"
  using assms by (cases "v = []"; cases "h = []")
    (auto simp: buildPodTemplate_def Let_def gm_index_def appVersionAnnotation_def configHashAnnotation_def map_of_gm_set)

section \<open>Properties\<close>

text \<open>
  C29. Whatever the order of passes, deletions and concurrent reads, the cache of the tracker
  never holds more than 1024 entries, at most one per fleet, and an entry recorded without a
  failure always names a version.
\<close>

theorem tracker_bounded:
  assumes "tracker_reachable t"
  shows "length (dt_cache t) \<le> 1024 \<and> distinct (map fst (dt_cache t)) \<and>
    (map_of (dt_cache t) k = Some v \<and> tv_failure v = None \<longrightarrow> tv_version v \<noteq> [])"
  using reachable_ok [OF assms] map_of_SomeD by (fastforce simp: cache_ok_def cacheLimit_def)

text \<open>
  C32. A read within the polling interval of the previous one is answered from the cache:
  the object store is not asked again (any answer of it gives the same result), the result
  is the one recorded, failure included, and the cache does not change.
\<close>

theorem pointer_read_once:
  assumes "trackingSecret E app = Inr secret" "trackingSecret E' app = Inr secret"
    and "\<not> hit E t (cached_entry t app (trackingIdentity P app secret))"
    and "pointerVersion P E app t = (t', v, stale, f)"
    and "te_nowCheck E' - te_nowStore E < dt_interval t"
  shows "pointerVersion P (E'\<lparr>te_bucket := B\<rparr>) app t' = (t', v, stale, f)"
proof -
  let ?id = "trackingIdentity P app secret"
  let ?r = "fresh_read E app (cached_entry t app ?id)"
  have "pointerVersion P E app t = (stored E app t ?id ?r, fst ?r, snd ?r \<noteq> None \<and> fst ?r \<noteq> [], snd ?r)"
    using pointerVersion_cases(3) [OF assms(1) refl assms(3), of "fst ?r" "snd ?r"] by simp
  with assms(4) have t': "t' = stored E app t ?id ?r" "v = fst ?r" "f = snd ?r"
    "stale \<longleftrightarrow> f \<noteq> None \<and> v \<noteq> []" by auto
  obtain e where e: "cached_entry t' app ?id = Some e" "tv_version e = v" "tv_failure e = f"
    "tv_fetchedAt e = te_nowStore E"
    unfolding t'(1-3) by (simp add: cached_entry_def stored_def)
  have "dt_interval t' = dt_interval t" using t'(1) by (simp add: stored_def)
  with assms(5) e have h: "hit (E'\<lparr>te_bucket := B\<rparr>) t' (Some e)" by (simp add: hit_def)
  have "trackingSecret (E'\<lparr>te_bucket := B\<rparr>) app = Inr secret"
    using assms(2) by (simp add: trackingSecret_def split: if_splits)
  from pointerVersion_cases(2) [OF this e(1) h] show ?thesis using e(2,3) t'(4) by simp
qed


text \<open>
  C31. An unreachable bucket cannot start a rollout: in auto mode, when the pointer cannot be
  read and no version is held, the resolved version is the one of the live template, so the
  template built from it (with the same configuration) is the live template.
\<close>

theorem unreachable_bucket_keeps_template:
  assumes "ws_appVersion (wa_spec app) = AppVersionAuto" "trackableBucket app"
    and "pointerVersion P E app t = (t', held, stale, Some e)" "\<not> stale"
    and "te_live E = Inr sts" "st_template sts = buildPodTemplate app h v"
    and "ws_deploymentPolicy (wa_spec app) \<noteq> ''InPlace''"
    and "resolveAppVersion P E app t = (t'', version, tracking, conds)"
  shows "version = v \<and> tracking \<and> buildPodTemplate app h version = st_template sts"
proof -
  have "version = gm_index (pt_annotations (st_template sts)) appVersionAnnotation" "tracking"
    using assms by (auto simp: resolveAppVersion_def liveTemplateVersion_def Let_def)
  with assms(6) buildPodTemplate_version [OF assms(7)] show ?thesis by simp
qed

text \<open>
  A resolved version is never empty while the tracker works: in auto mode either the
  result names a version, or the pointer could not be read, nothing is held, and the
  \<open>DeployTrackingReady\<close> condition is reported as false.
\<close>

lemma resolve_names_version:
  assumes "tracker_reachable t" "resolveAppVersion P E app t = (t', version, True, conds)"
  shows "version \<noteq> [] \<or> (version = liveTemplateVersion (te_live E) \<and>
    (\<exists>msg. conds = [mk_condition condDeployTrackingReady ConditionFalse ''BucketUnreachable'' msg]))"
proof -
  obtain t1 v st f where pv: "pointerVersion P E app t = (t1, v, st, f)" by (metis prod.exhaust)
  then have tr: "track P app (E, t) = ((E, t1), v, st, f)" by (simp add: track_def)
  have "v \<noteq> [] \<or> (f \<noteq> None \<and> \<not> st)"
    using ps.version_or_none [of "(E, t)", OF _ tr] reachable_ok [OF assms(1)] by simp
  with assms(2) pv show ?thesis
    by (auto simp: resolveAppVersion_def Let_def split: if_splits option.splits)
qed

text \<open>
  Under the policy \<open>InPlace\<close> the live template carries no version, so the fallback for an
  unreachable bucket resolves to the empty version, whatever version the fleet serves.
\<close>

lemma inplace_fallback_empty:
  assumes "ws_deploymentPolicy (wa_spec app) = ''InPlace''"
    and "st_template sts = buildPodTemplate app h v"
  shows "liveTemplateVersion (Inr sts) = []"
  using assms by (auto simp: liveTemplateVersion_def buildPodTemplate_def Let_def gm_index_def
      appVersionAnnotation_def configHashAnnotation_def)

end
