(* ===== verification/Child_Objects.thy ===== *)
theory Child_Objects
  imports Scaling Go_Json
begin

text \<open>
  The child objects with linked types (\<open>src/internal/controller/workerapp_controller.go\<close>):
  \<open>reconcileAnnotations\<close>, \<open>ensureObject\<close> and \<open>ensureFoundation\<close> with the mutation it passes for
  every kind.

  \<open>ensureObject\<close> is generic in Go over \<open>client.Object\<close>; here it is polymorphic in the type of
  the object, with the accessors and the name of the kind in a record. The read fills a deep
  copy of the desired object, so its answer is a function of that copy: a cached read
  replaces it, an uncached one decodes over it.
\<close>

section \<open>Managed annotations\<close>

definition managedAnnotationsKey :: string where
  "managedAnnotationsKey = ''celld-operator.io/managed-annotations''"

definition legacyIngressKeys :: "string list" where
  "legacyIngressKeys = [nginxReadTimeout, nginxSendTimeout, clusterIssuerAnnotation]"

definition dropUnwanted :: "smap \<Rightarrow> string list \<Rightarrow> smap \<Rightarrow> smap" where
  "dropUnwanted desired keys annotations =
     foldl (\<lambda>a k. if map_of desired k = None then gm_del k a else a) annotations keys"

text \<open>The entries of the desired map the operator manages; its keys are in order.\<close>

definition managed :: "smap \<Rightarrow> smap" where
  "managed desired = filter (\<lambda>e. fst e \<noteq> managedAnnotationsKey) desired"

definition reconcileAnnotations :: "bool \<Rightarrow> objmeta \<Rightarrow> smap \<Rightarrow> objmeta" where
  "reconcileAnnotations isIngress obj desired =
     (let annotations = mergeStringMaps (om_annotations obj) [];
          keys = json_unmarshal_strings (gm_index annotations managedAnnotationsKey)
                 @ (if isIngress then legacyIngressKeys else []);
          kept = dropUnwanted desired keys annotations;
          merged = gm_copy kept (managed desired)
      in obj\<lparr>om_annotations :=
           gm_set managedAnnotationsKey (json_marshal_strings (map fst (managed desired))) merged\<rparr>)"

section \<open>One object\<close>

record 'a obj_kind =
  ok_goType :: string
  ok_meta :: "'a \<Rightarrow> objmeta"
  ok_setMeta :: "objmeta \<Rightarrow> 'a \<Rightarrow> 'a"
  ok_wrap :: "'a \<Rightarrow> kobject"
  ok_isService :: bool
  ok_isIngress :: bool

record 'a obj_env =
  ob_get :: "'a \<Rightarrow> 'a result"
  ob_create :: "'a \<Rightarrow> 'a result"
  ob_update :: "'a \<Rightarrow> gerror option"

text \<open>The mutation, then \<open>live.SetLabels(mergeStringMaps(...))\<close>.\<close>

definition ensured :: "'a obj_kind \<Rightarrow> ('a \<Rightarrow> 'a \<Rightarrow> 'a) \<Rightarrow> 'a \<Rightarrow> 'a \<Rightarrow> 'a" where
  "ensured K mutate live desired =
     (let x = mutate live desired; m = ok_meta K x in
      ok_setMeta K (m\<lparr>om_labels := mergeStringMaps (om_labels m) (om_labels (ok_meta K desired))\<rparr>) x)"

text \<open>The desired object before the read: managed annotations and the controller reference.\<close>

definition prepared :: "'a obj_kind \<Rightarrow> platform \<Rightarrow> WorkerApp \<Rightarrow> 'a \<Rightarrow> 'a result" where
  "prepared K P app desired =
     (let m0 = ok_meta K desired;
          m1 = (if ok_isService K \<or> ok_isIngress K
                then reconcileAnnotations (ok_isIngress K) m0 (om_annotations m0) else m0)
      in case pf_SetControllerReference P (wa_meta app) m1 of
           Inl e \<Rightarrow> Inl e
         | Inr m \<Rightarrow> Inr (ok_setMeta K m desired))"

text \<open>
  The result is the desired object as the caller sees it afterwards: a successful creation
  overwrites it with what the server stored.
\<close>

definition ensureObject ::
  "'a obj_kind \<Rightarrow> platform \<Rightarrow> 'a obj_env \<Rightarrow> WorkerApp \<Rightarrow> 'a \<Rightarrow> ('a \<Rightarrow> 'a \<Rightarrow> 'a) \<Rightarrow> 'a eff" where
  "ensureObject K P E app desired0 mutate =
     (case prepared K P app desired0 of
        Inl e \<Rightarrow> eff_fail e
      | Inr desired \<Rightarrow>
          (case ob_get E desired of
             Inl e \<Rightarrow>
               if IsNotFound e then ([Create (ok_wrap K desired)], ob_create E desired)
               else eff_fail e
           | Inr live \<Rightarrow>
               (case requireOwnership P app (ok_goType K) (ok_meta K live) of
                  Inl e \<Rightarrow> eff_fail e
                | Inr _ \<Rightarrow>
                    let live' = ensured K mutate live desired in
                    if live' = live then eff_return desired
                    else ([Update (ok_wrap K live')],
                          case ob_update E live' of None \<Rightarrow> Inr desired | Some e \<Rightarrow> Inl e))))"

section \<open>The kinds\<close>

definition saKind :: "ServiceAccount obj_kind" where
  "saKind = \<lparr>ok_goType = ''*v1.ServiceAccount'', ok_meta = sa_meta, ok_setMeta = (\<lambda>m x. x\<lparr>sa_meta := m\<rparr>),
     ok_wrap = KServiceAccount, ok_isService = False, ok_isIngress = False\<rparr>"

definition serviceKind :: "Service obj_kind" where
  "serviceKind = \<lparr>ok_goType = ''*v1.Service'', ok_meta = svc_meta, ok_setMeta = (\<lambda>m x. x\<lparr>svc_meta := m\<rparr>),
     ok_wrap = KService, ok_isService = True, ok_isIngress = False\<rparr>"

definition netpolKind :: "NetworkPolicy obj_kind" where
  "netpolKind = \<lparr>ok_goType = ''*v1.NetworkPolicy'', ok_meta = np_meta, ok_setMeta = (\<lambda>m x. x\<lparr>np_meta := m\<rparr>),
     ok_wrap = KNetworkPolicy, ok_isService = False, ok_isIngress = False\<rparr>"

definition pdbKind :: "PodDisruptionBudget obj_kind" where
  "pdbKind = \<lparr>ok_goType = ''*v1.PodDisruptionBudget'', ok_meta = pdb_meta, ok_setMeta = (\<lambda>m x. x\<lparr>pdb_meta := m\<rparr>),
     ok_wrap = KPodDisruptionBudget, ok_isService = False, ok_isIngress = False\<rparr>"

definition ingressKind :: "Ingress obj_kind" where
  "ingressKind = \<lparr>ok_goType = ''*v1.Ingress'', ok_meta = ing_meta, ok_setMeta = (\<lambda>m x. x\<lparr>ing_meta := m\<rparr>),
     ok_wrap = KIngress, ok_isService = False, ok_isIngress = True\<rparr>"

definition routeKind :: "HTTPRoute obj_kind" where
  "routeKind = \<lparr>ok_goType = ''*v1.HTTPRoute'', ok_meta = hr_meta, ok_setMeta = (\<lambda>m x. x\<lparr>hr_meta := m\<rparr>),
     ok_wrap = KHTTPRoute, ok_isService = False, ok_isIngress = False\<rparr>"

lemmas kind_defs = saKind_def serviceKind_def netpolKind_def pdbKind_def ingressKind_def routeKind_def

section \<open>The mutations\<close>

definition mutateServiceAccount :: "WorkerApp \<Rightarrow> ServiceAccount \<Rightarrow> ServiceAccount \<Rightarrow> ServiceAccount" where
  "mutateServiceAccount app live desired =
     (let wanted = om_annotations (sa_meta desired);
          merged = mergeStringMaps (om_annotations (sa_meta live)) wanted;
          trimmed = foldl (\<lambda>a key. if map_of wanted key = None \<and> bc_iamRole (app_credentials app) \<noteq> iamRoleAuto
                                    then gm_del key a else a)
                      merged [roleArnAnnotation, azureClientIDAnnotation]
      in live\<lparr>sa_meta := (sa_meta live)\<lparr>om_annotations := trimmed\<rparr>\<rparr>)"

definition mutateInternalService :: "Service \<Rightarrow> Service \<Rightarrow> Service" where
  "mutateInternalService live desired =
     live\<lparr>svc_selector := svc_selector desired, svc_ports := svc_ports desired,
          svc_publishNotReadyAddresses := svc_publishNotReadyAddresses desired\<rparr>"

text \<open>The node port of the last live port of that name.\<close>

definition keepNodePort :: "ServicePort list \<Rightarrow> ServicePort \<Rightarrow> ServicePort" where
  "keepNodePort live port =
     foldl (\<lambda>p l. if spt_name l = spt_name p then p\<lparr>spt_nodePort := spt_nodePort l\<rparr> else p) port live"

definition mutatePublicService :: "Service \<Rightarrow> Service \<Rightarrow> Service" where
  "mutatePublicService live desired =
     (let ports = (if svc_type desired = ''NodePort'' \<or> svc_type desired = ''LoadBalancer''
                   then map (keepNodePort (svc_ports live)) (svc_ports desired) else svc_ports desired)
      in live\<lparr>svc_selector := svc_selector desired, svc_ports := ports, svc_type := svc_type desired,
              svc_meta := reconcileAnnotations False (svc_meta live) (om_annotations (svc_meta desired))\<rparr>)"

definition mutateNetworkPolicy :: "NetworkPolicy \<Rightarrow> NetworkPolicy \<Rightarrow> NetworkPolicy" where
  "mutateNetworkPolicy live desired = desired\<lparr>np_meta := np_meta live\<rparr>"

definition mutatePDB :: "PodDisruptionBudget \<Rightarrow> PodDisruptionBudget \<Rightarrow> PodDisruptionBudget" where
  "mutatePDB live desired =
     live\<lparr>pdb_maxUnavailable := pdb_maxUnavailable desired, pdb_selector := pdb_selector desired\<rparr>"

definition mutateIngress :: "Ingress \<Rightarrow> Ingress \<Rightarrow> Ingress" where
  "mutateIngress live desired =
     desired\<lparr>ing_meta := reconcileAnnotations True (ing_meta live) (om_annotations (ing_meta desired))\<rparr>"

text \<open>The status of a route is not part of what is copied.\<close>

definition mutateHTTPRoute :: "HTTPRoute \<Rightarrow> HTTPRoute \<Rightarrow> HTTPRoute" where
  "mutateHTTPRoute live desired =
     desired\<lparr>hr_meta := hr_meta live, hr_parents := hr_parents live\<rparr>"

section \<open>The foundation\<close>

record foundation_env =
  fn_serviceAccount :: "ServiceAccount obj_env"
  fn_internal :: "Service obj_env"
  fn_public :: "Service obj_env"
  fn_netpol :: "NetworkPolicy obj_env"
  fn_pdb :: "PodDisruptionBudget obj_env"

definition condBucketCredentialsReady :: string where
  "condBucketCredentialsReady = ''BucketCredentialsReady''"

definition credentialsCondition :: "WorkerApp \<Rightarrow> Condition" where
  "credentialsCondition app =
     (if bc_iamRole (app_credentials app) = iamRoleAuto
      then mk_condition condBucketCredentialsReady ConditionFalse ''ProvisioningNotImplemented''
             (''iamRole: auto is not implemented; annotate ServiceAccount '' @ fleetName app
                @ '' with the role for prefix '' @ bk_name (ws_bucket (wa_spec app)))
      else mk_condition condBucketCredentialsReady ConditionTrue ''Configured'' [])"

text \<open>\<open>if err := ...; err != nil { return fmt.Errorf("name: %w", err) }\<close>\<close>

definition stage :: "string \<Rightarrow> 'a eff \<Rightarrow> unit eff" where
  "stage name m = (fst m, case snd m of Inl e \<Rightarrow> Inl (Wrapped name e) | Inr _ \<Rightarrow> Inr ())"

definition ensureFoundation ::
  "platform \<Rightarrow> foundation_env \<Rightarrow> WorkerApp \<Rightarrow> string \<Rightarrow> Condition list eff" where
  "ensureFoundation P E app operatorNamespace =
     eff_bind (stage ''service account''
       (ensureObject saKind P (fn_serviceAccount E) app (buildServiceAccount app) (mutateServiceAccount app))) (\<lambda>_.
     eff_bind (stage ''internal service''
       (ensureObject serviceKind P (fn_internal E) app (buildInternalService app) mutateInternalService)) (\<lambda>_.
     eff_bind (stage ''public service''
       (ensureObject serviceKind P (fn_public E) app (buildPublicService app) mutatePublicService)) (\<lambda>_.
     eff_bind (stage ''network policy''
       (ensureObject netpolKind P (fn_netpol E) app (buildNetworkPolicy app operatorNamespace) mutateNetworkPolicy)) (\<lambda>_.
     eff_bind (stage ''pod disruption budget''
       (ensureObject pdbKind P (fn_pdb E) app (buildPDB app) mutatePDB)) (\<lambda>_.
     eff_return [credentialsCondition app])))))"

section \<open>What the annotations become\<close>

definition meta_ok :: "objmeta \<Rightarrow> bool" where
  "meta_ok m \<longleftrightarrow> gm_wf (om_labels m) \<and> gm_wf (om_annotations m)"

lemma gm_wf_filter: "gm_wf m \<Longrightarrow> gm_wf (filter Q m)"
  by (simp add: gm_wf_def sorted_wrt_map sorted_wrt_filter)

lemma gm_wf_managed [simp, intro]: "gm_wf d \<Longrightarrow> gm_wf (managed d)"
  unfolding managed_def by (rule gm_wf_filter)

lemma map_of_managed:
  "map_of (managed d) k = (if k = managedAnnotationsKey then None else map_of d k)"
  unfolding managed_def by (induction d) auto

lemma mergeStringMaps_Nil [simp]: "gm_wf m \<Longrightarrow> mergeStringMaps m [] = m"
  by (rule gm.ext) (simp_all add: map_of_mergeStringMaps)

lemma dropUnwanted_wf [simp, intro]: "gm_wf a \<Longrightarrow> gm_wf (dropUnwanted d keys a)"
  unfolding dropUnwanted_def by (induction keys arbitrary: a) auto

lemma map_of_dropUnwanted:
  "gm_wf a \<Longrightarrow> map_of (dropUnwanted d keys a) k =
     (if k \<in> set keys \<and> map_of d k = None then None else map_of a k)"
  unfolding dropUnwanted_def
  by (induction keys arbitrary: a) (auto simp: map_of_gm_del)

text \<open>The keys a pass may remove: those recorded by the previous pass, and legacy ones.\<close>

definition inventory :: "bool \<Rightarrow> smap \<Rightarrow> string list" where
  "inventory isIngress annotations =
     json_unmarshal_strings (gm_index annotations managedAnnotationsKey)
     @ (if isIngress then legacyIngressKeys else [])"

lemma reconcileAnnotations_lookup:
  assumes "meta_ok obj" "gm_wf desired"
  shows "map_of (om_annotations (reconcileAnnotations isIngress obj desired)) k =
    (if k = managedAnnotationsKey then Some (json_marshal_strings (map fst (managed desired)))
     else case map_of desired k of
       Some v \<Rightarrow> Some v
     | None \<Rightarrow> if k \<in> set (inventory isIngress (om_annotations obj)) then None else map_of (om_annotations obj) k)"
  using assms
  by (auto simp: reconcileAnnotations_def Let_def meta_ok_def map_of_gm_set map_of_gm_copy map_of_managed
      map_of_dropUnwanted inventory_def split: option.split)

lemma reconcileAnnotations_wf:
  assumes "meta_ok obj" "gm_wf desired"
  shows "gm_wf (om_annotations (reconcileAnnotations isIngress obj desired))"
  using assms by (simp add: reconcileAnnotations_def Let_def meta_ok_def)

lemma reconcileAnnotations_other [simp]:
  "om_labels (reconcileAnnotations i m d) = om_labels m"
  "om_ownerRefs (reconcileAnnotations i m d) = om_ownerRefs m"
  "om_name (reconcileAnnotations i m d) = om_name m"
  by (simp_all add: reconcileAnnotations_def Let_def)

lemma reconcileAnnotations_labels:
  "reconcileAnnotations i (m\<lparr>om_labels := l\<rparr>) d = (reconcileAnnotations i m d)\<lparr>om_labels := l\<rparr>"
  by (simp add: reconcileAnnotations_def Let_def)

text \<open>Annotation keys are ASCII, which the API server enforces.\<close>

definition keys_ascii :: "smap \<Rightarrow> bool" where
  "keys_ascii d \<longleftrightarrow> (\<forall>k \<in> set (map fst d). ascii k)"

lemma inventory_reconciled:
  assumes "meta_ok obj" "gm_wf desired" "keys_ascii desired"
  shows "inventory isIngress (om_annotations (reconcileAnnotations isIngress' obj desired)) =
    map fst (managed desired) @ (if isIngress then legacyIngressKeys else [])"
proof -
  have "\<forall>k \<in> set (map fst (managed desired)). ascii k"
    using assms(3) by (auto simp: keys_ascii_def managed_def)
  from json_marshal_strings_readback [OF this] show ?thesis
    by (simp add: inventory_def gm_index_def reconcileAnnotations_lookup [OF assms(1,2)])
qed

lemma meta_ok_reconciled: "meta_ok obj \<Longrightarrow> gm_wf desired \<Longrightarrow> meta_ok (reconcileAnnotations i obj desired)"
  using reconcileAnnotations_wf by (simp add: meta_ok_def)

lemma objmeta_eqI:
  "a\<lparr>om_annotations := x\<rparr> = b\<lparr>om_annotations := x\<rparr> \<Longrightarrow> om_annotations a = om_annotations b \<Longrightarrow> a = (b :: objmeta)"
  by (cases a; cases b) simp

lemma reconcileAnnotations_rest:
  "(reconcileAnnotations i m d)\<lparr>om_annotations := x\<rparr> = m\<lparr>om_annotations := x\<rparr>"
  by (simp add: reconcileAnnotations_def Let_def)

lemma managed_fst: "k \<in> set (map fst (managed d)) \<Longrightarrow> map_of d k \<noteq> None"
  by (auto simp: managed_def map_of_eq_None_iff)

lemma reconcileAnnotations_idem:
  assumes "meta_ok obj" "gm_wf desired" "keys_ascii desired"
  shows "reconcileAnnotations i (reconcileAnnotations i obj desired) desired = reconcileAnnotations i obj desired"
proof (rule objmeta_eqI)
  note ok = meta_ok_reconciled [OF assms(1,2), of i]
  show "om_annotations (reconcileAnnotations i (reconcileAnnotations i obj desired) desired) =
      om_annotations (reconcileAnnotations i obj desired)"
  proof (rule gm.ext)
    fix k
    have "map_of (om_annotations (reconcileAnnotations i obj desired)) k = None"
      if "k \<in> set (inventory i (om_annotations (reconcileAnnotations i obj desired)))"
        "map_of desired k = None" "k \<noteq> managedAnnotationsKey"
    proof -
      from that(1) have "k \<in> set (map fst (managed desired)) \<or> k \<in> set (if i then legacyIngressKeys else [])"
        unfolding inventory_reconciled [OF assms] by auto
      with managed_fst [of k desired] that(2) have "k \<in> set (inventory i (om_annotations obj))"
        by (auto simp: inventory_def split: if_splits)
      with that(2,3) show ?thesis by (simp add: reconcileAnnotations_lookup [OF assms(1,2)])
    qed
    then show "map_of (om_annotations (reconcileAnnotations i (reconcileAnnotations i obj desired) desired)) k =
        map_of (om_annotations (reconcileAnnotations i obj desired)) k"
      unfolding reconcileAnnotations_lookup [OF ok assms(2)]
      by (auto simp: reconcileAnnotations_lookup [OF assms(1,2)] split: option.split)
  qed (use reconcileAnnotations_wf [OF ok assms(2)] reconcileAnnotations_wf [OF assms(1,2)] in auto)
qed (simp add: reconcileAnnotations_rest)

section \<open>Ownership of what is written\<close>

fun kobject_meta :: "kobject \<Rightarrow> objmeta" where
  "kobject_meta (KStatefulSet x) = st_meta x"
| "kobject_meta (KServiceAccount x) = sa_meta x"
| "kobject_meta (KService x) = svc_meta x"
| "kobject_meta (KNetworkPolicy x) = np_meta x"
| "kobject_meta (KPodDisruptionBudget x) = pdb_meta x"
| "kobject_meta (KIngress x) = ing_meta x"
| "kobject_meta (KHTTPRoute x) = hr_meta x"
| "kobject_meta (KUnstructured x) = un_meta x"

text \<open>
  A created object carries the controller reference just set; an object updated or deleted
  is controlled by the application.
\<close>

fun owned_request :: "platform \<Rightarrow> WorkerApp \<Rightarrow> request \<Rightarrow> bool" where
  "owned_request P app (Create k) \<longleftrightarrow> (\<exists>m. pf_SetControllerReference P (wa_meta app) m = Inr (kobject_meta k))"
| "owned_request P app (Update k) \<longleftrightarrow> pf_IsControlledBy P (kobject_meta k) (wa_meta app)"
| "owned_request P app (Delete k) \<longleftrightarrow> pf_IsControlledBy P (kobject_meta k) (wa_meta app)"

text \<open>Documented behaviour of \<open>metav1.IsControlledBy\<close>: the owner references decide.\<close>

definition owner_refs_decide :: "platform \<Rightarrow> bool" where
  "owner_refs_decide P \<longleftrightarrow> (\<forall>m m' ow. om_ownerRefs m = om_ownerRefs m' \<longrightarrow>
     pf_IsControlledBy P m ow = pf_IsControlledBy P m' ow)"

section \<open>Objects that converge\<close>

text \<open>
  The contract of a kind of object and of the mutation \<open>ensureObject\<close> is called with: the
  metadata is a field of its own; the mutation leaves owner references and labels alone; and
  applied again to its own result (with other labels) it changes nothing.
\<close>

locale object_kind =
  fixes K :: "'a obj_kind"
  assumes meta_set: "ok_meta K (ok_setMeta K m x) = m"
    and set_meta: "ok_setMeta K (ok_meta K x) x = x"
    and set_set: "ok_setMeta K m (ok_setMeta K m' x) = ok_setMeta K m x"
    and wrap_meta: "kobject_meta (ok_wrap K x) = ok_meta K x"
begin

definition relabel :: "smap \<Rightarrow> 'a \<Rightarrow> 'a" where
  "relabel l x = ok_setMeta K ((ok_meta K x)\<lparr>om_labels := l\<rparr>) x"

lemma relabel_meta: "ok_meta K (relabel l x) = (ok_meta K x)\<lparr>om_labels := l\<rparr>"
  by (simp add: relabel_def meta_set)

lemma relabel_relabel: "relabel l (relabel l' x) = relabel l x"
  by (simp add: relabel_def meta_set set_set)

lemma relabel_same: "om_labels (ok_meta K x) = l \<Longrightarrow> relabel l x = x"
  by (auto simp: relabel_def set_meta)

end

locale object_mutation = object_kind K for K :: "'a obj_kind" +
  fixes mutate :: "'a \<Rightarrow> 'a \<Rightarrow> 'a" and good :: "'a \<Rightarrow> bool"
  assumes mutate_owners: "om_ownerRefs (ok_meta K (mutate l d)) = om_ownerRefs (ok_meta K l)"
    and mutate_labels: "om_labels (ok_meta K (mutate l d)) = om_labels (ok_meta K l)"
    and mutate_again: "good d \<Longrightarrow> meta_ok (ok_meta K l) \<Longrightarrow>
      mutate (ok_setMeta K ((ok_meta K (mutate l d))\<lparr>om_labels := x\<rparr>) (mutate l d)) d =
        ok_setMeta K ((ok_meta K (mutate l d))\<lparr>om_labels := x\<rparr>) (mutate l d)"
begin

lemma ensured_relabel:
  "ensured K mutate l d = relabel (mergeStringMaps (om_labels (ok_meta K l)) (om_labels (ok_meta K d))) (mutate l d)"
  by (simp add: ensured_def relabel_def Let_def mutate_labels)

lemma ensured_owners: "om_ownerRefs (ok_meta K (ensured K mutate l d)) = om_ownerRefs (ok_meta K l)"
  by (simp add: ensured_relabel relabel_meta mutate_owners)

lemma ensured_again:
  assumes "good d" "meta_ok (ok_meta K l)" "gm_wf (om_labels (ok_meta K d))"
  shows "ensured K mutate (ensured K mutate l d) d = ensured K mutate l d"
proof -
  let ?m = "mergeStringMaps (om_labels (ok_meta K l)) (om_labels (ok_meta K d))"
  have lab: "om_labels (ok_meta K (ensured K mutate l d)) = ?m"
    by (simp add: ensured_relabel relabel_meta)
  have "mutate (ensured K mutate l d) d = ensured K mutate l d"
    using mutate_again [OF assms(1,2)] by (simp add: ensured_relabel relabel_def)
  moreover have "mergeStringMaps ?m (om_labels (ok_meta K d)) = ?m"
    using assms by (intro mergeStringMaps_absorb mergeStringMaps_subset) (auto simp: meta_ok_def)
  ultimately show ?thesis
    using lab by (simp add: ensured_relabel [of "ensured K mutate l d"] relabel_same)
qed

text \<open>A pass over what a pass left reads, compares, and writes nothing.\<close>

lemma ensureObject_quiet:
  assumes "prepared K P app d0 = Inr d" "ob_get E d = Inr (ensured K mutate l d)"
    and "owner_refs_decide P" "pf_IsControlledBy P (ok_meta K l) (wa_meta app)"
    and "good d" "meta_ok (ok_meta K l)" "gm_wf (om_labels (ok_meta K d))"
  shows "ensureObject K P E app d0 mutate = ([], Inr d)"
proof -
  have "pf_IsControlledBy P (ok_meta K (ensured K mutate l d)) (wa_meta app)"
    using assms(3,4) ensured_owners unfolding owner_refs_decide_def by metis
  with assms(1,2) ensured_again [OF assms(5-7)] show ?thesis
    by (simp add: ensureObject_def requireOwnership_def)
qed

text \<open>Whatever is written carries the application's controller reference.\<close>

lemma ensureObject_owned:
  assumes "owner_refs_decide P" "r \<in> set (fst (ensureObject K P E app d0 mutate))"
  shows "owned_request P app r"
proof (cases "prepared K P app d0")
  case (Inl e)
  with assms show ?thesis by (simp add: ensureObject_def)
next
  case (Inr d)
  then have created: "\<exists>m. pf_SetControllerReference P (wa_meta app) m = Inr (ok_meta K d)"
    by (auto simp: prepared_def Let_def meta_set split: sum.splits)
  show ?thesis
  proof (cases "ob_get E d")
    case Inl
    with Inr assms(2) created show ?thesis
      by (auto simp: ensureObject_def wrap_meta split: if_splits)
  next
    case live: (Inr l)
    then have "r = Update (ok_wrap K (ensured K mutate l d))" "pf_IsControlledBy P (ok_meta K l) (wa_meta app)"
      using Inr assms(2) by (auto simp: ensureObject_def requireOwnership_def Let_def split: if_splits)
    with assms(1) show ?thesis
      using ensured_owners by (simp add: wrap_meta) (metis owner_refs_decide_def)
  qed
qed

end

interpretation sak: object_kind saKind by unfold_locales (simp_all add: kind_defs)
interpretation svk: object_kind serviceKind by unfold_locales (simp_all add: kind_defs)
interpretation npk: object_kind netpolKind by unfold_locales (simp_all add: kind_defs)
interpretation pdk: object_kind pdbKind by unfold_locales (simp_all add: kind_defs)
interpretation igk: object_kind ingressKind by unfold_locales (simp_all add: kind_defs)
interpretation hrk: object_kind routeKind by unfold_locales (simp_all add: kind_defs)

lemma keepNodePort_alt:
  "keepNodePort ls p = p\<lparr>spt_nodePort := (case find (\<lambda>l. spt_name l = spt_name p) (rev ls) of
     Some l \<Rightarrow> spt_nodePort l | None \<Rightarrow> spt_nodePort p)\<rparr>"
  unfolding keepNodePort_def
  by (induction ls arbitrary: p rule: rev_induct) (auto simp: foldl_append)

lemma keepNodePort_name [simp]: "spt_name (keepNodePort ls p) = spt_name p"
  by (simp add: keepNodePort_alt)

lemma find_unique:
  assumes "distinct (map f xs)" "x \<in> set xs"
  shows "find (\<lambda>y. f y = f x) xs = Some x"
  using assms by (induction xs) (auto simp: image_iff)

lemma keepNodePort_again:
  assumes "distinct (map spt_name ds)" "d \<in> set ds"
  shows "keepNodePort (map (keepNodePort ls) ds) d = keepNodePort ls d"
proof -
  let ?ps = "rev (map (keepNodePort ls) ds)"
  have "distinct (map spt_name ?ps)" using assms(1) by (simp add: rev_map [symmetric] comp_def)
  from find_unique [OF this, of "keepNodePort ls d"] assms(2)
  have "find (\<lambda>l. spt_name l = spt_name d) ?ps = Some (keepNodePort ls d)" by simp
  then show ?thesis by (simp add: keepNodePort_alt [of "map (keepNodePort ls) ds"]) (simp add: keepNodePort_alt)
qed

interpretation sam: object_mutation saKind "mutateServiceAccount app" "\<lambda>d. gm_wf (om_annotations (sa_meta d))"
  for app
proof unfold_locales
  fix l d :: ServiceAccount and x
  show "om_ownerRefs (ok_meta saKind (mutateServiceAccount app l d)) = om_ownerRefs (ok_meta saKind l)"
    "om_labels (ok_meta saKind (mutateServiceAccount app l d)) = om_labels (ok_meta saKind l)"
    by (simp_all add: kind_defs mutateServiceAccount_def Let_def)
  assume wf: "gm_wf (om_annotations (sa_meta d))" "meta_ok (ok_meta saKind l)"
  let ?w = "om_annotations (sa_meta d)"
  let ?drop = "\<lambda>a. foldl (\<lambda>a key. if map_of ?w key = None \<and> bc_iamRole (app_credentials app) \<noteq> iamRoleAuto
      then gm_del key a else a) a [roleArnAnnotation, azureClientIDAnnotation]"
  let ?t = "?drop (mergeStringMaps (om_annotations (sa_meta l)) ?w)"
  have t: "gm_wf ?t" by auto
  have "?drop (mergeStringMaps ?t ?w) = ?t"
    by (rule gm.ext) (use wf t in \<open>auto simp: kind_defs meta_ok_def map_of_gm_del map_of_mergeStringMaps split: option.split\<close>)
  then show "mutateServiceAccount app (ok_setMeta saKind ((ok_meta saKind (mutateServiceAccount app l d))\<lparr>om_labels := x\<rparr>)
        (mutateServiceAccount app l d)) d =
      ok_setMeta saKind ((ok_meta saKind (mutateServiceAccount app l d))\<lparr>om_labels := x\<rparr>) (mutateServiceAccount app l d)"
    by (simp add: kind_defs mutateServiceAccount_def Let_def del: foldl.simps foldl_Cons)
qed

interpretation ism: object_mutation serviceKind mutateInternalService "\<lambda>_. True"
  by unfold_locales (simp_all add: kind_defs mutateInternalService_def)

interpretation npm: object_mutation netpolKind mutateNetworkPolicy "\<lambda>_. True"
  by unfold_locales (simp_all add: kind_defs mutateNetworkPolicy_def)

interpretation pdm: object_mutation pdbKind mutatePDB "\<lambda>_. True"
  by unfold_locales (simp_all add: kind_defs mutatePDB_def)

interpretation hrm: object_mutation routeKind mutateHTTPRoute "\<lambda>_. True"
  by unfold_locales (simp_all add: kind_defs mutateHTTPRoute_def)

definition annotations_ok :: "objmeta \<Rightarrow> bool" where
  "annotations_ok m \<longleftrightarrow> gm_wf (om_annotations m) \<and> keys_ascii (om_annotations m)"

interpretation psm: object_mutation serviceKind mutatePublicService
  "\<lambda>d. annotations_ok (svc_meta d) \<and> distinct (map spt_name (svc_ports d))"
  by unfold_locales
    (auto simp: kind_defs mutatePublicService_def Let_def annotations_ok_def reconcileAnnotations_labels
      reconcileAnnotations_idem keepNodePort_again)

interpretation igm: object_mutation ingressKind mutateIngress "\<lambda>d. annotations_ok (ing_meta d)"
  by unfold_locales
    (auto simp: kind_defs mutateIngress_def annotations_ok_def reconcileAnnotations_labels reconcileAnnotations_idem)

section \<open>Properties\<close>

text \<open>
  Documented behaviour of \<open>ctrl.SetControllerReference\<close> on an object without owners: it sets
  the owner references and nothing else.
\<close>

definition sets_owner_only :: "platform \<Rightarrow> bool" where
  "sets_owner_only P \<longleftrightarrow> (\<forall>ow m. om_ownerRefs m = [] \<longrightarrow>
     (\<exists>r. pf_SetControllerReference P ow m = Inr (m\<lparr>om_ownerRefs := r\<rparr>)))"

lemma gm_wf_fleetLabels [simp]: "gm_wf (fleetLabels app)"
  by (simp add: fleetLabels_def)

lemma ascii_managedKey: "ascii managedAnnotationsKey"
  by (simp add: ascii_def managedAnnotationsKey_def)

lemma keys_ascii_reconciled:
  assumes "meta_ok m" "gm_wf d" "keys_ascii d" "keys_ascii (om_annotations m)"
  shows "keys_ascii (om_annotations (reconcileAnnotations i m d))"
proof -
  have "ascii k" if "map_of (om_annotations (reconcileAnnotations i m d)) k = Some v" for k v
  proof (cases "k = managedAnnotationsKey")
    case False
    with that have "map_of d k \<noteq> None \<or> map_of (om_annotations m) k \<noteq> None"
      by (auto simp: reconcileAnnotations_lookup [OF assms(1,2)] split: option.splits if_splits)
    with assms(3,4) show ?thesis by (auto simp: keys_ascii_def dest!: map_of_SomeD)
  qed (simp add: ascii_managedKey)
  then show ?thesis
    unfolding keys_ascii_def by (metis domIff dom_map_of_conv_image_fst image_set option.exhaust)
qed

lemma prepared_ok:
  assumes "sets_owner_only P" "om_ownerRefs (ok_meta K d) = []"
  obtains r where "prepared K P app d = Inr (ok_setMeta K ((if ok_isService K \<or> ok_isIngress K
    then reconcileAnnotations (ok_isIngress K) (ok_meta K d) (om_annotations (ok_meta K d))
    else ok_meta K d)\<lparr>om_ownerRefs := r\<rparr>) d)"
proof -
  let ?m = "if ok_isService K \<or> ok_isIngress K
    then reconcileAnnotations (ok_isIngress K) (ok_meta K d) (om_annotations (ok_meta K d)) else ok_meta K d"
  have "om_ownerRefs ?m = []" using assms(2) by simp
  with assms(1) obtain r where "pf_SetControllerReference P (wa_meta app) ?m = Inr (?m\<lparr>om_ownerRefs := r\<rparr>)"
    unfolding sets_owner_only_def by blast
  then show thesis by (intro that [of r]) (simp add: prepared_def Let_def)
qed

text \<open>The live object is the application's own, and its maps are maps.\<close>

definition own_live :: "platform \<Rightarrow> WorkerApp \<Rightarrow> objmeta \<Rightarrow> bool" where
  "own_live P app m \<longleftrightarrow> pf_IsControlledBy P m (wa_meta app) \<and> meta_ok m"

lemma stage_ok [simp]: "stage name ([], Inr x) = ([], Inr ())"
  by (simp add: stage_def)

lemma serviceAccount_quiet:
  assumes "sets_owner_only P" "owner_refs_decide P" "own_live P app (sa_meta l)"
    and "ob_get E = (\<lambda>d. Inr (ensured saKind (mutateServiceAccount app) l d))"
  shows "\<exists>d. ensureObject saKind P E app (buildServiceAccount app) (mutateServiceAccount app) = ([], Inr d)"
proof -
  obtain r where d: "prepared saKind P app (buildServiceAccount app) =
      Inr ((buildServiceAccount app)\<lparr>sa_meta := (sa_meta (buildServiceAccount app))\<lparr>om_ownerRefs := r\<rparr>\<rparr>)"
    by (rule prepared_ok [OF assms(1), of saKind "buildServiceAccount app" app])
      (simp_all add: kind_defs buildServiceAccount_def new_meta_def Let_def)
  show ?thesis
    by (rule exI, rule sam.ensureObject_quiet [OF d _ assms(2)])
      (use assms(3,4) in \<open>auto simp: kind_defs own_live_def buildServiceAccount_def new_meta_def Let_def\<close>)
qed

lemma internalService_quiet:
  assumes "sets_owner_only P" "owner_refs_decide P" "own_live P app (svc_meta l)"
    and "ob_get E = (\<lambda>d. Inr (ensured serviceKind mutateInternalService l d))"
  shows "\<exists>d. ensureObject serviceKind P E app (buildInternalService app) mutateInternalService = ([], Inr d)"
proof -
  obtain m where d: "prepared serviceKind P app (buildInternalService app) = Inr ((buildInternalService app)\<lparr>svc_meta := m\<rparr>)"
      "om_labels m = fleetLabels app"
    by (rule prepared_ok [OF assms(1), of serviceKind "buildInternalService app" app])
      (simp_all add: kind_defs buildInternalService_def new_meta_def)
  show ?thesis
    by (rule exI, rule ism.ensureObject_quiet [OF d(1) _ assms(2)])
      (use assms(3,4) d(2) in \<open>auto simp: kind_defs own_live_def\<close>)
qed

lemma publicService_quiet:
  assumes "sets_owner_only P" "owner_refs_decide P" "own_live P app (svc_meta l)"
    and "ob_get E = (\<lambda>d. Inr (ensured serviceKind mutatePublicService l d))"
    and "annotations_ok (svc_meta (buildPublicService app))"
  shows "\<exists>d. ensureObject serviceKind P E app (buildPublicService app) mutatePublicService = ([], Inr d)"
proof -
  let ?m = "svc_meta (buildPublicService app)"
  have m: "meta_ok ?m" "gm_wf (om_annotations ?m)" "keys_ascii (om_annotations ?m)"
    using assms(5) by (auto simp: annotations_ok_def meta_ok_def buildPublicService_def new_meta_def Let_def)
  obtain r where d: "prepared serviceKind P app (buildPublicService app) = Inr ((buildPublicService app)\<lparr>svc_meta :=
      (reconcileAnnotations False ?m (om_annotations ?m))\<lparr>om_ownerRefs := r\<rparr>\<rparr>)"
    by (rule prepared_ok [OF assms(1), of serviceKind "buildPublicService app" app])
      (simp_all add: kind_defs buildPublicService_def new_meta_def Let_def)
  show ?thesis
    by (rule exI, rule psm.ensureObject_quiet [OF d _ assms(2)])
      (use assms(3,4) m keys_ascii_reconciled [OF m m(3)] reconcileAnnotations_wf [OF m(1,2)] in
        \<open>auto simp: kind_defs own_live_def annotations_ok_def buildPublicService_def new_meta_def Let_def\<close>)
qed

lemma networkPolicy_quiet:
  assumes "sets_owner_only P" "owner_refs_decide P" "own_live P app (np_meta l)"
    and "ob_get E = (\<lambda>d. Inr (ensured netpolKind mutateNetworkPolicy l d))"
  shows "\<exists>d. ensureObject netpolKind P E app (buildNetworkPolicy app ns) mutateNetworkPolicy = ([], Inr d)"
proof -
  obtain r where d: "prepared netpolKind P app (buildNetworkPolicy app ns) =
      Inr ((buildNetworkPolicy app ns)\<lparr>np_meta := (np_meta (buildNetworkPolicy app ns))\<lparr>om_ownerRefs := r\<rparr>\<rparr>)"
    by (rule prepared_ok [OF assms(1), of netpolKind "buildNetworkPolicy app ns" app])
      (simp_all add: kind_defs buildNetworkPolicy_def new_meta_def)
  show ?thesis
    by (rule exI, rule npm.ensureObject_quiet [OF d _ assms(2)])
      (use assms(3,4) in \<open>auto simp: kind_defs own_live_def buildNetworkPolicy_def new_meta_def\<close>)
qed

lemma disruptionBudget_quiet:
  assumes "sets_owner_only P" "owner_refs_decide P" "own_live P app (pdb_meta l)"
    and "ob_get E = (\<lambda>d. Inr (ensured pdbKind mutatePDB l d))"
  shows "\<exists>d. ensureObject pdbKind P E app (buildPDB app) mutatePDB = ([], Inr d)"
proof -
  obtain r where d: "prepared pdbKind P app (buildPDB app) =
      Inr ((buildPDB app)\<lparr>pdb_meta := (pdb_meta (buildPDB app))\<lparr>om_ownerRefs := r\<rparr>\<rparr>)"
    by (rule prepared_ok [OF assms(1), of pdbKind "buildPDB app" app])
      (simp_all add: kind_defs buildPDB_def new_meta_def)
  show ?thesis
    by (rule exI, rule pdm.ensureObject_quiet [OF d _ assms(2)])
      (use assms(3,4) in \<open>auto simp: kind_defs own_live_def buildPDB_def new_meta_def\<close>)
qed

lemma eff_bind_owned:
  assumes "\<And>r. r \<in> set (fst m) \<Longrightarrow> Q r" "\<And>x r. r \<in> set (fst (f x)) \<Longrightarrow> Q r" "r \<in> set (fst (eff_bind m f))"
  shows "Q r"
  using assms by (auto simp: eff_bind_def split: sum.splits)

lemma ensureFoundation_owned:
  assumes "owner_refs_decide P" "r \<in> set (fst (ensureFoundation P E app ns))"
  shows "owned_request P app r"
  using assms(2) unfolding ensureFoundation_def
  by (elim eff_bind_owned [rotated 2])
    (auto simp: stage_def intro: sam.ensureObject_owned ism.ensureObject_owned psm.ensureObject_owned
      npm.ensureObject_owned pdm.ensureObject_owned assms(1))

text \<open>
  The foundation of a fleet converges: after a pass over any objects the application
  owns, the next pass over what the first one left writes nothing at all, whatever foreign
  labels, annotations and node ports the objects carry.
\<close>

lemma foundation_converges:
  assumes "sets_owner_only P" "owner_refs_decide P" "annotations_ok (svc_meta (buildPublicService app))"
    and "own_live P app (sa_meta sa)" "own_live P app (svc_meta headless)" "own_live P app (svc_meta pub)"
      "own_live P app (np_meta np)" "own_live P app (pdb_meta pdb)"
    and "ob_get (fn_serviceAccount E) = (\<lambda>d. Inr (ensured saKind (mutateServiceAccount app) sa d))"
    and "ob_get (fn_internal E) = (\<lambda>d. Inr (ensured serviceKind mutateInternalService headless d))"
    and "ob_get (fn_public E) = (\<lambda>d. Inr (ensured serviceKind mutatePublicService pub d))"
    and "ob_get (fn_netpol E) = (\<lambda>d. Inr (ensured netpolKind mutateNetworkPolicy np d))"
    and "ob_get (fn_pdb E) = (\<lambda>d. Inr (ensured pdbKind mutatePDB pdb d))"
  shows "ensureFoundation P E app ns = ([], Inr [credentialsCondition app])"
  using serviceAccount_quiet [OF assms(1,2,4,9)] internalService_quiet [OF assms(1,2,5,10)]
    publicService_quiet [OF assms(1,2,6,11,3)] networkPolicy_quiet [OF assms(1,2,7,12), of ns]
    disruptionBudget_quiet [OF assms(1,2,8,13)]
  by (auto simp: ensureFoundation_def)

text \<open>
  C19. Managed annotations follow the specification without touching anybody else's: after a
  pass with the desired annotations \<open>older\<close> and a later one with \<open>newer\<close>, every key of \<open>newer\<close> has its
  value, a key that only \<open>older\<close> had is gone, and a key the operator never managed keeps the
  value it had.
\<close>

theorem annotations_two_passes:
  fixes i :: bool and obj :: objmeta and older newer :: smap and k v :: string
  assumes "meta_ok obj" "gm_wf older" "keys_ascii older" "gm_wf newer" "k \<noteq> managedAnnotationsKey"
  defines "after \<equiv> om_annotations (reconcileAnnotations i (reconcileAnnotations i obj older) newer)"
  shows "(map_of newer k = Some v \<longrightarrow> map_of after k = Some v) \<and>
    (map_of newer k = None \<and> map_of older k \<noteq> None \<longrightarrow> map_of after k = None) \<and>
    (map_of newer k = None \<and> map_of older k = None \<and> k \<notin> set (inventory i (om_annotations obj)) \<longrightarrow>
      map_of after k = map_of (om_annotations obj) k)"
proof -
  have "map_of older k \<noteq> None \<longleftrightarrow> k \<in> set (map fst (managed older))"
    using assms(5) by (force simp: managed_def map_of_eq_None_iff)
  with assms(5) show ?thesis
    unfolding after_def reconcileAnnotations_lookup [OF meta_ok_reconciled [OF assms(1,2)] assms(4)]
      inventory_reconciled [OF assms(1-3)] reconcileAnnotations_lookup [OF assms(1,2)]
    by (auto simp: inventory_def split: option.splits)
qed

end
