(* ===== verification/Input_Witnesses.thy ===== *)
theory Input_Witnesses
  imports Scenario Deploy_Tracker Child_Objects
begin

text \<open>
  The theorems of \<open>App_Validation\<close>, \<open>Deploy_Tracker\<close> and \<open>Child_Objects\<close> on the application of
  \<open>Scenario\<close>.
\<close>

section \<open>Validation\<close>

definition demo_trust :: trust_policy where
  "demo_trust = \<lparr>tp_allowedImagePrefixes = [], tp_allowedIAMRoles = [], tp_allowedAzureClientIDs = [],
     tp_allowedBucketEndpoints = []\<rparr>"

lemma demo_valid: "validateApp demo_platform demo_trust demo_app = Inr ()"
  by code_simp

theorem validated_names_fit_witness: "length (ordinal_name (fleetName demo_app) 41) \<le> 63"
  using validated_names_fit [OF demo_valid, of 41] by simp

theorem validated_rss_threshold_witness: "100 * rssMb demo_app < 95 * (memoryGi demo_app * 1024)"
  using validated_rss_threshold [OF demo_valid] by simp

theorem validated_fleet_durability_witness: "fleetClaims demo_app \<noteq> [] \<and> 3 \<le> desiredReplicas demo_app"
  using validated_fleet_durability [OF demo_valid] by (simp add: demo_app_def demo_spec_def DurabilityFleet_def)

theorem validated_children_trusted_witness:
  "hasPrefix (co_image (templateContainer demo_app)) ''ghcr.io/denoland/celld:''"
  using validated_children_trusted [OF demo_valid] by (simp add: demo_trust_def)

section \<open>Deploy tracking\<close>

definition demo_auto :: WorkerApp where
  "demo_auto = demo_app\<lparr>wa_spec := demo_spec\<lparr>ws_appVersion := ''auto'', ws_deployTrackingSecretRef := ''track''\<rparr>\<rparr>"

definition demo_secret :: Secret where
  "demo_secret = \<lparr>sec_uid = ''s1'', sec_resourceVersion = ''3'',
     sec_data = [(''AWS_ACCESS_KEY_ID'', ''id''), (''AWS_SECRET_ACCESS_KEY'', ''key'')]\<rparr>"

definition demo_pointer :: string where
  "demo_pointer = CHR ''{'' # dq @ ''version'' @ dq @ '':'' @ dq @ ''v9'' @ dq @ ''}''"

definition demo_tracking :: "string result result \<Rightarrow> int \<Rightarrow> tracker_env" where
  "demo_tracking reply now =
     \<lparr>te_secret = Inr demo_secret,
      te_bucket = \<lparr>be_secret = Inr demo_secret, be_get = (\<lambda>_. reply)\<rparr>,
      te_nowCheck = now, te_nowEvict = (\<lambda>_. now), te_nowStore = now,
      te_pick = (\<lambda>c. fst (hd c)), te_other = (\<lambda>c. c),
      te_live = Inr (zero_StatefulSet\<lparr>st_template := buildPodTemplate demo_auto [] ''v7''\<rparr>)\<rparr>"

abbreviation demo_up :: tracker_env where
  "demo_up \<equiv> demo_tracking (Inr (Inr demo_pointer)) 100"

abbreviation demo_down :: tracker_env where
  "demo_down \<equiv> demo_tracking (Inl (OtherError ''timeout'')) 200"

abbreviation demo_tracker :: DeployTracker where
  "demo_tracker \<equiv> NewDeployTracker 0"

lemma demo_pick_ok: "pick_ok (demo_tracking reply now)"
  by (auto simp: pick_ok_def demo_tracking_def intro!: imageI)

lemma demo_other [simp]: "te_other (demo_tracking reply now) c = c"
  by (simp add: demo_tracking_def)

lemma demo_reachable: "tracker_reachable (fst (resolveAppVersion demo_platform demo_up demo_auto demo_tracker))"
  by (rule tracker_reachable.resolve) (simp_all add: demo_pick_ok tracker_reachable.start)

theorem tracker_bounded_witness:
  "length (dt_cache (fst (resolveAppVersion demo_platform demo_up demo_auto demo_tracker))) \<le> 1024"
  using tracker_bounded [OF demo_reachable] by blast

lemma demo_secret_read: "trackingSecret (demo_tracking reply now) demo_auto = Inr demo_secret"
  by (simp add: trackingSecret_def demo_tracking_def demo_auto_def)

lemma demo_read:
  "snd (pointerVersion demo_platform demo_up demo_auto demo_tracker) = (''v9'', False, None)"
  "snd (pointerVersion demo_platform demo_down demo_auto demo_tracker) = ([], False, Some (Wrapped ''reading deploy/current.json'' (OtherError ''timeout'')))"
  by code_simp+

lemma demo_cold: "cached_entry demo_tracker demo_auto i = None"
  by (simp add: cached_entry_def NewDeployTracker_def)

theorem pointer_read_once_witness:
  "snd (pointerVersion demo_platform demo_down demo_auto
     (fst (pointerVersion demo_platform demo_up demo_auto demo_tracker))) = (''v9'', False, None)"
proof -
  let ?t = "fst (pointerVersion demo_platform demo_up demo_auto demo_tracker)"
  have "pointerVersion demo_platform demo_up demo_auto demo_tracker = (?t, ''v9'', False, None)"
    using demo_read(1) by (metis prod.collapse)
  from pointer_read_once [OF demo_secret_read demo_secret_read [of "Inl (OtherError ''timeout'')" 200] _ this,
      of "te_bucket demo_down"]
  show ?thesis
    by (simp add: demo_cold hit_def) (simp add: demo_tracking_def NewDeployTracker_def)
qed


theorem unreachable_bucket_keeps_template_witness:
  "fst (snd (resolveAppVersion demo_platform demo_down demo_auto demo_tracker)) = ''v7''"
proof -
  obtain t v b c where r: "resolveAppVersion demo_platform demo_down demo_auto demo_tracker = (t, v, b, c)"
    by (metis prod.exhaust)
  have "pointerVersion demo_platform demo_down demo_auto demo_tracker =
      (fst (pointerVersion demo_platform demo_down demo_auto demo_tracker), [], False,
       Some (Wrapped ''reading deploy/current.json'' (OtherError ''timeout'')))"
    using demo_read(2) by (metis prod.collapse)
  from unreachable_bucket_keeps_template [OF _ _ this _ _ _ _ r, of _ "[]" "''v7''"] have "v = ''v7''"
    by (simp add: demo_tracking_def) (simp add: demo_auto_def demo_spec_def demo_app_def AppVersionAuto_def
        trackableBucket_def hasPrefix_def)
  with r show ?thesis by simp
qed

section \<open>Child objects\<close>

lemma demo_owner: "sets_owner_only demo_platform" "owner_refs_decide demo_platform"
  by (auto simp: sets_owner_only_def owner_refs_decide_def demo_platform_def)

abbreviation demo_live_meta :: objmeta where
  "demo_live_meta \<equiv> demo_meta ''shop'' ''u1'' [(''team'', ''web'')] [(''note'', ''kept'')] ''app-1''"

definition demo_stored :: "'a obj_kind \<Rightarrow> ('a \<Rightarrow> 'a \<Rightarrow> 'a) \<Rightarrow> 'a \<Rightarrow> 'a obj_env" where
  "demo_stored K mutate built =
     \<lparr>ob_get = (\<lambda>d. Inr (ensured K mutate (ok_setMeta K demo_live_meta built) d)),
      ob_create = Inr, ob_update = (\<lambda>_. None)\<rparr>"

definition demo_foundation :: foundation_env where
  "demo_foundation =
     \<lparr>fn_serviceAccount = demo_stored saKind (mutateServiceAccount demo_app) (buildServiceAccount demo_app),
      fn_internal = demo_stored serviceKind mutateInternalService (buildInternalService demo_app),
      fn_public = demo_stored serviceKind mutatePublicService (buildPublicService demo_app),
      fn_netpol = demo_stored netpolKind mutateNetworkPolicy (buildNetworkPolicy demo_app ''ops''),
      fn_pdb = demo_stored pdbKind mutatePDB (buildPDB demo_app)\<rparr>"

lemma demo_live_own: "own_live demo_platform demo_app demo_live_meta"
  by (simp add: own_live_def meta_ok_def demo_meta_def demo_platform_def demo_app_def)

theorem annotations_two_passes_witness:
  "map_of (om_annotations (reconcileAnnotations False
     (reconcileAnnotations False demo_live_meta [(''a'', ''1''), (''b'', ''2'')]) [(''a'', ''3'')])) ''b'' = None"
  using annotations_two_passes [where i = False and obj = demo_live_meta and older = "[(''a'', ''1''), (''b'', ''2'')]" 
      and newer = "[(''a'', ''3'')]" and k = "''b''"]
  by (simp add: meta_ok_def demo_meta_def keys_ascii_def ascii_def managedAnnotationsKey_def)

end
