(* ===== verification/Routes.thy ===== *)
theory Routes
  imports Child_Objects App_Validation Go_Time
begin

text \<open>
  The edge and the mesh (\<open>src/internal/controller/workerapp_controller.go\<close>):
  \<open>removeObsoleteRoutes\<close>, \<open>ensureIngress\<close> with one operation per ingress mode, the retry
  latch of the HTTPRoute, and \<open>ensureAuthorizationPolicy\<close>; and the configuration of the
  reconciler they read.

  An \<open>ensure\<close> operation returns its write requests, whether it met a failure worth a fast
  requeue, and the conditions it appends. The loop over the obsolete kinds ranges over a Go
  map: its order is a field of the environment.
\<close>

section \<open>Configuration\<close>

definition IngressModeHTTPRoute :: string where
  "IngressModeHTTPRoute = ''httproute''"

definition IngressModeVirtualService :: string where
  "IngressModeVirtualService = ''virtualservice''"

definition IngressModeIngress :: string where
  "IngressModeIngress = ''ingress''"

definition IngressModeNone :: string where
  "IngressModeNone = ''none''"

lemmas mode_defs = IngressModeHTTPRoute_def IngressModeVirtualService_def IngressModeIngress_def
  IngressModeNone_def

record WorkerAppReconciler = trust_policy +
  rc_HTTPRouteRetries :: bool
  rc_IngressMode :: string
  rc_GatewayName :: string
  rc_GatewayNamespace :: string
  rc_IstioGateways :: "string list"
  rc_IngressClassName :: string
  rc_ClusterIssuer :: string
  rc_PrometheusURL :: string
  rc_OperatorNamespace :: string
  rc_OperatorPrincipal :: string

definition condIngressReady :: string where
  "condIngressReady = ''IngressReady''"

definition condMeshPolicyReady :: string where
  "condMeshPolicyReady = ''MeshPolicyReady''"

definition reasonRouteError :: string where
  "reasonRouteError = ''RouteError''"

type_synonym ensured_edge = "request list \<times> bool \<times> Condition list"

section \<open>Obsolete routes\<close>

record obsolete_env =
  ox_ingress :: "Ingress result"
  ox_route :: "HTTPRoute result"
  ox_virtualService :: "Unstructured result"
  ox_delete :: "kobject \<Rightarrow> gerror option"
  ox_order :: "string list"

text \<open>The uncached read of the route of a kind.\<close>

definition obsoleteRoute :: "obsolete_env \<Rightarrow> string \<Rightarrow> kobject result" where
  "obsoleteRoute E kind =
     (if kind = IngressModeIngress then map_sum id KIngress (ox_ingress E)
      else if kind = IngressModeHTTPRoute then map_sum id KHTTPRoute (ox_route E)
      else map_sum id KUnstructured (ox_virtualService E))"

fun removeRoutes :: "platform \<Rightarrow> obsolete_env \<Rightarrow> WorkerApp \<Rightarrow> string \<Rightarrow> string list \<Rightarrow> unit eff" where
  "removeRoutes P E app mode [] = eff_return ()"
| "removeRoutes P E app mode (kind # kinds) =
     (if kind = mode then removeRoutes P E app mode kinds
      else case obsoleteRoute E kind of
        Inl e \<Rightarrow>
          if IsNotFound e \<or> IsNoMatchError e then removeRoutes P E app mode kinds else eff_fail e
      | Inr obj \<Rightarrow>
          if \<not> pf_IsControlledBy P (kobject_meta obj) (wa_meta app) then removeRoutes P E app mode kinds
          else eff_bind ([Delete obj],
                 case ox_delete E obj of
                   Some e \<Rightarrow> if IsNotFound e then Inr () else Inl e
                 | None \<Rightarrow> Inr ())
               (\<lambda>_. removeRoutes P E app mode kinds))"

definition activeMode :: "WorkerAppReconciler \<Rightarrow> WorkerApp \<Rightarrow> string" where
  "activeMode r app =
     (if ws_hostnames (wa_spec app) = [] then IngressModeNone
      else if rc_IngressMode r = [] then IngressModeHTTPRoute
      else rc_IngressMode r)"

definition removeObsoleteRoutes ::
  "WorkerAppReconciler \<Rightarrow> platform \<Rightarrow> obsolete_env \<Rightarrow> WorkerApp \<Rightarrow> unit eff" where
  "removeObsoleteRoutes r P E app = removeRoutes P E app (activeMode r app) (ox_order E)"

section \<open>Ingress and VirtualService\<close>

definition routeFailed :: "gerror \<Rightarrow> Condition list" where
  "routeFailed e = [mk_condition condIngressReady ConditionFalse reasonRouteError (Error e)]"

definition ensureV1Ingress ::
  "WorkerAppReconciler \<Rightarrow> platform \<Rightarrow> Ingress obj_env \<Rightarrow> WorkerApp \<Rightarrow> ensured_edge" where
  "ensureV1Ingress r P E app =
     (let (reqs, res) = ensureObject ingressKind P E app
                          (buildIngress app (rc_IngressClassName r) (rc_ClusterIssuer r)) mutateIngress
      in case res of
           Inl e \<Rightarrow> (reqs, True, routeFailed e)
         | Inr _ \<Rightarrow> (reqs, False,
             [mk_condition condIngressReady ConditionUnknown ''IngressReconciled''
                ''Ingress configuration reconciled; check ingress controller readiness'']))"

definition ensureVirtualService ::
  "WorkerAppReconciler \<Rightarrow> platform \<Rightarrow> un_env \<Rightarrow> WorkerApp \<Rightarrow> ensured_edge" where
  "ensureVirtualService r P E app =
     (let (reqs, res) = ensureUnstructured P E app (buildVirtualService app (rc_IstioGateways r)) in
      case res of
        Inr _ \<Rightarrow> (reqs, False,
          [mk_condition condIngressReady ConditionUnknown ''VirtualServiceReconciled''
             ''VirtualService reconciled; verify gateway programming''])
      | Inl e \<Rightarrow>
          if IsNoMatchError e then (reqs, False,
            [mk_condition condIngressReady ConditionFalse ''IstioUnavailable''
               ''networking.istio.io CRDs are not installed; hostnames are not routed''])
          else (reqs, True, routeFailed e))"

section \<open>HTTPRoute\<close>

definition retryRequestedAnnotation :: string where
  "retryRequestedAnnotation = ''celld-operator.io/retry-requested''"

definition retryRecheckAnnotation :: string where
  "retryRecheckAnnotation = ''celld-operator.io/retry-recheck-after''"

record httproute_env =
  he_configure :: "HTTPRoute result"
  he_nowDefault :: int
  he_nowBefore :: int
  he_object :: "HTTPRoute obj_env"
  he_recheck :: "HTTPRoute result"
  he_ready :: "HTTPRoute result"
  he_gateway :: "string \<Rightarrow> string \<Rightarrow> Gateway result"

text \<open>The first rule of a stored route has lost its retry field.\<close>

definition retryMissing :: "HTTPRoute \<Rightarrow> bool" where
  "retryMissing live \<longleftrightarrow> hr_rules live \<noteq> [] \<and> rr_retry (hd (hr_rules live)) = None"

definition latched :: "HTTPRoute \<Rightarrow> bool" where
  "latched live \<longleftrightarrow> gm_index (om_annotations (hr_meta live)) retryRequestedAnnotation = annotationTrue
     \<and> retryMissing live"

definition setRouteAnnotations :: "smap \<Rightarrow> HTTPRoute \<Rightarrow> HTTPRoute" where
  "setRouteAnnotations a route = route\<lparr>hr_meta := (hr_meta route)\<lparr>om_annotations := a\<rparr>\<rparr>"

definition configureHTTPRouteRetries ::
  "WorkerAppReconciler \<Rightarrow> httproute_env \<Rightarrow> HTTPRoute \<Rightarrow> bool \<times> HTTPRoute" where
  "configureHTTPRouteRetries r E route =
     (let requested = gm_set retryRequestedAnnotation annotationTrue (om_annotations (hr_meta route));
          (dropped, annotations) =
            (if \<not> rc_HTTPRouteRetries r then (False, om_annotations (hr_meta route))
             else case he_configure E of
               Inl _ \<Rightarrow> (False, requested)
             | Inr live \<Rightarrow>
                 if \<not> latched live then (False, requested)
                 else let deadline =
                            (case parseTime (gm_index (om_annotations (hr_meta live)) retryRecheckAnnotation) of
                               Some t \<Rightarrow> t
                             | None \<Rightarrow> he_nowDefault E + seconds (5 * 60))
                      in (True,
                          if he_nowBefore E < deadline
                          then gm_set retryRecheckAnnotation (formatTime deadline) requested
                          else gm_del retryRequestedAnnotation requested));
          rules = (if \<not> rc_HTTPRouteRetries r \<or> dropped
                   then map (\<lambda>rule. rule\<lparr>rr_retry := None\<rparr>) (hr_rules route) else hr_rules route)
      in (dropped, (setRouteAnnotations annotations route)\<lparr>hr_rules := rules\<rparr>))"

definition httpRouteRetryDropped :: "httproute_env \<Rightarrow> HTTPRoute \<Rightarrow> bool result" where
  "httpRouteRetryDropped E desired =
     (if hr_rules desired = [] \<or> rr_retry (hd (hr_rules desired)) = None then Inr False
      else case he_recheck E of Inl e \<Rightarrow> Inl e | Inr live \<Rightarrow> Inr (retryMissing live))"

text \<open>The last condition of a type that was observed at the generation decides.\<close>

definition currentCondition :: "int \<Rightarrow> string \<Rightarrow> observed_condition list \<Rightarrow> bool" where
  "currentCondition generation ty conditions =
     foldl (\<lambda>b c. if oc_observedGeneration c = generation \<and> oc_type c = ty
                  then oc_status c = ''True'' else b) False conditions"

definition programmed :: "Gateway \<Rightarrow> bool" where
  "programmed gateway \<longleftrightarrow> (\<exists>c \<in> set (gw_conditions gateway). oc_type c = ''Programmed'' \<and>
     oc_observedGeneration c = gw_generation gateway \<and> oc_status c = ''True'')"

fun parentsReady ::
  "WorkerAppReconciler \<Rightarrow> httproute_env \<Rightarrow> HTTPRoute \<Rightarrow> route_parent list \<Rightarrow> ConditionStatus" where
  "parentsReady r E live [] = ConditionFalse"
| "parentsReady r E live (p # ps) =
     (let namespace = (case rp_namespace p of Some n \<Rightarrow> n | None \<Rightarrow> om_namespace (hr_meta live));
          generation = om_generation (hr_meta live)
      in if rp_name p \<noteq> rc_GatewayName r \<or> namespace \<noteq> rc_GatewayNamespace r then parentsReady r E live ps
         else if currentCondition generation ''Accepted'' (rp_conditions p) \<and>
                 currentCondition generation ''ResolvedRefs'' (rp_conditions p)
         then (case he_gateway E namespace (rp_name p) of
                 Inl _ \<Rightarrow> ConditionUnknown
               | Inr gateway \<Rightarrow> if programmed gateway then ConditionTrue else parentsReady r E live ps)
         else parentsReady r E live ps)"

definition httpRouteReady :: "WorkerAppReconciler \<Rightarrow> httproute_env \<Rightarrow> ConditionStatus" where
  "httpRouteReady r E =
     (case he_ready E of Inl _ \<Rightarrow> ConditionUnknown | Inr live \<Rightarrow> parentsReady r E live (hr_parents live))"

definition ensureHTTPRoute ::
  "WorkerAppReconciler \<Rightarrow> platform \<Rightarrow> httproute_env \<Rightarrow> WorkerApp \<Rightarrow> ensured_edge" where
  "ensureHTTPRoute r P E app =
     (let (retryDropped, route) = configureHTTPRouteRetries r E
            (buildHTTPRoute app (rc_GatewayName r) (rc_GatewayNamespace r));
          (reqs, res) = ensureObject routeKind P (he_object E) app route mutateHTTPRoute
      in case res of
           Inr route' \<Rightarrow>
             if retryDropped \<or> httpRouteRetryDropped E route' = Inr True
             then (reqs, True,
               [mk_condition condIngressReady ConditionFalse ''RouteReconciledRetryDropped''
                  ''cluster Gateway API CRDs dropped the retry field (standard channel); drain 503s are not retried at the gateway''])
             else (reqs, False,
               [mk_condition condIngressReady (httpRouteReady r E) ''RouteObserved'' []])
         | Inl e \<Rightarrow>
             if IsNoMatchError e then (reqs, False,
               [mk_condition condIngressReady ConditionFalse ''GatewayAPIUnavailable''
                  ''gateway.networking.k8s.io CRDs are not installed; hostnames are not routed''])
             else (reqs, True, routeFailed e))"

section \<open>The edge\<close>

record route_env =
  rt_obsolete :: obsolete_env
  rt_ingress :: "Ingress obj_env"
  rt_virtualService :: un_env
  rt_httpRoute :: httproute_env

definition ensureIngress ::
  "WorkerAppReconciler \<Rightarrow> platform \<Rightarrow> route_env \<Rightarrow> WorkerApp \<Rightarrow> ensured_edge" where
  "ensureIngress r P E app =
     (case removeObsoleteRoutes r P (rt_obsolete E) app of
        (deletes, Inl e) \<Rightarrow> (deletes, True, routeFailed e)
      | (deletes, Inr _) \<Rightarrow>
          apfst (append deletes)
            (if ws_hostnames (wa_spec app) = [] \<or> rc_IngressMode r = IngressModeNone then ([], False, [])
             else if rc_IngressMode r = IngressModeVirtualService
             then ensureVirtualService r P (rt_virtualService E) app
             else if rc_IngressMode r = IngressModeIngress
             then ensureV1Ingress r P (rt_ingress E) app
             else ensureHTTPRoute r P (rt_httpRoute E) app))"

section \<open>The mesh policy\<close>

definition ensureAuthorizationPolicy ::
  "WorkerAppReconciler \<Rightarrow> platform \<Rightarrow> un_env \<Rightarrow> WorkerApp \<Rightarrow> ensured_edge" where
  "ensureAuthorizationPolicy r P E app =
     (let (reqs, res) = ensureUnstructured P E app (buildAuthorizationPolicy app (rc_OperatorPrincipal r)) in
      case res of
        Inr _ \<Rightarrow> (reqs, False, [mk_condition condMeshPolicyReady ConditionTrue ''PolicyReconciled'' []])
      | Inl e \<Rightarrow>
          if IsNoMatchError e then (reqs, False,
            [mk_condition condMeshPolicyReady ConditionFalse ''IstioUnavailable''
               ''security.istio.io CRDs are not installed; NetworkPolicy alone guards the internal listener''])
          else (reqs, True, [mk_condition condMeshPolicyReady ConditionFalse ''PolicyError'' (Error e)]))"

section \<open>Ownership of what is written\<close>

lemma ensureUnstructured_writes:
  assumes "r \<in> set (fst (ensureUnstructured P E app d))"
  shows "(\<exists>u. r = Create (KUnstructured u) \<and>
       pf_SetControllerReference P (wa_meta app) (un_meta d) = Inr (un_meta u)) \<or>
    (\<exists>live u. r = Update (KUnstructured u) \<and> pf_IsControlledBy P live (wa_meta app) \<and>
       om_ownerRefs (un_meta u) = om_ownerRefs live)"
proof (cases "pf_SetControllerReference P (wa_meta app) (un_meta d)")
  case (Inr m)
  show ?thesis
  proof (cases "ue_get E")
    case (Inl e)
    with Inr assms show ?thesis by (auto simp: ensureUnstructured_def Let_def split: if_splits)
  next
    case live: (Inr live)
    with Inr assms show ?thesis
      by (auto simp: ensureUnstructured_def Let_def requireOwnership_def split: if_splits)
  qed
qed (use assms in \<open>simp add: ensureUnstructured_def\<close>)

lemma ensureUnstructured_owned:
  assumes "owner_refs_decide P" "r \<in> set (fst (ensureUnstructured P E app d))"
  shows "owned_request P app r"
proof -
  from ensureUnstructured_writes [OF assms(2)] show ?thesis
  proof (elim disjE exE conjE)
    fix live u
    assume u: "r = Update (KUnstructured u)" "pf_IsControlledBy P live (wa_meta app)"
      "om_ownerRefs (un_meta u) = om_ownerRefs live"
    then have "pf_IsControlledBy P (un_meta u) (wa_meta app)"
      using assms(1) unfolding owner_refs_decide_def by blast
    with u show ?thesis by simp
  qed auto
qed

text \<open>
  What every operation on the edge promises: it writes only what the application owns, never
  the StatefulSet, reports at most one condition, of its own type, and a failure that asks
  for a fast requeue is reported as false.
\<close>

definition fleet_write :: "request \<Rightarrow> bool" where
  "fleet_write r \<longleftrightarrow> (\<exists>s. r = Create (KStatefulSet s) \<or> r = Update (KStatefulSet s) \<or> r = Delete (KStatefulSet s))"

locale edge_operation =
  fixes P :: platform and app :: WorkerApp and run :: "'e \<Rightarrow> ensured_edge" and ty :: string
  assumes writes_owned: "owner_refs_decide P \<Longrightarrow> r \<in> set (fst (run E)) \<Longrightarrow> owned_request P app r"
    and leaves_fleet: "r \<in> set (fst (run E)) \<Longrightarrow> \<not> fleet_write r"
    and one_condition: "snd (snd (run E)) = [] \<or> (\<exists>c. snd (snd (run E)) = [c] \<and> cn_type c = ty)"
    and failure_false: "fst (snd (run E)) \<Longrightarrow> c \<in> set (snd (snd (run E))) \<Longrightarrow> cn_status c = ConditionFalse"
    and failure_said: "fst (snd (run E)) \<Longrightarrow> snd (snd (run E)) \<noteq> []"
begin

lemma failure_reported:
  assumes "run E = (reqs, True, conds)"
  shows "\<exists>c. conds = [c] \<and> cn_type c = ty \<and> cn_status c = ConditionFalse"
  using one_condition [of E] failure_false [of E] failure_said [of E] assms by auto

end

lemma ensureObject_writes:
  assumes "r \<in> set (fst (ensureObject K P E app d mutate))"
  shows "\<exists>x. r = Create (ok_wrap K x) \<or> r = Update (ok_wrap K x)"
  using assms by (auto simp: ensureObject_def Let_def split: sum.splits if_splits)

lemma ensureUnstructured_fleet: "r \<in> set (fst (ensureUnstructured P E app d)) \<Longrightarrow> \<not> fleet_write r"
  using ensureUnstructured_writes [of r P E app d] by (auto simp: fleet_write_def)

lemma mk_condition_fields [simp]:
  "cn_type (mk_condition t st re ms) = t" "cn_status (mk_condition t st re ms) = st"
  by (simp_all add: mk_condition_def)

interpretation mesh: edge_operation P app "\<lambda>E. ensureAuthorizationPolicy r P E app" condMeshPolicyReady for P app r
  by unfold_locales
    (auto simp: ensureAuthorizationPolicy_def case_prod_unfold Let_def split: sum.splits if_splits
      intro: ensureUnstructured_owned dest: ensureUnstructured_fleet)

interpretation scaler: edge_operation P app "\<lambda>E. ensureScaledObject P E app url phase" condAutoscalingReady
  for P app url phase
  by unfold_locales
    (auto simp: ensureScaledObject_def requireOwnership_def case_prod_unfold Let_def fleet_write_def split: sum.splits if_splits option.splits
      intro: ensureUnstructured_owned dest: ensureUnstructured_fleet)

lemma removeRoutes_sound:
  assumes "r \<in> set (fst (removeRoutes P E app mode kinds))"
  shows "\<exists>kind obj. kind \<in> set kinds \<and> kind \<noteq> mode \<and> obsoleteRoute E kind = Inr obj \<and>
    pf_IsControlledBy P (kobject_meta obj) (wa_meta app) \<and> r = Delete obj"
  using assms
  by (induction kinds) (fastforce simp: eff_bind_def 
      split: if_splits sum.splits option.splits)+

lemma removeRoutes_complete:
  assumes "snd (removeRoutes P E app mode kinds) = Inr ()" "kind \<in> set kinds" "kind \<noteq> mode"
    and "obsoleteRoute E kind = Inr obj" "pf_IsControlledBy P (kobject_meta obj) (wa_meta app)"
  shows "Delete obj \<in> set (fst (removeRoutes P E app mode kinds))"
  using assms
  by (induction kinds) (auto simp: eff_bind_def 
      split: if_splits sum.splits option.splits)

lemma obsoleteRoute_fleet: "obsoleteRoute E kind = Inr obj \<Longrightarrow> \<not> fleet_write (Delete obj)"
  by (auto simp: obsoleteRoute_def fleet_write_def map_sum_def split: sum.splits if_splits)

lemma ensureIngressObject_fleet:
  "r \<in> set (fst (ensureObject ingressKind P E app d mutate)) \<Longrightarrow> \<not> fleet_write r"
  "r \<in> set (fst (ensureObject routeKind P E' app d' mutate')) \<Longrightarrow> \<not> fleet_write r"
  using ensureObject_writes [of r ingressKind P E app d mutate]
    ensureObject_writes [of r routeKind P E' app d' mutate']
  by (auto simp: fleet_write_def kind_defs)

interpretation v1: edge_operation P app "\<lambda>E. ensureV1Ingress r P E app" condIngressReady for P app r
  by unfold_locales
    (auto simp: ensureV1Ingress_def routeFailed_def case_prod_unfold Let_def split: sum.splits
      intro: igm.ensureObject_owned dest: ensureIngressObject_fleet)

interpretation vs: edge_operation P app "\<lambda>E. ensureVirtualService r P E app" condIngressReady for P app r
  by unfold_locales
    (auto simp: ensureVirtualService_def routeFailed_def case_prod_unfold Let_def split: sum.splits if_splits
      intro: ensureUnstructured_owned dest: ensureUnstructured_fleet)

interpretation hr: edge_operation P app "\<lambda>E. ensureHTTPRoute r P E app" condIngressReady for P app r
  by unfold_locales
    (auto simp: ensureHTTPRoute_def routeFailed_def case_prod_unfold Let_def split: sum.splits if_splits
      intro: hrm.ensureObject_owned dest: ensureIngressObject_fleet)

text \<open>The edge as a whole: obsolete routes, then one of the modes.\<close>

lemma ensureIngress_cases:
  obtains (failed) e where "snd (removeObsoleteRoutes r P (rt_obsolete E) app) = Inl e"
      "ensureIngress r P E app = (fst (removeObsoleteRoutes r P (rt_obsolete E) app), True, routeFailed e)"
  | (mode) m where "m \<in> {([], False, []), ensureVirtualService r P (rt_virtualService E) app,
        ensureV1Ingress r P (rt_ingress E) app, ensureHTTPRoute r P (rt_httpRoute E) app}"
      "ensureIngress r P E app = (fst (removeObsoleteRoutes r P (rt_obsolete E) app) @ fst m, snd m)"
proof (cases "removeObsoleteRoutes r P (rt_obsolete E) app")
  case (Pair deletes res)
  show thesis
  proof (cases res)
    case (Inl e)
    with Pair show thesis by (intro failed [of e]) (simp_all add: ensureIngress_def)
  next
    case (Inr u)
    let ?m = "if ws_hostnames (wa_spec app) = [] \<or> rc_IngressMode r = IngressModeNone then ([], False, [])
             else if rc_IngressMode r = IngressModeVirtualService
             then ensureVirtualService r P (rt_virtualService E) app
             else if rc_IngressMode r = IngressModeIngress
             then ensureV1Ingress r P (rt_ingress E) app
             else ensureHTTPRoute r P (rt_httpRoute E) app"
    from Pair Inr show thesis
      by (intro mode [of ?m]) (auto simp: ensureIngress_def apfst_def map_prod_def split: prod.split)
  qed
qed

lemma removeObsoleteRoutes_owned:
  "x \<in> set (fst (removeObsoleteRoutes r P E app)) \<Longrightarrow> owned_request P app x \<and> \<not> fleet_write x"
  unfolding removeObsoleteRoutes_def using removeRoutes_sound obsoleteRoute_fleet by fastforce

interpretation edge: edge_operation P app "\<lambda>E. ensureIngress r P E app" condIngressReady for P app r
proof
  fix E x c
  show "owner_refs_decide P \<Longrightarrow> x \<in> set (fst (ensureIngress r P E app)) \<Longrightarrow> owned_request P app x"
    by (cases rule: ensureIngress_cases [of r P E app])
      (auto dest: removeObsoleteRoutes_owned intro: v1.writes_owned vs.writes_owned hr.writes_owned)
  show "x \<in> set (fst (ensureIngress r P E app)) \<Longrightarrow> \<not> fleet_write x"
    by (cases rule: ensureIngress_cases [of r P E app])
      (auto dest: removeObsoleteRoutes_owned v1.leaves_fleet vs.leaves_fleet hr.leaves_fleet)
  show "snd (snd (ensureIngress r P E app)) = [] \<or>
      (\<exists>c. snd (snd (ensureIngress r P E app)) = [c] \<and> cn_type c = condIngressReady)"
    by (cases rule: ensureIngress_cases [of r P E app])
      (use v1.one_condition [where P = P and app = app and r = r and E = "rt_ingress E"]
        vs.one_condition [where P = P and app = app and r = r and E = "rt_virtualService E"]
        hr.one_condition [where P = P and app = app and r = r and E = "rt_httpRoute E"]
        in \<open>auto simp: routeFailed_def\<close>)
  show "fst (snd (ensureIngress r P E app)) \<Longrightarrow> c \<in> set (snd (snd (ensureIngress r P E app))) \<Longrightarrow>
      cn_status c = ConditionFalse"
    by (cases rule: ensureIngress_cases [of r P E app])
      (auto simp: routeFailed_def intro: v1.failure_false vs.failure_false hr.failure_false)
  show "fst (snd (ensureIngress r P E app)) \<Longrightarrow> snd (snd (ensureIngress r P E app)) \<noteq> []"
    by (cases rule: ensureIngress_cases [of r P E app])
      (auto simp: routeFailed_def dest: v1.failure_said vs.failure_said hr.failure_said)
qed

section \<open>The latch of the retries\<close>

lemma latched_dropped:
  assumes "rc_HTTPRouteRetries r" "he_configure E = Inr live" "latched live"
  shows "fst (configureHTTPRouteRetries r E route)"
    and "list_all (\<lambda>rule. rr_retry rule = None) (hr_rules (snd (configureHTTPRouteRetries r E route)))"
  using assms by (simp_all add: configureHTTPRouteRetries_def Let_def list_all_iff)

lemma unrequested_no_retry:
  assumes "\<not> rc_HTTPRouteRetries r"
  shows "list_all (\<lambda>rule. rr_retry rule = None) (hr_rules (snd (configureHTTPRouteRetries r E route)))"
  using assms by (simp add: configureHTTPRouteRetries_def Let_def list_all_iff)

lemma configure_rules:
  "hr_rules route \<noteq> [] \<Longrightarrow> hr_rules (snd (configureHTTPRouteRetries r E route)) \<noteq> []"
  by (simp add: configureHTTPRouteRetries_def Let_def case_prod_unfold)

text \<open>
  A read of a stored route: cached or not, and also when it is decoded over the desired copy
  (as the uncached client does), it shows every annotation that is stored.
\<close>

definition reads_stored :: "httproute_env \<Rightarrow> HTTPRoute \<Rightarrow> bool" where
  "reads_stored E live \<longleftrightarrow> he_configure E = Inr live \<and>
     (\<forall>d seen. ob_get (he_object E) d = Inr seen \<longrightarrow>
        stringMapSubset (om_annotations (hr_meta live)) (om_annotations (hr_meta seen)))"

lemma route_update:
  assumes "Update (KHTTPRoute h) \<in> set (fst (ensureHTTPRoute r P E app))"
  shows "\<exists>d seen. ob_get (he_object E) d = Inr seen \<and> om_annotations (hr_meta h) = om_annotations (hr_meta seen)"
    and "hr_rules h = hr_rules (snd (configureHTTPRouteRetries r E
      (buildHTTPRoute app (rc_GatewayName r) (rc_GatewayNamespace r))))"
proof -
  let ?route = "snd (configureHTTPRouteRetries r E (buildHTTPRoute app (rc_GatewayName r) (rc_GatewayNamespace r)))"
  have "Update (KHTTPRoute h) \<in> set (fst (ensureObject routeKind P (he_object E) app ?route mutateHTTPRoute))"
    using assms by (auto simp: ensureHTTPRoute_def case_prod_unfold Let_def split: sum.splits if_splits)
  then obtain d seen where d: "prepared routeKind P app ?route = Inr d" "ob_get (he_object E) d = Inr seen"
      "h = ensured routeKind mutateHTTPRoute seen d"
    by (auto simp: ensureObject_def Let_def kind_defs split: sum.splits if_splits)
  then have "om_annotations (hr_meta h) = om_annotations (hr_meta seen)"
    by (simp add: ensured_def kind_defs mutateHTTPRoute_def Let_def)
  with d(2) show "\<exists>d seen. ob_get (he_object E) d = Inr seen \<and> om_annotations (hr_meta h) = om_annotations (hr_meta seen)"
    by blast
  from d(1,3) show "hr_rules h = hr_rules ?route"
    by (auto simp: prepared_def ensured_def kind_defs mutateHTTPRoute_def Let_def split: sum.splits)
qed

text \<open>
  The routes stored by any number of passes, whatever specification and operator flags each
  of them runs with.
\<close>

inductive route_stored :: "platform \<Rightarrow> HTTPRoute \<Rightarrow> HTTPRoute \<Rightarrow> bool" for P and start where
  initial: "route_stored P start start"
| pass: "route_stored P start live \<Longrightarrow> reads_stored E live \<Longrightarrow>
    Update (KHTTPRoute h) \<in> set (fst (ensureHTTPRoute r P E app)) \<Longrightarrow> route_stored P start h"

lemma stringMapSubsetD: "stringMapSubset a b \<Longrightarrow> map_of a k = Some v \<Longrightarrow> map_of b k = Some v"
  unfolding stringMapSubset_def by (drule map_of_SomeD, drule (1) bspec) (simp split: option.splits)

lemma latched_pass:
  assumes "latched live" "reads_stored E live" "Update (KHTTPRoute h) \<in> set (fst (ensureHTTPRoute r P E app))"
  shows "latched h"
proof -
  let ?route = "buildHTTPRoute app (rc_GatewayName r) (rc_GatewayNamespace r)"
  let ?rules = "hr_rules (snd (configureHTTPRouteRetries r E ?route))"
  have live: "he_configure E = Inr live" using assms(2) by (simp add: reads_stored_def)
  have "list_all (\<lambda>rule. rr_retry rule = None) ?rules"
    using latched_dropped(2) [OF _ live assms(1)] unrequested_no_retry by blast
  moreover have "?rules \<noteq> []" by (rule configure_rules) (simp add: buildHTTPRoute_def)
  ultimately have missing: "retryMissing h"
    using route_update(2) [OF assms(3)] by (cases ?rules) (simp_all add: retryMissing_def)
  from route_update(1) [OF assms(3)] assms(2)
  have "stringMapSubset (om_annotations (hr_meta live)) (om_annotations (hr_meta h))"
    by (auto simp: reads_stored_def)
  moreover have "map_of (om_annotations (hr_meta live)) retryRequestedAnnotation = Some annotationTrue"
    using assms(1) by (auto simp: latched_def gm_index_def annotationTrue_def split: option.splits)
  ultimately have "gm_index (om_annotations (hr_meta h)) retryRequestedAnnotation = annotationTrue"
    using stringMapSubsetD by (fastforce simp: gm_index_def)
  with missing show ?thesis by (simp add: latched_def)
qed

lemma latched_stored: "route_stored P start live \<Longrightarrow> latched start \<Longrightarrow> latched live"
  by (induction rule: route_stored.induct) (auto intro: latched_pass)

section \<open>Readiness\<close>

text \<open>A parent entry of the configured gateway that accepts the current route.\<close>

definition acceptedBy :: "WorkerAppReconciler \<Rightarrow> HTTPRoute \<Rightarrow> route_parent \<Rightarrow> bool" where
  "acceptedBy r live p \<longleftrightarrow> rp_name p = rc_GatewayName r \<and>
     (case rp_namespace p of Some n \<Rightarrow> n | None \<Rightarrow> om_namespace (hr_meta live)) = rc_GatewayNamespace r \<and>
     currentCondition (om_generation (hr_meta live)) ''Accepted'' (rp_conditions p) \<and>
     currentCondition (om_generation (hr_meta live)) ''ResolvedRefs'' (rp_conditions p)"

lemma parentsReady_spec:
  "parentsReady r E live ps =
     (if \<not> (\<exists>p \<in> set ps. acceptedBy r live p) then ConditionFalse
      else case he_gateway E (rc_GatewayNamespace r) (rc_GatewayName r) of
        Inl _ \<Rightarrow> ConditionUnknown
      | Inr gateway \<Rightarrow> if programmed gateway then ConditionTrue else ConditionFalse)"
  by (induction ps) (auto simp: acceptedBy_def Let_def split: sum.splits option.splits)

section \<open>Properties\<close>

text \<open>
  C20. Switching the ingress mode cleans up exactly what is obsolete: when the removal
  succeeds, the deletions are those of the routes of the other kinds that exist and that the
  application controls, in whatever order the kinds are visited; routes of the active mode
  and routes of others with the same name are never deleted.
\<close>

theorem obsolete_routes_removed:
  assumes "snd (removeObsoleteRoutes r P E app) = Inr ()"
    and "set (ox_order E) = {IngressModeIngress, IngressModeHTTPRoute, IngressModeVirtualService}"
  shows "set (fst (removeObsoleteRoutes r P E app)) =
    {Delete obj | kind obj. kind \<in> {IngressModeIngress, IngressModeHTTPRoute, IngressModeVirtualService} \<and>
       kind \<noteq> activeMode r app \<and> obsoleteRoute E kind = Inr obj \<and>
       pf_IsControlledBy P (kobject_meta obj) (wa_meta app)}"
  using removeRoutes_sound [of _ P E app "activeMode r app" "ox_order E"]
    removeRoutes_complete [of P E app "activeMode r app" "ox_order E"] assms
  unfolding removeObsoleteRoutes_def by blast

text \<open>
  C21. The retry latch of an HTTPRoute never opens: once a stored route has the
  retry-requested annotation and lost its retry field, every later pass finds it in the same
  state and drops the retry again, whatever the clock, the recheck deadline, the
  specification and the flags are, because an update of the route never removes an
  annotation.
\<close>

theorem retry_latch_permanent:
  assumes "latched start" "route_stored P start live" "rc_HTTPRouteRetries r" "he_configure E = Inr live"
  shows "retryMissing live \<and> fst (configureHTTPRouteRetries r E route) \<and>
    list_all (\<lambda>rule. rr_retry rule = None) (hr_rules (snd (configureHTTPRouteRetries r E route)))"
  using latched_stored [OF assms(2,1)] latched_dropped [OF assms(3,4)] by (auto simp: latched_def)


end
