(* ===== verification/Reconciler.thy ===== *)
theory Reconciler
  imports Routes Deploy_Tracker Rollout_Safety
begin

text \<open>
  One whole pass over a WorkerApp (\<open>src/internal/controller/workerapp_controller.go\<close>:
  \<open>Reconcile\<close>, \<open>updateStatus\<close>, \<open>boolToCondition\<close>, \<open>SetupWithManager\<close>'s defaults).

  The result of a pass is the list of its write requests on child objects in the order they
  are issued, the status it sends (if any), the deploy tracker it leaves behind, and what the
  work queue gets back. A condition carries no transition time here: it changes only with
  the status of the condition.
\<close>

section \<open>The status of a WorkerApp\<close>

definition boolToCondition :: "bool \<Rightarrow> ConditionStatus" where
  "boolToCondition b = (if b then ConditionTrue else ConditionFalse)"

record status_env =
  us_sts :: "StatefulSet result"
  us_obs :: obs_env
  us_order :: "PodState gomap \<Rightarrow> PodState gomap"
  us_update :: "WorkerAppStatus \<Rightarrow> gerror option"

definition podDeployment :: "string \<times> PodState \<Rightarrow> PodDeployment option" where
  "podDeployment e =
     map_option (\<lambda>d. \<lparr>pd_name = fst e, pd_version = ds_version d, pd_generation = ds_generation d,
                      pd_draining = wrap32 (int (length (ds_draining d))), pd_swapping = ds_swapping d\<rparr>)
       (po_deployment (snd e))"

text \<open>The loop over the states appends in map order; the list is sorted afterwards.\<close>

definition podDeployments :: "PodState gomap \<Rightarrow> PodDeployment list" where
  "podDeployments states = sort_key pd_name (List.map_filter podDeployment states)"

definition phaseConditions :: "fleetOutcome \<Rightarrow> Condition list" where
  "phaseConditions out =
     (let phase = fo_phase out; reason = phase_string phase in
      [mk_condition ''Available'' (boolToCondition (phase = PhaseReady)) reason [],
       mk_condition ''Progressing''
         (boolToCondition (phase = PhasePending \<or> phase = PhaseRollingOut \<or> phase = PhaseRecreating))
         reason (fo_waitingOn out),
       mk_condition ''Degraded'' (boolToCondition (phase = PhaseDegraded)) reason (fo_waitingOn out)])"

text \<open>The conditions an operation only sometimes reports; they are withdrawn when it does not.\<close>

definition optionalConditions :: "string list" where
  "optionalConditions = [condIngressReady, condAutoscalingReady, condDeployTrackingReady]"

definition removeConditions :: "platform \<Rightarrow> string list \<Rightarrow> Condition list \<Rightarrow> Condition list" where
  "removeConditions P kinds cs = foldl (\<lambda>a k. pf_RemoveStatusCondition P k a) cs kinds"

definition mergeConditions :: "platform \<Rightarrow> int \<Rightarrow> Condition list \<Rightarrow> Condition list \<Rightarrow> Condition list" where
  "mergeConditions P generation conditions cs =
     foldl (\<lambda>a c. pf_SetStatusCondition P (c\<lparr>cn_observedGeneration := generation\<rparr>) a)
       (removeConditions P (filter (\<lambda>k. k \<notin> set (map cn_type conditions)) optionalConditions) cs) conditions"

definition newStatus ::
  "platform \<Rightarrow> status_env \<Rightarrow> WorkerApp \<Rightarrow> fleetOutcome \<Rightarrow> string \<Rightarrow> Condition list \<Rightarrow> WorkerAppStatus" where
  "newStatus P E app out version conditions =
     (let before = wa_status app;
          sts = (case us_sts E of Inl _ \<Rightarrow> zero_StatefulSet | Inr s \<Rightarrow> s);
          ready = (case us_sts E of Inl _ \<Rightarrow> fs_ready (wst_fleet before) | Inr s \<Rightarrow> ss_readyReplicas (st_status s));
          obs = observeFleet P (us_obs E) sts;
          (restoring, deployments, observed) =
            (case sw_err obs of
               None \<Rightarrow> (wrap32 (sw_restoring obs), podDeployments (us_order E (sw_states obs)),
                        mk_condition ''FleetStateReady'' ConditionTrue ''Observed'' [])
             | Some e \<Rightarrow> (0, [], mk_condition ''FleetStateReady'' ConditionFalse ''Unavailable'' (Error e)))
      in \<lparr>wst_expectedAppVersion = version, wst_deployments = deployments, wst_phase = fo_phase out,
          wst_rolledOutAppVersion = (if fo_rolledOut out then version else []),
          wst_rollout = \<lparr>rl_partition = fo_partition out, rl_waitingOn = fo_waitingOn out\<rparr>,
          wst_fleet = \<lparr>fs_ready = ready, fs_restoring = restoring\<rparr>,
          wst_conditions = mergeConditions P (om_generation (wa_meta app))
            (conditions @ [observed] @ phaseConditions out) (wst_conditions before)\<rparr>)"

text \<open>The status sent, if it differs from the stored one, and the answer.\<close>

definition updateStatus ::
  "platform \<Rightarrow> status_env \<Rightarrow> WorkerApp \<Rightarrow> fleetOutcome \<Rightarrow> string \<Rightarrow> Condition list
    \<Rightarrow> WorkerAppStatus option \<times> unit result" where
  "updateStatus P E app out version conditions =
     (let status = newStatus P E app out version conditions in
      if status = wa_status app then (None, Inr ()) else (Some status, answer (us_update E status)))"

section \<open>The pass\<close>

record ctrl_result =
  rq_requeue :: bool
  rq_requeueAfter :: int

abbreviation requeueAfter :: "int \<Rightarrow> ctrl_result" where
  "requeueAfter d \<equiv> \<lparr>rq_requeue = False, rq_requeueAfter = d\<rparr>"

record pass =
  pa_requests :: "request list"
  pa_status :: "WorkerAppStatus option"
  pa_tracker :: DeployTracker
  pa_result :: "ctrl_result result"

record reconcile_env =
  re_app :: "WorkerApp result"
  re_invalid :: "WorkerAppStatus \<Rightarrow> gerror option"
  re_foundation :: foundation_env
  re_tracker :: tracker_env
  re_rollout :: rollout_env
  re_routes :: route_env
  re_policy :: un_env
  re_scaler :: un_env
  re_status :: status_env

definition invalidStatus :: "platform \<Rightarrow> WorkerApp \<Rightarrow> gerror \<Rightarrow> WorkerAppStatus" where
  "invalidStatus P app e =
     (let gen = om_generation (wa_meta app);
          invalid = (mk_condition ''SpecValid'' ConditionFalse ''InvalidConfiguration'' (Error e))\<lparr>cn_observedGeneration := gen\<rparr>;
          unavailable = (mk_condition ''Available'' ConditionFalse ''InvalidConfiguration'' [])\<lparr>cn_observedGeneration := gen\<rparr>
      in (wa_status app)\<lparr>wst_conditions := pf_SetStatusCondition P unavailable
             (pf_SetStatusCondition P invalid (removeConditions P optionalConditions (wst_conditions (wa_status app)))),
           wst_phase := PhaseDegraded, wst_rolledOutAppVersion := []\<rparr>)"

definition rejectApp :: "platform \<Rightarrow> reconcile_env \<Rightarrow> WorkerApp \<Rightarrow> DeployTracker \<Rightarrow> gerror \<Rightarrow> pass" where
  "rejectApp P E app t e =
     (let status = invalidStatus P app e in
      if status \<noteq> wa_status app
      then \<lparr>pa_requests = [], pa_status = Some status, pa_tracker = t,
            pa_result = (case re_invalid E status of None \<Rightarrow> Inr (requeueAfter 0) | Some e' \<Rightarrow> Inl e')\<rparr>
      else \<lparr>pa_requests = [], pa_status = None, pa_tracker = t, pa_result = Inr (requeueAfter (seconds 60))\<rparr>)"

text \<open>\<open>if cond && (outcome.Requeue == 0 || outcome.Requeue > limit) { outcome.Requeue = limit }\<close>\<close>

definition capRequeue :: "bool \<Rightarrow> int \<Rightarrow> fleetOutcome \<Rightarrow> fleetOutcome" where
  "capRequeue c limit out =
     (if c \<and> (fo_requeue out = 0 \<or> fo_requeue out > limit) then out\<lparr>fo_requeue := limit\<rparr> else out)"

text \<open>After the fleet: the edge, the mesh, the scaler, the status.\<close>

definition finishPass ::
  "WorkerAppReconciler \<Rightarrow> platform \<Rightarrow> reconcile_env \<Rightarrow> WorkerApp \<Rightarrow> DeployTracker \<Rightarrow> request list
    \<Rightarrow> string \<Rightarrow> Condition list \<Rightarrow> fleetOutcome \<Rightarrow> pass" where
  "finishPass r P E app t reqs version conditions out0 =
     (let (r1, transient1, c1) = ensureIngress r P (re_routes E) app;
          (r2, transient2, c2) = ensureAuthorizationPolicy r P (re_policy E) app;
          (r3, transient3, c3) = ensureScaledObject P (re_scaler E) app (rc_PrometheusURL r) (fo_phase out0);
          out = capRequeue (transient1 \<or> transient2 \<or> transient3) (seconds 15) out0;
          (status, res) = updateStatus P (re_status E) app out version (conditions @ c1 @ c2 @ c3)
      in \<lparr>pa_requests = reqs @ r1 @ r2 @ r3, pa_status = status, pa_tracker = t,
          pa_result = (case res of
             Inl e \<Rightarrow> if IsConflict e then Inr \<lparr>rq_requeue = True, rq_requeueAfter = 0\<rparr> else Inl e
           | Inr _ \<Rightarrow> Inr (requeueAfter (fo_requeue out)))\<rparr>)"

definition specValid :: Condition where
  "specValid = mk_condition ''SpecValid'' ConditionTrue ''Validated'' []"

definition reconcileApp ::
  "WorkerAppReconciler \<Rightarrow> platform \<Rightarrow> reconcile_env \<Rightarrow> WorkerApp \<Rightarrow> DeployTracker \<Rightarrow> pass" where
  "reconcileApp r P E app t =
     (case ensureFoundation P (re_foundation E) app (rc_OperatorNamespace r) of
        (reqs, Inl e) \<Rightarrow> \<lparr>pa_requests = reqs, pa_status = None, pa_tracker = t, pa_result = Inl e\<rparr>
      | (reqs, Inr credentials) \<Rightarrow>
          let (t', version, tracking, tracked) = resolveAppVersion P (re_tracker E) app t in
          case reconcileFleet P (re_rollout E) app (rc_PrometheusURL r) version of
            (reqs', Inl e) \<Rightarrow> \<lparr>pa_requests = reqs @ reqs', pa_status = None, pa_tracker = t', pa_result = Inl e\<rparr>
          | (reqs', Inr out) \<Rightarrow>
              finishPass r P E app t' (reqs @ reqs') version (specValid # credentials @ tracked)
                (capRequeue tracking (dt_interval t') out))"

definition Reconcile ::
  "WorkerAppReconciler \<Rightarrow> platform \<Rightarrow> reconcile_env \<Rightarrow> tracker_key \<Rightarrow> DeployTracker \<Rightarrow> pass" where
  "Reconcile r P E req t =
     (case re_app E of
        Inl e \<Rightarrow> \<lparr>pa_requests = [], pa_status = None, pa_tracker = (if IsNotFound e then Forget req t else t),
                  pa_result = (if IsNotFound e then Inr (requeueAfter 0) else Inl e)\<rparr>
      | Inr app \<Rightarrow>
          if om_deleting (wa_meta app)
          then \<lparr>pa_requests = [], pa_status = None, pa_tracker = Forget req t, pa_result = Inr (requeueAfter 0)\<rparr>
          else case validateApp P (trust_policy.truncate r) app of
            Inl e \<Rightarrow> rejectApp P E app t e
          | Inr _ \<Rightarrow> reconcileApp r P E app t)"

section \<open>Conditions\<close>

definition cond_of :: "Condition list \<Rightarrow> string \<Rightarrow> Condition option" where
  "cond_of cs ty = find (\<lambda>c. cn_type c = ty) cs"

text \<open>
  Documented behaviour of \<open>meta.SetStatusCondition\<close> and \<open>meta.RemoveStatusCondition\<close>: the
  condition of the type is replaced or removed, the others stay.
\<close>

definition conditions_ok :: "platform \<Rightarrow> bool" where
  "conditions_ok P \<longleftrightarrow>
     (\<forall>c cs ty. cond_of (pf_SetStatusCondition P c cs) ty = (if ty = cn_type c then Some c else cond_of cs ty)) \<and>
     (\<forall>k cs ty. cond_of (pf_RemoveStatusCondition P k cs) ty = (if ty = k then None else cond_of cs ty))"

lemma cond_of_Set [simp]:
  "conditions_ok P \<Longrightarrow> cond_of (pf_SetStatusCondition P c cs) ty = (if ty = cn_type c then Some c else cond_of cs ty)"
  and cond_of_Remove [simp]:
  "conditions_ok P \<Longrightarrow> cond_of (pf_RemoveStatusCondition P k cs) ty = (if ty = k then None else cond_of cs ty)"
  by (auto simp: conditions_ok_def)

lemma cond_of_removeConditions:
  "conditions_ok P \<Longrightarrow> cond_of (removeConditions P kinds cs) ty = (if ty \<in> set kinds then None else cond_of cs ty)"
  unfolding removeConditions_def by (induction kinds arbitrary: cs) auto

text \<open>The last condition of a type that a pass appends is the one that stays.\<close>

lemma cond_of_setAll:
  assumes "conditions_ok P"
  shows "cond_of (foldl (\<lambda>a c. pf_SetStatusCondition P (f c) a) cs new) ty =
    (case cond_of (rev (map f new)) ty of Some c \<Rightarrow> Some c | None \<Rightarrow> cond_of cs ty)"
  using assms
proof (induction new arbitrary: cs)
  case (Cons c new)
  have "cond_of (xs @ [d]) ty = (case cond_of xs ty of Some x \<Rightarrow> Some x | None \<Rightarrow> if cn_type d = ty then Some d else None)"
    for xs d by (induction xs) (auto simp: cond_of_def)
  with Cons show ?case by (auto split: option.splits)
qed (simp add: cond_of_def)

lemma cond_of_merge:
  assumes "conditions_ok P"
  shows "cond_of (mergeConditions P g new old) ty =
    (case cond_of (rev (map (\<lambda>c. c\<lparr>cn_observedGeneration := g\<rparr>) new)) ty of
       Some c \<Rightarrow> Some c
     | None \<Rightarrow> if ty \<in> set optionalConditions then None else cond_of old ty)"
proof -
  have "cond_of (rev (map (\<lambda>c. c\<lparr>cn_observedGeneration := g\<rparr>) new)) ty = None \<Longrightarrow> ty \<notin> set (map cn_type new)"
    by (auto simp: cond_of_def find_None_iff)
  then show ?thesis
    by (auto simp: mergeConditions_def cond_of_setAll [OF assms] cond_of_removeConditions [OF assms] split: option.split)
qed

lemma phase_conditions_of:
  fixes out :: fleetOutcome and app :: WorkerApp and E :: status_env and version :: string
    and conditions :: "Condition list"
  assumes "conditions_ok P"
  defines "cs \<equiv> wst_conditions (newStatus P E app out version conditions)"
  shows "map_option cn_status (cond_of cs ''Available'') = Some (boolToCondition (fo_phase out = PhaseReady))"
    and "map_option cn_status (cond_of cs ''Degraded'') = Some (boolToCondition (fo_phase out = PhaseDegraded))"
    and "map_option cn_observedGeneration (cond_of cs ''Available'') = Some (om_generation (wa_meta app))"
proof -
  obtain observed where cs: "cs = mergeConditions P (om_generation (wa_meta app))
      ((conditions @ [observed]) @ phaseConditions out) (wst_conditions (wa_status app))"
    unfolding cs_def newStatus_def Let_def case_prod_unfold by simp
  show "map_option cn_status (cond_of cs ''Available'') = Some (boolToCondition (fo_phase out = PhaseReady))"
    and "map_option cn_status (cond_of cs ''Degraded'') = Some (boolToCondition (fo_phase out = PhaseDegraded))"
    and "map_option cn_observedGeneration (cond_of cs ''Available'') = Some (om_generation (wa_meta app))"
    unfolding cs cond_of_merge [OF assms(1)] by (simp_all add: phaseConditions_def Let_def cond_of_def)
qed

section \<open>The published deployments\<close>

lemma podDeployment_name: "podDeployment e = Some d \<Longrightarrow> pd_name d = fst e"
  by (auto simp: podDeployment_def)

lemma map_filter_names:
  "distinct (map fst es) \<Longrightarrow> distinct (map pd_name (List.map_filter podDeployment es))"
  "set (map pd_name (List.map_filter podDeployment es)) \<subseteq> set (map fst es)"
proof (induction es)
  case (Cons e es)
  {
    case 1
    with Cons show ?case by (auto simp: List.map_filter_def podDeployment_name split: option.splits)
  next
    case 2
    with Cons(2) show ?case by (auto simp: List.map_filter_def podDeployment_name split: option.splits)
  }
qed (simp_all add: List.map_filter_def)

lemma podDeployments_perm:
  assumes "mset es = mset es'" "distinct (map fst es)"
  shows "podDeployments es = podDeployments es'"
proof -
  have "mset (List.map_filter podDeployment es) = mset (List.map_filter podDeployment es')"
    using assms(1) by (simp add: List.map_filter_def)
  then have "mset (List.map_filter podDeployment es) = mset (podDeployments es')"
    by (simp add: podDeployments_def)
  moreover have "inj_on pd_name (set (List.map_filter podDeployment es))"
    using map_filter_names(1) [OF assms(2)] by (simp add: distinct_map)
  ultimately show ?thesis
    unfolding podDeployments_def [of es] by (rule sort_key_inj_key_eq) (simp add: podDeployments_def)
qed

lemma podDeployments_distinct:
  assumes "distinct (map fst es)"
  shows "sorted (map pd_name (podDeployments es)) \<and> distinct (map pd_name (podDeployments es))"
proof -
  have "mset (map pd_name (podDeployments es)) = mset (map pd_name (List.map_filter podDeployment es))"
    by (simp add: podDeployments_def)
  with map_filter_names(1) [OF assms] have "distinct (map pd_name (podDeployments es))"
    by (metis mset_eq_imp_distinct_iff)
  then show ?thesis by (simp add: podDeployments_def)
qed

lemma set_podDeployments: "d \<in> set (podDeployments es) \<longleftrightarrow> (\<exists>e \<in> set es. podDeployment e = Some d)"
  by (force simp: podDeployments_def List.map_filter_def)

section \<open>What the fleet writes is owned\<close>

lemma pauseScaling_owned:
  assumes "owner_refs_decide P" "x \<in> set (fst (pauseScaling P E app url))"
  shows "owned_request P app x"
  using assms
  by (auto simp: pauseScaling_def Let_def case_prod_unfold split: if_splits sum.splits
      intro: ensureUnstructured_owned scaler.writes_owned)

abbreviation sts_owners :: "StatefulSet \<Rightarrow> ownerref list" where
  "sts_owners s \<equiv> om_ownerRefs (st_meta s)"

lemma edited_owners [simp]:
  "sts_owners (setStsPartition p s) = sts_owners s"
  "sts_owners (annotate k v s) = sts_owners s"
  "sts_owners (unannotate k s) = sts_owners s"
  by (simp_all add: annotate_def unannotate_def)

text \<open>Documented behaviour of an update: the answer keeps the owner references sent.\<close>

definition keeps_owners :: "rollout_env \<Rightarrow> bool" where
  "keeps_owners E \<longleftrightarrow> (\<forall>a b. ro_update E a = Inr b \<longrightarrow> sts_owners b = sts_owners a)"

lemma fleet_branch_writes:
  assumes "x \<in> set (fst (fleet_branch P E app existing desired version))" "keeps_owners E"
  shows "\<exists>s. x = Update (KStatefulSet s) \<and> sts_owners s = sts_owners existing"
  using assms
  by (auto simp: fleet_branch_def recreateStep_requests applyTemplate_requests rolloutStep_requests
      steadyFleet_requests restarted_def frozen_def released_def keeps_owners_def split: if_splits sum.splits)

lemma driveFleet_writes:
  assumes "x \<in> set (fst (driveFleet P E app url existing desired version))"
  shows "x \<in> set (fst (pauseScaling P (ro_pause E) app url)) \<or>
    x \<in> set (fst (fleet_branch P E app existing desired version))"
  using assms by (auto simp: driveFleet_alt eff_bind_def split: if_splits sum.splits)

lemma reconcileFleet_owned:
  assumes "owner_refs_decide P" "keeps_owners E" "x \<in> set (fst (reconcileFleet P E app url version))"
  shows "owned_request P app x"
proof (cases "ro_existing E")
  case (Inl e)
  with assms(3) show ?thesis
    by (auto simp: reconcileFleet_def Let_def split: sum.splits if_splits option.splits)
next
  case (Inr existing)
  with assms(3) obtain desired where
    own: "pf_IsControlledBy P (st_meta existing) (wa_meta app)"
    and x: "x \<in> set (fst (driveFleet P E app url existing desired version))"
    by (auto simp: reconcileFleet_def Let_def split: sum.splits if_splits)
  from driveFleet_writes [OF x] show ?thesis
  proof
    assume "x \<in> set (fst (pauseScaling P (ro_pause E) app url))"
    with assms(1) show ?thesis by (rule pauseScaling_owned)
  next
    assume "x \<in> set (fst (fleet_branch P E app existing desired version))"
    then obtain s where s: "x = Update (KStatefulSet s)" "sts_owners s = sts_owners existing"
      using fleet_branch_writes assms(2) by blast
    then have "pf_IsControlledBy P (st_meta s) (wa_meta app)"
      using assms(1) own unfolding owner_refs_decide_def by blast
    with s show ?thesis by simp
  qed
qed

section \<open>The structure of a pass\<close>

lemma finishPass_fields:
  "pa_requests (finishPass r P E app t reqs version conditions out) =
     reqs @ fst (ensureIngress r P (re_routes E) app) @ fst (ensureAuthorizationPolicy r P (re_policy E) app)
       @ fst (ensureScaledObject P (re_scaler E) app (rc_PrometheusURL r) (fo_phase out))"
  "pa_tracker (finishPass r P E app t reqs version conditions out) = t"
  by (simp_all add: finishPass_def Let_def case_prod_unfold)

text \<open>How far a pass over a valid application gets.\<close>

lemma reconcileApp_cases:
  obtains (foundation) reqs e where "ensureFoundation P (re_foundation E) app (rc_OperatorNamespace r) = (reqs, Inl e)"
      "reconcileApp r P E app t = \<lparr>pa_requests = reqs, pa_status = None, pa_tracker = t, pa_result = Inl e\<rparr>"
  | (fleet) reqs creds t' version tracking tracked reqs' e where "ensureFoundation P (re_foundation E) app (rc_OperatorNamespace r) = (reqs, Inr creds)"
      "resolveAppVersion P (re_tracker E) app t = (t', version, tracking, tracked)"
      "reconcileFleet P (re_rollout E) app (rc_PrometheusURL r) version = (reqs', Inl e)"
      "reconcileApp r P E app t = \<lparr>pa_requests = reqs @ reqs', pa_status = None, pa_tracker = t', pa_result = Inl e\<rparr>"
  | (finished) reqs creds t' version tracking tracked reqs' out where "ensureFoundation P (re_foundation E) app (rc_OperatorNamespace r) = (reqs, Inr creds)"
      "resolveAppVersion P (re_tracker E) app t = (t', version, tracking, tracked)"
      "reconcileFleet P (re_rollout E) app (rc_PrometheusURL r) version = (reqs', Inr out)"
      "reconcileApp r P E app t = finishPass r P E app t' (reqs @ reqs') version (specValid # creds @ tracked)
         (capRequeue tracking (dt_interval t') out)"
proof -
  obtain reqs f where f: "ensureFoundation P (re_foundation E) app (rc_OperatorNamespace r) = (reqs, f)" by fastforce
  obtain t' version tracking tracked where v: "resolveAppVersion P (re_tracker E) app t = (t', version, tracking, tracked)"
    by (metis prod.exhaust)
  obtain reqs' g where g: "reconcileFleet P (re_rollout E) app (rc_PrometheusURL r) version = (reqs', g)"
    by fastforce
  note run = reconcileApp_def [of r P E app t]
  show thesis
  proof (cases f)
    case (Inl e)
    with f foundation show thesis by (simp add: run)
  next
    case creds: (Inr creds)
    show thesis
    proof (cases g)
      case (Inl e)
      with f v g creds fleet show thesis by (simp add: run)
    next
      case (Inr out)
      with f v g creds finished show thesis by (simp add: run)
    qed
  qed
qed

lemma reconcileApp_owned:
  assumes "owner_refs_decide P" "keeps_owners (re_rollout E)"
    and "x \<in> set (pa_requests (reconcileApp r P E app t))"
  shows "owned_request P app x"
proof -
  have f: "owned_request P app x" if "x \<in> set reqs" "ensureFoundation P (re_foundation E) app ns = (reqs, z)" for reqs ns z
    using ensureFoundation_owned [OF assms(1), of x "re_foundation E" app ns] that by simp
  have g: "owned_request P app x" if "x \<in> set reqs" "reconcileFleet P (re_rollout E) app u v = (reqs, z)" for reqs u v z
    using reconcileFleet_owned [OF assms(1,2), of x app u v] that by simp
  show ?thesis
    by (cases rule: reconcileApp_cases [of P E app r t])
      (use assms f g in \<open>auto simp: finishPass_fields
        intro: edge.writes_owned mesh.writes_owned scaler.writes_owned\<close>)
qed

section \<open>When the next pass comes\<close>

lemma write_then_result:
  assumes "snd (write_then app upd s k) = Inr out"
  shows "out = conflictOutcome app \<or> (\<exists>t. upd s = Inr t \<and> snd (k t) = Inr out)"
  using assms by (auto simp: write_then_def updateFleet_def eff_bind_def split: sum.splits if_splits)

text \<open>The clock passes the settle deadline between its two readings of one pass.\<close>

definition settle_race :: "rollout_env \<Rightarrow> bool" where
  "settle_race E \<longleftrightarrow> (\<exists>seen d. (ro_existing E = Inr seen \<or> (\<exists>s. ro_update E s = Inr seen)) \<and>
     parseTime (sts_annotation seen settleAnnotation) = Some d \<and> ro_nowCheck E < d \<and> d \<le> ro_nowUntil E)"

lemma duration_sat_pos: "0 < duration_sat d \<longleftrightarrow> 0 < d"
  by (auto simp: duration_sat_def)

lemma outcome_requeue [simp]: "fo_requeue (outcome ph w r) = r" "fo_phase (outcome ph w r) = ph"
  by (simp_all add: outcome_def)

lemma conflict_requeue [simp]: "0 < fo_requeue (conflictOutcome app)"
  by (simp add: conflictOutcome_def)

lemma rolloutAdvance_requeue:
  assumes "snd (rolloutAdvance P E app n p sts) = Inr out"
  shows "0 < fo_requeue out \<or> (\<exists>d. parseTime (sts_annotation sts settleAnnotation) = Some d \<and>
    ro_nowCheck E < d \<and> d \<le> ro_nowUntil E)"
  using assms
  by (auto simp: rolloutAdvance_def rolloutRelease_def Let_def duration_sat_pos dest!: write_then_result
      split: if_splits sum.splits option.splits)

lemma rolloutStep_requeue:
  assumes "snd (rolloutStep P E app existing) = Inr out" "ro_existing E = Inr existing"
  shows "0 < fo_requeue out \<or> settle_race E"
proof (cases "stsPartition existing > deref0 (st_replicas existing)")
  case True
  with assms(1) show ?thesis
    by (auto simp: rolloutStep_def Let_def settle_race_def dest!: write_then_result rolloutAdvance_requeue)
next
  case False
  with assms show ?thesis
    by (auto simp: rolloutStep_def Let_def settle_race_def dest!: rolloutAdvance_requeue)
qed

lemma recreateStep_requeue: "snd (recreateStep E app existing desired hazard) = Inr out \<Longrightarrow> 0 < fo_requeue out"
  by (auto simp: recreateStep_def Let_def dest!: write_then_result split: if_splits sum.splits)

lemma applyTemplate_requeue:
  "snd (applyTemplate P E app existing desired) = Inr out \<Longrightarrow>
     0 < fo_requeue out \<or> (fo_phase out = PhaseDegraded \<and> fo_requeue out = 0)"
  by (auto simp: applyTemplate_def Let_def dest!: write_then_result recreateStep_requeue split: if_splits sum.splits)

lemma steadyFleet_requeue: "snd (steadyFleet P E app existing version) = Inr out \<Longrightarrow> 0 < fo_requeue out"
  by (auto simp: steadyFleet_def Let_def dest!: write_then_result split: if_splits option.splits)

lemma fleet_branch_requeue:
  assumes "snd (fleet_branch P E app existing desired version) = Inr out" "ro_existing E = Inr existing"
  shows "0 < fo_requeue out \<or> settle_race E \<or> (fo_phase out = PhaseDegraded \<and> fo_requeue out = 0)"
  using assms(1)
  by (auto simp: fleet_branch_def split: if_splits
      dest!: rolloutStep_requeue [OF _ assms(2)] recreateStep_requeue applyTemplate_requeue steadyFleet_requeue)

lemma reconcileFleet_requeue:
  assumes "snd (reconcileFleet P E app url version) = Inr out"
  shows "0 < fo_requeue out \<or> settle_race E \<or> (fo_phase out = PhaseDegraded \<and> fo_requeue out = 0)"
proof (cases "ro_existing E")
  case (Inl e)
  with assms show ?thesis
    by (auto simp: reconcileFleet_def Let_def split: sum.splits if_splits option.splits)
next
  case (Inr existing)
  with assms obtain desired where "snd (driveFleet P E app url existing desired version) = Inr out"
    by (auto simp: reconcileFleet_def Let_def split: sum.splits if_splits)
  then have "0 < fo_requeue out \<or> snd (fleet_branch P E app existing desired version) = Inr out"
    by (auto simp: driveFleet_alt eff_bind_def split: if_splits sum.splits)
  with fleet_branch_requeue Inr show ?thesis by blast
qed

lemma resolve_interval: "dt_interval (fst (resolveAppVersion P E app t)) = dt_interval t"
proof -
  have "dt_interval (fst (pointerVersion P E app t)) = dt_interval t"
    by (cases rule: pointerVersion_outcomes [of E app P t]) (auto simp: stored_def)
  with resolveAppVersion_tracker [of P E app t] show ?thesis by auto
qed

lemma reachable_interval: "tracker_reachable t \<Longrightarrow> 0 < dt_interval t"
  by (induction rule: tracker_reachable.induct) (simp_all add: NewDeployTracker_def Forget_def resolve_interval)

section \<open>The result of a pass\<close>

abbreviation valid_app :: "WorkerAppReconciler \<Rightarrow> platform \<Rightarrow> reconcile_env \<Rightarrow> WorkerApp \<Rightarrow> bool" where
  "valid_app r P E app \<equiv> re_app E = Inr app \<and> \<not> om_deleting (wa_meta app) \<and>
     validateApp P (trust_policy.truncate r) app = Inr ()"

lemma Reconcile_valid: "valid_app r P E app \<Longrightarrow> Reconcile r P E req t = reconcileApp r P E app t"
  by (simp add: Reconcile_def)

lemma Reconcile_requests:
  assumes "x \<in> set (pa_requests (Reconcile r P E req t))"
  obtains app where "valid_app r P E app" "x \<in> set (pa_requests (reconcileApp r P E app t))"
  using assms by (auto simp: Reconcile_def rejectApp_def Let_def split: sum.splits if_splits)

lemma ensureFoundation_fleet:
  "x \<in> set (fst (ensureFoundation P E app ns)) \<Longrightarrow> \<not> fleet_write x"
  unfolding ensureFoundation_def
  by (elim eff_bind_owned [rotated 2])
    (auto simp: stage_def fleet_write_def kind_defs dest!: ensureObject_writes)

lemma finishPass_result:
  assumes "pa_result (finishPass r P E app t reqs version conditions out) = Inr res"
  shows "rq_requeue res \<and> rq_requeueAfter res = 0 \<or>
    \<not> rq_requeue res \<and> rq_requeueAfter res = fo_requeue (capRequeue (fst (snd (ensureIngress r P (re_routes E) app)) \<or>
      fst (snd (ensureAuthorizationPolicy r P (re_policy E) app)) \<or>
      fst (snd (ensureScaledObject P (re_scaler E) app (rc_PrometheusURL r) (fo_phase out)))) (seconds 15) out)"
  using assms
  by (auto simp: finishPass_def Let_def case_prod_unfold split: sum.splits if_splits)

lemma capRequeue_simps [simp]:
  "fo_phase (capRequeue c l out) = fo_phase out" "fo_rolledOut (capRequeue c l out) = fo_rolledOut out"
  "fo_partition (capRequeue c l out) = fo_partition out" "fo_waitingOn (capRequeue c l out) = fo_waitingOn out"
  by (simp_all add: capRequeue_def)

lemma capRequeue_pos: "0 < l \<Longrightarrow> 0 < fo_requeue out \<or> (c \<and> fo_requeue out = 0) \<Longrightarrow> 0 < fo_requeue (capRequeue c l out)"
  by (auto simp: capRequeue_def)

lemma capRequeue_le: "c \<Longrightarrow> fo_requeue (capRequeue c l out) \<le> l"
  "fo_requeue out \<le> b \<Longrightarrow> 0 < b \<Longrightarrow> 0 < fo_requeue out \<Longrightarrow> fo_requeue (capRequeue c l out) \<le> b"
  by (auto simp: capRequeue_def)

lemma finishPass_status:
  assumes "pa_status (finishPass r P E app t reqs version conditions out) = Some st"
  shows "\<exists>conditions' c. st = newStatus P (re_status E) app (capRequeue c (seconds 15) out) version conditions'"
  using assms unfolding finishPass_def updateStatus_def Let_def case_prod_unfold
  by (simp split: if_splits) blast

lemma newStatus_fields [simp]:
  "wst_phase (newStatus P E app out version conditions) = fo_phase out"
  "wst_expectedAppVersion (newStatus P E app out version conditions) = version"
  "wst_rolledOutAppVersion (newStatus P E app out version conditions) = (if fo_rolledOut out then version else [])"
  by (simp_all add: newStatus_def Let_def case_prod_unfold)

text \<open>A status that names a rolled out version comes from a pass that saw the fleet serve it.\<close>

lemma published_version:
  assumes "pa_status (Reconcile r P E req t) = Some st" "wst_rolledOutAppVersion st \<noteq> []"
  obtains app version conditions out out' where "valid_app r P E app"
    "snd (reconcileFleet P (re_rollout E) app (rc_PrometheusURL r) version) = Inr out" "fo_rolledOut out"
    "st = newStatus P (re_status E) app out' version conditions" "fo_phase out' = fo_phase out"
    "version = wst_rolledOutAppVersion st"
proof -
  obtain app where v: "valid_app r P E app" and st: "pa_status (reconcileApp r P E app t) = Some st"
    using assms by (auto simp: Reconcile_def rejectApp_def invalidStatus_def Let_def split: sum.splits if_splits)
  show thesis
  proof (cases rule: reconcileApp_cases [of P E app r t])
    case (finished reqs creds t' version tracking tracked reqs' out)
    from st obtain conditions c where n: "st = newStatus P (re_status E) app
        (capRequeue c (seconds 15) (capRequeue tracking (dt_interval t') out)) version conditions"
      unfolding finished(4) using finishPass_status by blast
    with assms(2) have "fo_rolledOut out" "version = wst_rolledOutAppVersion st" by (auto split: if_splits)
    with v finished(3) show thesis by (intro that [OF _ _ _ n]) simp_all
  qed (use st in simp_all)
qed

lemma observed_wf: "gm_wf (sw_states (observeFleet P E sts))"
  by (auto simp: observeFleet_def failed_sweep_def FleetSweep_states Let_def split: sum.split option.split)

lemma newStatus_deployments:
  assumes "us_sts E = Inr sts" "sw_err (observeFleet P (us_obs E) sts) = None"
  shows "wst_deployments (newStatus P E app out version conditions) =
    podDeployments (us_order E (sw_states (observeFleet P (us_obs E) sts)))"
  using assms by (simp add: newStatus_def Let_def)

section \<open>Properties\<close>

text \<open>
  C8. A pass writes nothing it does not own: every object it creates carries the controller
  reference of the application, and every object it updates or deletes (StatefulSet,
  Services, policies, routes, scaler) is controlled by it. (The answer to an update of the
  StatefulSet keeps the owner references sent.)
\<close>

theorem pass_owned:
  assumes "owner_refs_decide P" "keeps_owners (re_rollout E)"
    and "x \<in> set (pa_requests (Reconcile r P E req t))"
  shows "\<exists>app. re_app E = Inr app \<and> owned_request P app x"
  by (rule Reconcile_requests [OF assms(3)]) (use reconcileApp_owned [OF assms(1,2)] in blast)

text \<open>
  C7. The StatefulSet is written only for a validated application that is not being deleted,
  after its foundation is in place, and by the rollout state machine alone: the requests of
  such a pass are those of the foundation, then those of \<open>reconcileFleet\<close> for the resolved
  version, then those of the edge, and only the middle part contains StatefulSets.
\<close>

theorem fleet_written_after_foundation:
  assumes "x \<in> set (pa_requests (Reconcile r P E req t))" "fleet_write x"
  shows "\<exists>app pre creds version mid post. valid_app r P E app \<and>
    ensureFoundation P (re_foundation E) app (rc_OperatorNamespace r) = (pre, Inr creds) \<and>
    version = fst (snd (resolveAppVersion P (re_tracker E) app t)) \<and>
    mid = fst (reconcileFleet P (re_rollout E) app (rc_PrometheusURL r) version) \<and>
    pa_requests (Reconcile r P E req t) = pre @ mid @ post \<and> x \<in> set mid \<and>
    \<not> (\<exists>y \<in> set pre \<union> set post. fleet_write y)"
proof (rule Reconcile_requests [OF assms(1)])
  fix app
  assume v: "valid_app r P E app" and x: "x \<in> set (pa_requests (reconcileApp r P E app t))"
  note run = Reconcile_valid [OF v, of req t]
  show ?thesis
  proof (cases rule: reconcileApp_cases [of P E app r t])
    case (foundation reqs e)
    with x assms(2) ensureFoundation_fleet [of x P "re_foundation E" app "rc_OperatorNamespace r"]
    show ?thesis by simp
  next
    case (fleet reqs creds t' version tracking tracked reqs' e)
    then have "\<not> (\<exists>y \<in> set reqs. fleet_write y)"
      using ensureFoundation_fleet [of _ P "re_foundation E" app "rc_OperatorNamespace r"] by fastforce
    with fleet v x assms(2) run show ?thesis by auto
  next
    case (finished reqs creds t' version tracking tracked reqs' out)
    define post where "post = fst (ensureIngress r P (re_routes E) app)
      @ fst (ensureAuthorizationPolicy r P (re_policy E) app)
      @ fst (ensureScaledObject P (re_scaler E) app (rc_PrometheusURL r) (fo_phase out))"
    have "\<not> (\<exists>y \<in> set reqs. fleet_write y)"
      using ensureFoundation_fleet [of _ P "re_foundation E" app "rc_OperatorNamespace r"] finished(1) by fastforce
    moreover have "\<not> (\<exists>y \<in> set post. fleet_write y)"
      using edge.leaves_fleet mesh.leaves_fleet scaler.leaves_fleet unfolding post_def by (metis Un_iff set_append)
    moreover have "pa_requests (reconcileApp r P E app t) = reqs @ reqs' @ post"
      unfolding finished(4) by (simp add: finishPass_fields post_def)
    ultimately show ?thesis
      using finished(1-3) v x assms(2) run by (intro exI [of _ app]) auto
  qed
qed

text \<open>
  C14. A specification that does not validate changes nothing but the status: no child object
  is written, the tracker stays, and the status (the one sent, or the stored one where
  nothing is sent) is Degraded and unavailable, claims no rolled out version, and carries the
  reason.
\<close>

theorem invalid_spec_inert:
  assumes "re_app E = Inr app" "\<not> om_deleting (wa_meta app)"
    and "validateApp P (trust_policy.truncate r) app = Inl e" "conditions_ok P"
    and "pa_status (Reconcile r P E req t) = sent"
  defines "st \<equiv> case sent of None \<Rightarrow> wa_status app | Some s \<Rightarrow> s"
  shows "pa_requests (Reconcile r P E req t) = [] \<and> pa_tracker (Reconcile r P E req t) = t \<and>
    wst_phase st = PhaseDegraded \<and> wst_rolledOutAppVersion st = [] \<and>
    map_option cn_status (cond_of (wst_conditions st) ''Available'') = Some ConditionFalse \<and>
    map_option cn_status (cond_of (wst_conditions st) ''SpecValid'') = Some ConditionFalse \<and>
    map_option cn_message (cond_of (wst_conditions st) ''SpecValid'') = Some (Error e)"
proof -
  have run: "Reconcile r P E req t = rejectApp P E app t e" using assms(1-3) by (simp add: Reconcile_def)
  have st: "st = invalidStatus P app e"
    using assms(5) unfolding st_def run by (auto simp: rejectApp_def Let_def split: if_splits)
  show ?thesis
    unfolding st run using assms(4) by (simp add: rejectApp_def invalidStatus_def Let_def mk_condition_def)
qed

text \<open>
  A WorkerApp that is gone or being deleted leaves no trace: nothing is written, its
  entry of the deploy tracker is dropped, and no further pass is scheduled.
\<close>

lemma gone_app_forgotten:
  assumes "(\<exists>e. re_app E = Inl e \<and> IsNotFound e) \<or> (\<exists>app. re_app E = Inr app \<and> om_deleting (wa_meta app))"
  shows "pa_requests (Reconcile r P E req t) = [] \<and> pa_status (Reconcile r P E req t) = None \<and>
    map_of (dt_cache (pa_tracker (Reconcile r P E req t))) req = None \<and>
    pa_result (Reconcile r P E req t) = Inr (requeueAfter 0)"
proof -
  have "map_of (tc_delete req c) req = None" for c
    by (auto simp: tc_delete_def map_of_eq_None_iff)
  with assms show ?thesis by (auto simp: Reconcile_def Forget_def)
qed

text \<open>
  C15. A fleet is never forgotten: a pass over a valid application that does not fail is
  followed by another one, except where the fleet is Degraded waiting for a change of the
  specification, or where the clock passes the settle deadline between its two readings.
\<close>

theorem pass_rescheduled:
  assumes "valid_app r P E app" "tracker_reachable t" "pa_result (Reconcile r P E req t) = Inr res"
    and "version = fst (snd (resolveAppVersion P (re_tracker E) app t))"
  shows "rq_requeue res \<or> 0 < rq_requeueAfter res \<or> settle_race (re_rollout E) \<or>
    (\<exists>out. snd (reconcileFleet P (re_rollout E) app (rc_PrometheusURL r) version) = Inr out \<and>
       fo_phase out = PhaseDegraded \<and> fo_requeue out = 0)"
proof -
  from assms(3) have res: "pa_result (reconcileApp r P E app t) = Inr res"
    unfolding Reconcile_valid [OF assms(1)] .
  show ?thesis
  proof (cases rule: reconcileApp_cases [of P E app r t])
    case (finished reqs creds t' version' tracking tracked reqs' out)
    have l: "0 < dt_interval t'"
      using reachable_interval [OF assms(2)] resolve_interval [of P "re_tracker E" app t] finished(2) by simp
    have "0 < fo_requeue out \<or> settle_race (re_rollout E) \<or> (fo_phase out = PhaseDegraded \<and> fo_requeue out = 0)"
      using reconcileFleet_requeue [of P "re_rollout E" app "rc_PrometheusURL r" version' out] finished(3) by simp
    moreover have "rq_requeue res \<or> 0 < rq_requeueAfter res" if "0 < fo_requeue out"
      using finishPass_result [OF res [unfolded finished(4)]] capRequeue_pos l that by (metis zero_less_numeral mult_pos_pos)
    moreover have "version' = version" using finished(2) assms(4) by simp
    ultimately show ?thesis using finished(3) by auto
  qed (use res in simp_all)
qed


text \<open>
  C9. What the status claims holds: a published status that names a rolled out version is
  Ready and Available, names the expected version, and every ordinal of the fleet the pass
  found served that version with nothing draining and no swap in progress.
\<close>

theorem published_rollout:
  assumes "pa_status (Reconcile r P E req t) = Some st" "wst_rolledOutAppVersion st = v" "v \<noteq> []"
    and "ro_existing (re_rollout E) = Inr existing" "obs_ok (ro_obs (re_rollout E))"
    and "\<forall>m. set (ro_order (re_rollout E) m) = set m" "name \<in> fleet_members existing" "conditions_ok P"
  shows "wst_phase st = PhaseReady \<and> wst_expectedAppVersion st = v \<and>
    map_option cn_status (cond_of (wst_conditions st) ''Available'') = Some ConditionTrue \<and>
    (\<exists>s d. (name, s) \<in> set (sw_states (observeFleet P (ro_obs (re_rollout E)) existing)) \<and>
       po_deployment s = Some d \<and> ds_version d = v \<and> ds_draining d = [] \<and> ds_swapping d = 0)"
proof (rule published_version [OF assms(1)])
  show "wst_rolledOutAppVersion st \<noteq> []" using assms(2,3) by simp
next
  fix app version conditions out out'
  assume run: "snd (reconcileFleet P (re_rollout E) app (rc_PrometheusURL r) version) = Inr out" "fo_rolledOut out"
    and st: "st = newStatus P (re_status E) app out' version conditions" "fo_phase out' = fo_phase out"
    and v: "version = wst_rolledOutAppVersion st"
  note v = v [unfolded assms(2)]
  note served = rolledOut_ordinals [OF run assms(4-7)]
  have "map_option cn_status (cond_of (wst_conditions st) ''Available'') = Some ConditionTrue"
    using phase_conditions_of(1) [OF assms(8), of "re_status E" app out' version conditions] st served
    by (simp add: boolToCondition_def)
  moreover have "wst_phase st = PhaseReady" "wst_expectedAppVersion st = v" using st v served by simp_all
  ultimately show ?thesis using served v by blast
qed

text \<open>
  The published list of deployments is canonical: sorted by pod name without duplicates,
  one entry for exactly the pods of the observation that report a deployment, and the same
  for every order in which Go ranges over the map of states.
\<close>

lemma published_deployments:
  assumes "us_sts E = Inr sts" "sw_err (observeFleet P (us_obs E) sts) = None"
    and "states = sw_states (observeFleet P (us_obs E) sts)" "mset (us_order E states) = mset states"
    and "ds = wst_deployments (newStatus P E app out version conditions)"
  shows "sorted (map pd_name ds) \<and> distinct (map pd_name ds) \<and> ds = podDeployments states \<and>
    (\<forall>d. d \<in> set ds \<longleftrightarrow> (\<exists>e \<in> set states. podDeployment e = Some d))"
proof -
  have "distinct (map fst states)" using gm_wf_distinct [OF observed_wf] assms(3) by simp
  moreover from this have "ds = podDeployments states"
    unfolding assms(5) newStatus_deployments [OF assms(1,2)] assms(3) [symmetric]
    using podDeployments_perm [of states "us_order E states"] assms(4) by simp
  ultimately show ?thesis using podDeployments_distinct set_podDeployments by blast
qed

text \<open>
  The race excluded above: when the settle deadline falls between the two
  readings of the clock, the step asks for a requeue after no time at all, which the work
  queue reads as none, while the rollout is under way.
\<close>

lemma settle_race_drops_requeue:
  assumes "stsPartition sts \<le> deref0 (st_replicas sts)" "0 < stsPartition sts"
    and "ss_observedGeneration (st_status sts) = om_generation (st_meta sts)"
    and "parseTime (sts_annotation sts settleAnnotation) = Some d" "ro_nowCheck E < d" "d \<le> ro_nowUntil E"
  shows "\<exists>out. rolloutStep P E app sts = ([], Inr out) \<and> fo_phase out = PhaseRollingOut \<and> fo_requeue out \<le> 0"
  using assms by (simp add: rolloutStep_def rolloutAdvance_def Let_def duration_sat_def)

end
