(* ===== verification/Steady_State.thy ===== *)
theory Steady_State
  imports Reconciler Rollout_Machine
begin

text \<open>
  A cluster in which nothing is left to do. The reconciler is woken by every change of an
  object it owns, its own writes included, so a pass that writes without need wakes itself
  again (\<open>src/internal/controller/workerapp_controller.go\<close>: the comparisons in \<open>ensureObject\<close>,
  \<open>ensureUnstructured\<close> and \<open>updateStatus\<close>). Here: what it means that every child object is as
  the operator wants it, and that two passes over such a cluster write no child and store the
  status at most once.
\<close>

section \<open>Nothing depends on the stored status\<close>

abbreviation restatus :: "WorkerAppStatus \<Rightarrow> WorkerApp \<Rightarrow> WorkerApp" where
  "restatus st app \<equiv> app\<lparr>wa_status := st\<rparr>"

named_theorems status_free

lemma fields_restatus [status_free]:
  "wa_spec (restatus st app) = wa_spec app" "wa_meta (restatus st app) = wa_meta app"
  by simp_all

lemma names_restatus [status_free]:
  "fleetName (restatus st app) = fleetName app"
  "internalServiceName (restatus st app) = internalServiceName app"
  "fleetLabels (restatus st app) = fleetLabels app"
  "selectorLabels (restatus st app) = selectorLabels app"
  "desiredReplicas (restatus st app) = desiredReplicas app"
  "memoryGi (restatus st app) = memoryGi app"
  "maxResidentCells (restatus st app) = maxResidentCells app"
  "clusterDomain (restatus st app) = clusterDomain app"
  "autoscalingEnabled (restatus st app) = autoscalingEnabled app"
  "isAzureBucket (restatus st app) = isAzureBucket app"
  "trackableBucket (restatus st app) = trackableBucket app"
  "app_key (restatus st app) = app_key app"
  unfolding fleetName_def internalServiceName_def fleetLabels_def selectorLabels_def desiredReplicas_def
    memoryGi_def maxResidentCells_def clusterDomain_def autoscalingEnabled_def isAzureBucket_def
    trackableBucket_def app_key_def status_free
  by (rule refl)+

lemma template_restatus [status_free]:
  "templateEnv (restatus st app) = templateEnv app"
  "templateVolumes (restatus st app) = templateVolumes app"
  "templateMounts (restatus st app) = templateMounts app"
  "fleetAffinity (restatus st app) = fleetAffinity app"
  "fleetClaims (restatus st app) = fleetClaims app"
  unfolding templateEnv_def rssMb_def templateVolumes_def templateMounts_def fleetAffinity_def fleetClaims_def
    status_free
  by (rule refl)+

lemma container_restatus [status_free]: "templateContainer (restatus st app) = templateContainer app"
  unfolding templateContainer_def status_free
  by (rule refl)+

lemma podTemplate_restatus [status_free]: "buildPodTemplate (restatus st app) h v = buildPodTemplate app h v"
  unfolding buildPodTemplate_def status_free
  by (rule refl)+

lemma builders_restatus [status_free]:
  "buildStatefulSet P (restatus st app) h v = buildStatefulSet P app h v"
  "buildInternalService (restatus st app) = buildInternalService app"
  "buildPublicService (restatus st app) = buildPublicService app"
  "buildServiceAccount (restatus st app) = buildServiceAccount app"
  "buildNetworkPolicy (restatus st app) ns = buildNetworkPolicy app ns"
  "buildPDB (restatus st app) = buildPDB app"
  "buildHTTPRoute (restatus st app) gn gns = buildHTTPRoute app gn gns"
  "buildIngress (restatus st app) c i = buildIngress app c i"
  "buildVirtualService (restatus st app) gws = buildVirtualService app gws"
  "buildAuthorizationPolicy (restatus st app) p = buildAuthorizationPolicy app p"
  unfolding buildStatefulSet_def buildInternalService_def buildPublicService_def buildServiceAccount_def
    buildNetworkPolicy_def buildPDB_def buildHTTPRoute_def buildIngress_def buildVirtualService_def
    buildAuthorizationPolicy_def status_free
  by (rule refl)+

lemma scaledObject_restatus [status_free]:
  "buildScaledObject (restatus st app) as url paused = buildScaledObject app as url paused"
  unfolding buildScaledObject_def scaleTriggers_def guardedQuery_def seriesSelector_def status_free
  by (rule refl)+

lemma ensure_restatus [status_free]:
  "requireOwnership P (restatus st app) ty m = requireOwnership P app ty m"
  "prepared K P (restatus st app) d = prepared K P app d"
  "mutateServiceAccount (restatus st app) = mutateServiceAccount app"
  "credentialsCondition (restatus st app) = credentialsCondition app"
  unfolding requireOwnership_def prepared_def mutateServiceAccount_def credentialsCondition_def status_free
  by (rule refl)+

lemma children_restatus [status_free]:
  "ensureObject K P E (restatus st app) d mutate = ensureObject K P E app d mutate"
  "ensureUnstructured P U (restatus st app) u = ensureUnstructured P U app u"
  unfolding ensureObject_def ensureUnstructured_def status_free
  by (rule refl)+

lemma removeRoutes_restatus [status_free]:
  "removeRoutes P E (restatus st app) mode kinds = removeRoutes P E app mode kinds"
  by (induction kinds) (simp_all split: sum.split)

lemma operations_restatus [status_free]:
  "ensureFoundation P F (restatus st app) ns = ensureFoundation P F app ns"
  "ensureScaledObject P U (restatus st app) url phase = ensureScaledObject P U app url phase"
  "ensureAuthorizationPolicy r P U (restatus st app) = ensureAuthorizationPolicy r P U app"
  "ensureIngress r P R (restatus st app) = ensureIngress r P R app"
  unfolding ensureFoundation_def ensureScaledObject_def ensureAuthorizationPolicy_def ensureIngress_def
    removeObsoleteRoutes_def activeMode_def ensureVirtualService_def ensureV1Ingress_def ensureHTTPRoute_def
    status_free
  by (rule refl)+

lemma tracking_restatus [status_free]:
  "resolveAppVersion P T (restatus st app) t = resolveAppVersion P T app t"
  unfolding resolveAppVersion_def pointerVersion_def trackingIdentity_def currentBucketVersion_def status_free
  by (rule refl)+

lemma validate_restatus [status_free]: "validateApp P T (restatus st app) = validateApp P T app"
  unfolding validateApp_def validateVars_def validateTrust_def status_free
  by (rule refl)+

lemma fleet_restatus [status_free]:
  "configHash P get (restatus st app) = configHash P get app"
  "runtimeChangeRefusal (restatus st app) img = runtimeChangeRefusal app img"
  unfolding configHash_def secretRefs_def runtimeChangeRefusal_def status_free
  by (rule refl)+

text \<open>Only the outcome of a conflicting write repeats the stored phase.\<close>

lemma steadyFleet_restatus:
  assumes "autoscalingEnabled app \<or> deref0 (st_replicas s) = desiredReplicas app"
  shows "steadyFleet P R (restatus st app) s version = steadyFleet P R app s version"
  unfolding steadyFleet_def status_free using assms by auto

section \<open>Objects that are as wanted\<close>

text \<open>An object with a linked type: the stored one is what a pass over an owned object leaves.\<close>

definition object_settled ::
  "'a obj_kind \<Rightarrow> platform \<Rightarrow> WorkerApp \<Rightarrow> ('a \<Rightarrow> 'a \<Rightarrow> 'a) \<Rightarrow> 'a obj_env \<Rightarrow> bool" where
  "object_settled K P app mutate E \<longleftrightarrow>
     (\<exists>l. own_live P app (ok_meta K l) \<and> ob_get E = (\<lambda>d. Inr (ensured K mutate l d)))"

text \<open>
  An object without: its specification is the desired one and the desired labels and
  annotations are among its own; or its kind is not served.
\<close>

definition unstructured_settled :: "platform \<Rightarrow> WorkerApp \<Rightarrow> un_env \<Rightarrow> Unstructured \<Rightarrow> bool" where
  "unstructured_settled P app E desired \<longleftrightarrow>
     (case ue_get E of
        Inl e \<Rightarrow> IsNoMatchError e
      | Inr live \<Rightarrow> pf_IsControlledBy P (un_meta live) (wa_meta app) \<and> un_spec live = un_spec desired \<and>
          stringMapSubset (om_labels (un_meta desired)) (om_labels (un_meta live)) \<and>
          stringMapSubset (om_annotations (un_meta desired)) (om_annotations (un_meta live)))"

definition foundation_settled :: "platform \<Rightarrow> WorkerApp \<Rightarrow> foundation_env \<Rightarrow> bool" where
  "foundation_settled P app E \<longleftrightarrow>
     annotations_ok (svc_meta (buildPublicService app)) \<and>
     object_settled saKind P app (mutateServiceAccount app) (fn_serviceAccount E) \<and>
     object_settled serviceKind P app mutateInternalService (fn_internal E) \<and>
     object_settled serviceKind P app mutatePublicService (fn_public E) \<and>
     object_settled netpolKind P app mutateNetworkPolicy (fn_netpol E) \<and>
     object_settled pdbKind P app mutatePDB (fn_pdb E)"

text \<open>The StatefulSet is where the rollout machine arrives.\<close>

definition fleet_settled :: "platform \<Rightarrow> rollout_env \<Rightarrow> WorkerApp \<Rightarrow> string \<Rightarrow> bool" where
  "fleet_settled P E app version \<longleftrightarrow>
     (\<exists>s d. ro_existing E = Inr s \<and> desired_fleet P E app version = Some d \<and>
        arrived (goal_for app d) (position s))"

text \<open>No route of another mode is left, and the route of the active mode is as wanted.\<close>

definition edge_settled :: "WorkerAppReconciler \<Rightarrow> platform \<Rightarrow> route_env \<Rightarrow> WorkerApp \<Rightarrow> bool" where
  "edge_settled r P E app \<longleftrightarrow>
     (\<forall>kind \<in> set (ox_order (rt_obsolete E)). \<forall>obj. kind \<noteq> activeMode r app \<and>
        obsoleteRoute (rt_obsolete E) kind = Inr obj \<longrightarrow> \<not> pf_IsControlledBy P (kobject_meta obj) (wa_meta app)) \<and>
     (ws_hostnames (wa_spec app) = [] \<or> rc_IngressMode r = IngressModeNone \<or>
      (if rc_IngressMode r = IngressModeVirtualService
       then unstructured_settled P app (rt_virtualService E) (buildVirtualService app (rc_IstioGateways r))
       else if rc_IngressMode r = IngressModeIngress
       then object_settled ingressKind P app mutateIngress (rt_ingress E)
       else object_settled routeKind P app mutateHTTPRoute (he_object (rt_httpRoute E))))"

text \<open>The scaler runs exactly while the fleet is ready; without autoscaling there is none.\<close>

definition scaler_settled :: "platform \<Rightarrow> un_env \<Rightarrow> WorkerApp \<Rightarrow> string \<Rightarrow> WorkerAppPhase \<Rightarrow> bool" where
  "scaler_settled P E app url phase \<longleftrightarrow>
     (if autoscalingEnabled app
      then unstructured_settled P app E
             (buildScaledObject app (the (ws_autoscaling (wa_spec app))) url (phase \<noteq> PhaseReady))
      else (\<forall>obj. ue_get E = Inr obj \<longrightarrow> \<not> pf_IsControlledBy P (un_meta obj) (wa_meta app)))"

definition cluster_settled ::
  "WorkerAppReconciler \<Rightarrow> platform \<Rightarrow> reconcile_env \<Rightarrow> WorkerApp \<Rightarrow> string \<Rightarrow> bool" where
  "cluster_settled r P E app version \<longleftrightarrow>
     foundation_settled P app (re_foundation E) \<and> fleet_settled P (re_rollout E) app version \<and>
     edge_settled r P (re_routes E) app \<and>
     unstructured_settled P app (re_policy E) (buildAuthorizationPolicy app (rc_OperatorPrincipal r)) \<and>
     (\<forall>out. snd (reconcileFleet P (re_rollout E) app (rc_PrometheusURL r) version) = Inr out \<longrightarrow>
        scaler_settled P (re_scaler E) app (rc_PrometheusURL r) (fo_phase out))"

section \<open>Nothing is written\<close>

lemma noMatch_found: "IsNoMatchError e \<Longrightarrow> \<not> IsNotFound e"
  by (induction e) auto

lemma ensureUnstructured_quiet:
  assumes "sets_owner_only P" "om_ownerRefs (un_meta d) = []" "unstructured_settled P app E d"
  shows "fst (ensureUnstructured P E app d) = []"
proof -
  obtain refs where "pf_SetControllerReference P (wa_meta app) (un_meta d) = Inr ((un_meta d)\<lparr>om_ownerRefs := refs\<rparr>)"
    using assms(1,2) unfolding sets_owner_only_def by blast
  then show ?thesis
    using assms(3) by (auto simp: ensureUnstructured_def unstructured_settled_def requireOwnership_def
        dest: noMatch_found split: sum.splits)
qed

lemma foundation_settled_quiet:
  assumes "sets_owner_only P" "owner_refs_decide P" "foundation_settled P app E"
  shows "ensureFoundation P E app ns = ([], Inr [credentialsCondition app])"
  using assms(3) unfolding foundation_settled_def object_settled_def
  by (elim conjE exE, intro foundation_converges [OF assms(1,2)]) (simp_all add: kind_defs)

text \<open>What is left of a pass over a fleet that has arrived.\<close>

definition settled_run :: "platform \<Rightarrow> rollout_env \<Rightarrow> WorkerApp \<Rightarrow> StatefulSet \<Rightarrow> string \<Rightarrow> fleetOutcome eff" where
  "settled_run P E app s version =
     (case requireOwnership P app ''*v1.StatefulSet'' (st_meta s) of
        Inl e \<Rightarrow> eff_fail e
      | Inr _ \<Rightarrow> if runtimeChangeRefusal app (stsContainerImage s) \<noteq> []
                  then eff_return (outcome PhaseDegraded (runtimeChangeRefusal app (stsContainerImage s)) (seconds 60))
                  else steadyFleet P E app s version)"

lemma settled_run_restatus:
  "autoscalingEnabled app \<or> deref0 (st_replicas s) = desiredReplicas app \<Longrightarrow>
     settled_run P E (restatus st app) s version = settled_run P E app s version"
  by (simp only: settled_run_def status_free steadyFleet_restatus)

lemma fleet_settled_run:
  assumes "fleet_settled P E app version"
  shows "\<exists>s. reconcileFleet P E app url version = settled_run P E app s version \<and>
    ro_existing E = Inr s \<and> (autoscalingEnabled app \<or> deref0 (st_replicas s) = desiredReplicas app)"
proof -
  obtain s d where s: "ro_existing E = Inr s" "desired_fleet P E app version = Some d"
      "arrived (goal_for app d) (position s)"
    using assms unfolding fleet_settled_def by blast
  then have at: "sts_annotation s recreateAnnotation \<noteq> annotationTrue" "stsPartition s \<le> 0"
      "sts_annotation s templateHashAnnotation = sts_annotation d templateHashAnnotation"
      "autoscalingEnabled app \<or> deref0 (st_replicas s) = desiredReplicas app"
    by (simp_all add: arrived_def goal_for_def position_sel)
  then have "driveFleet P E app url s d version =
      (if runtimeChangeRefusal app (stsContainerImage s) \<noteq> []
       then eff_return (outcome PhaseDegraded (runtimeChangeRefusal app (stsContainerImage s)) (seconds 60))
       else steadyFleet P E app s version)"
    by (auto simp: driveFleet_alt needsPause_def fleet_branch_def eff_bind_def)
  with s at show ?thesis
    by (intro exI [of _ s]) (auto simp: reconcileFleet_def desired_fleet_def settled_run_def requireOwnership_def Let_def
        split: sum.splits)
qed

lemma fleet_settled_quiet:
  assumes "fleet_settled P E app version"
  shows "fst (reconcileFleet P E app url version) = []"
  using fleet_settled_run [OF assms, of url] by (auto simp: settled_run_def requireOwnership_def steadyFleet_requests)

lemma fleet_settled_restatus:
  assumes "fleet_settled P E app version"
  shows "reconcileFleet P E (restatus st app) url version = reconcileFleet P E app url version"
proof -
  have "fleet_settled P E (restatus st app) version"
    using assms unfolding fleet_settled_def desired_fleet_def goal_for_def status_free .
  from fleet_settled_run [OF this, of url] fleet_settled_run [OF assms, of url] show ?thesis
    by (auto simp: names_restatus settled_run_restatus)
qed

lemma removeRoutes_quiet:
  assumes "\<forall>kind \<in> set kinds. \<forall>obj. kind \<noteq> mode \<and> obsoleteRoute E kind = Inr obj \<longrightarrow>
    \<not> pf_IsControlledBy P (kobject_meta obj) (wa_meta app)"
  shows "fst (removeRoutes P E app mode kinds) = []"
proof (rule ccontr)
  assume "fst (removeRoutes P E app mode kinds) \<noteq> []"
  then obtain x where "x \<in> set (fst (removeRoutes P E app mode kinds))" using list.set_sel(1) by blast
  with assms show False using removeRoutes_sound by blast
qed

lemma keys_ascii_gm_set: "ascii k \<Longrightarrow> keys_ascii m \<Longrightarrow> keys_ascii (gm_set k v m)"
  by (induction k v m rule: gm_set.induct) (auto simp: keys_ascii_def)

lemma ascii_ingressKeys:
  "ascii ''nginx.ingress.kubernetes.io/proxy-next-upstream''"
  "ascii ''nginx.ingress.kubernetes.io/proxy-next-upstream-tries''"
  "ascii nginxReadTimeout" "ascii nginxSendTimeout" "ascii clusterIssuerAnnotation"
  by code_simp+

lemma ingress_annotations: "annotations_ok (ing_meta (buildIngress app c i))"
proof -
  have "keys_ascii []" by (simp add: keys_ascii_def)
  then show ?thesis
    by (simp add: annotations_ok_def buildIngress_def new_meta_def Let_def gm_copy_def keys_ascii_gm_set
        ascii_ingressKeys del: gm_set.simps)
qed

lemma ingress_quiet:
  assumes "sets_owner_only P" "owner_refs_decide P" "object_settled ingressKind P app mutateIngress E"
  shows "fst (ensureV1Ingress r P E app) = []"
proof -
  let ?built = "buildIngress app (rc_IngressClassName r) (rc_ClusterIssuer r)"
  let ?m = "ing_meta ?built"
  obtain l where l: "own_live P app (ing_meta l)" "ob_get E = (\<lambda>d. Inr (ensured ingressKind mutateIngress l d))"
    using assms(3) by (auto simp: object_settled_def kind_defs)
  have m: "meta_ok ?m" "gm_wf (om_annotations ?m)" "keys_ascii (om_annotations ?m)"
    using ingress_annotations [of app "rc_IngressClassName r" "rc_ClusterIssuer r"]
    by (auto simp: annotations_ok_def meta_ok_def buildIngress_def new_meta_def Let_def)
  obtain refs where d: "prepared ingressKind P app ?built =
      Inr (?built\<lparr>ing_meta := (reconcileAnnotations True ?m (om_annotations ?m))\<lparr>om_ownerRefs := refs\<rparr>\<rparr>)"
    by (rule prepared_ok [OF assms(1), of ingressKind ?built app])
      (simp_all add: kind_defs buildIngress_def new_meta_def Let_def)
  have "fst (ensureObject ingressKind P E app ?built mutateIngress) = []"
    by (subst igm.ensureObject_quiet [OF d _ assms(2), where l = l])
      (use l m keys_ascii_reconciled [OF m m(3)] reconcileAnnotations_wf [OF m(1,2)] in
        \<open>auto simp: kind_defs own_live_def annotations_ok_def buildIngress_def new_meta_def Let_def\<close>)
  then show ?thesis by (simp add: ensureV1Ingress_def case_prod_unfold Let_def split: sum.split)
qed

lemma route_quiet:
  assumes "sets_owner_only P" "owner_refs_decide P"
    and "object_settled routeKind P app mutateHTTPRoute (he_object E)"
  shows "fst (ensureHTTPRoute r P E app) = []"
proof -
  let ?route = "snd (configureHTTPRouteRetries r E (buildHTTPRoute app (rc_GatewayName r) (rc_GatewayNamespace r)))"
  obtain l where l: "own_live P app (hr_meta l)"
      "ob_get (he_object E) = (\<lambda>d. Inr (ensured routeKind mutateHTTPRoute l d))"
    using assms(3) by (auto simp: object_settled_def kind_defs)
  have m: "om_ownerRefs (hr_meta ?route) = []" "om_labels (hr_meta ?route) = fleetLabels app"
    by (simp_all add: configureHTTPRouteRetries_def setRouteAnnotations_def buildHTTPRoute_def new_meta_def
        case_prod_unfold Let_def)
  obtain refs where d: "prepared routeKind P app ?route =
      Inr (?route\<lparr>hr_meta := (hr_meta ?route)\<lparr>om_ownerRefs := refs\<rparr>\<rparr>)"
    by (rule prepared_ok [OF assms(1), of routeKind ?route app]) (use m in \<open>simp_all add: kind_defs\<close>)
  have "fst (ensureObject routeKind P (he_object E) app ?route mutateHTTPRoute) = []"
    by (subst hrm.ensureObject_quiet [OF d _ assms(2), where l = l])
      (use l m in \<open>auto simp: kind_defs own_live_def\<close>)
  then show ?thesis by (simp add: ensureHTTPRoute_def case_prod_unfold Let_def split: sum.split)
qed

lemma virtualService_quiet:
  assumes "sets_owner_only P" "unstructured_settled P app E (buildVirtualService app (rc_IstioGateways r))"
  shows "fst (ensureVirtualService r P E app) = []"
  using ensureUnstructured_quiet [OF assms(1) _ assms(2)]
  by (simp add: ensureVirtualService_def buildVirtualService_def newUnstructuredObject_def new_meta_def
      case_prod_unfold Let_def split: sum.split)

lemma edge_settled_quiet:
  assumes "sets_owner_only P" "owner_refs_decide P" "edge_settled r P E app"
  shows "fst (ensureIngress r P E app) = []"
proof -
  have none: "fst (removeObsoleteRoutes r P (rt_obsolete E) app) = []"
    unfolding removeObsoleteRoutes_def
    by (rule removeRoutes_quiet) (use assms(3) in \<open>simp add: edge_settled_def\<close>)
  show ?thesis
  proof (cases "removeObsoleteRoutes r P (rt_obsolete E) app")
    case (Pair deletes res)
    with none assms(3) show ?thesis
      by (auto simp: ensureIngress_def edge_settled_def apfst_def map_prod_def virtualService_quiet [OF assms(1)]
          ingress_quiet [OF assms(1,2)] route_quiet [OF assms(1,2)] split: sum.split prod.split if_splits)
  qed
qed

lemma policy_quiet:
  assumes "sets_owner_only P" "unstructured_settled P app E (buildAuthorizationPolicy app (rc_OperatorPrincipal r))"
  shows "fst (ensureAuthorizationPolicy r P E app) = []"
  using ensureUnstructured_quiet [OF assms(1) _ assms(2)]
  by (simp add: ensureAuthorizationPolicy_def buildAuthorizationPolicy_def newUnstructuredObject_def new_meta_def
      case_prod_unfold Let_def split: sum.split)

lemma scaler_settled_quiet:
  assumes "sets_owner_only P" "scaler_settled P E app url phase"
  shows "fst (ensureScaledObject P E app url phase) = []"
proof (cases "autoscalingEnabled app")
  case True
  with assms(2) have "unstructured_settled P app E
      (buildScaledObject app (the (ws_autoscaling (wa_spec app))) url (phase \<noteq> PhaseReady))"
    by (simp add: scaler_settled_def)
  from ensureUnstructured_quiet [OF assms(1) _ this] True show ?thesis
    by (simp add: ensureScaledObject_def case_prod_unfold Let_def split: sum.split)
      (simp add: buildScaledObject_def newUnstructuredObject_def new_meta_def Let_def)
next
  case False
  with assms(2) show ?thesis
    by (auto simp: scaler_settled_def ensureScaledObject_def requireOwnership_def Let_def split: sum.split)
qed

section \<open>The status settles\<close>

text \<open>
  Documented behaviour of the two operations on conditions, besides \<open>conditions_ok\<close>: a
  condition that is stored already is not stored again, and removing an absent one does nothing.
\<close>

definition conditions_stable :: "platform \<Rightarrow> bool" where
  "conditions_stable P \<longleftrightarrow>
     (\<forall>c cs. cond_of cs (cn_type c) = Some c \<longrightarrow> pf_SetStatusCondition P c cs = cs) \<and>
     (\<forall>k cs. cond_of cs k = None \<longrightarrow> pf_RemoveStatusCondition P k cs = cs)"

lemma removeConditions_stable:
  assumes "conditions_stable P" "\<forall>k \<in> set kinds. cond_of cs k = None"
  shows "removeConditions P kinds cs = cs"
  using assms(2) unfolding removeConditions_def
  by (induction kinds) (use assms(1) in \<open>simp_all add: conditions_stable_def\<close>)

lemma setConditions_stable:
  assumes "conditions_stable P" "\<forall>c \<in> set new. cond_of cs (cn_type (f c)) = Some (f c)"
  shows "foldl (\<lambda>a c. pf_SetStatusCondition P (f c) a) cs new = cs"
  using assms(2) by (induction new) (use assms(1) in \<open>simp_all add: conditions_stable_def\<close>)

lemma cond_of_unique:
  assumes "distinct (map cn_type cs)" "c \<in> set cs"
  shows "cond_of (rev cs) (cn_type c) = Some c"
  unfolding cond_of_def
  by (rule find_unique) (use assms in \<open>simp_all flip: rev_map\<close>)

lemma mergeConditions_again:
  assumes "conditions_ok P" "conditions_stable P" "distinct (map cn_type new)"
  shows "mergeConditions P g new (mergeConditions P g new old) = mergeConditions P g new old"
proof -
  let ?f = "\<lambda>c :: Condition. c\<lparr>cn_observedGeneration := g\<rparr>"
  let ?M = "mergeConditions P g new old"
  have "\<forall>k \<in> set (filter (\<lambda>k. k \<notin> set (map cn_type new)) optionalConditions). cond_of ?M k = None"
  proof
    fix k
    assume k: "k \<in> set (filter (\<lambda>k. k \<notin> set (map cn_type new)) optionalConditions)"
    then have "cond_of (rev (map ?f new)) k = None" by (auto simp: cond_of_def find_None_iff)
    with k show "cond_of ?M k = None" by (simp add: cond_of_merge [OF assms(1)])
  qed
  moreover have "\<forall>c \<in> set new. cond_of ?M (cn_type (?f c)) = Some (?f c)"
  proof
    fix c
    assume "c \<in> set new"
    moreover have "distinct (map cn_type (map ?f new))" using assms(3) by (simp add: comp_def)
    ultimately have "cond_of (rev (map ?f new)) (cn_type (?f c)) = Some (?f c)"
      by (intro cond_of_unique) auto
    then show "cond_of ?M (cn_type (?f c)) = Some (?f c)" by (simp add: cond_of_merge [OF assms(1)])
  qed
  ultimately show ?thesis
    unfolding mergeConditions_def [of P g new ?M]
    by (simp only: removeConditions_stable [OF assms(2)] setConditions_stable [OF assms(2), where f = ?f])
qed

text \<open>Every operation reports its own condition, so a pass has no two of one type.\<close>

lemma tracked_one_condition:
  assumes "resolveAppVersion P T app t = (t', version, tracking, tracked)"
  shows "tracked = [] \<or> (\<exists>c. tracked = [c] \<and> cn_type c = condDeployTrackingReady)"
  using assms by (auto simp: resolveAppVersion_def Let_def split: if_splits prod.splits option.splits)

abbreviation edge_conditions :: "WorkerAppReconciler \<Rightarrow> platform \<Rightarrow> reconcile_env \<Rightarrow> WorkerApp \<Rightarrow> WorkerAppPhase \<Rightarrow> Condition list" where
  "edge_conditions r P E app phase \<equiv>
     snd (snd (ensureIngress r P (re_routes E) app)) @ snd (snd (ensureAuthorizationPolicy r P (re_policy E) app))
       @ snd (snd (ensureScaledObject P (re_scaler E) app (rc_PrometheusURL r) phase))"

lemma pass_conditions_distinct:
  assumes "resolveAppVersion P T app t = (t', version, tracking, tracked)" "cn_type observed = ''FleetStateReady''"
  shows "distinct (map cn_type (((specValid # [credentialsCondition app] @ tracked)
    @ edge_conditions r P E app phase) @ [observed] @ phaseConditions out))"
proof -
  have "cn_type (credentialsCondition app) = condBucketCredentialsReady" "cn_type specValid = ''SpecValid''"
    by (simp_all add: credentialsCondition_def specValid_def)
  with tracked_one_condition [OF assms(1)] assms(2)
    edge.one_condition [where P = P and app = app and r = r and E = "re_routes E"]
    mesh.one_condition [where P = P and app = app and r = r and E = "re_policy E"]
    scaler.one_condition [where P = P and app = app and url = "rc_PrometheusURL r" and phase = phase and E = "re_scaler E"]
  show ?thesis
    by (elim disjE exE conjE) (simp_all add: phaseConditions_def Let_def condDeployTrackingReady_def
        condBucketCredentialsReady_def condIngressReady_def condMeshPolicyReady_def condAutoscalingReady_def)
qed

lemma newStatus_shape:
  obtains observed ready deployments restoring where "cn_type observed = ''FleetStateReady''"
    "\<And>app'. newStatus P E app' out version conditions =
      \<lparr>wst_expectedAppVersion = version, wst_deployments = deployments, wst_phase = fo_phase out,
       wst_rolledOutAppVersion = (if fo_rolledOut out then version else []),
       wst_rollout = \<lparr>rl_partition = fo_partition out, rl_waitingOn = fo_waitingOn out\<rparr>,
       wst_fleet = \<lparr>fs_ready = (case ready of None \<Rightarrow> fs_ready (wst_fleet (wa_status app')) | Some n \<Rightarrow> n),
         fs_restoring = restoring\<rparr>,
       wst_conditions = mergeConditions P (om_generation (wa_meta app'))
         (conditions @ [observed] @ phaseConditions out) (wst_conditions (wa_status app'))\<rparr>"
proof -
  define sts where "sts = (case us_sts E of Inl _ \<Rightarrow> zero_StatefulSet | Inr s \<Rightarrow> s)"
  define obs where "obs = observeFleet P (us_obs E) sts"
  let ?ready = "case us_sts E of Inl _ \<Rightarrow> None | Inr s \<Rightarrow> Some (ss_readyReplicas (st_status s))"
  note defs = newStatus_def Let_def sts_def [symmetric] obs_def [symmetric]
  show thesis
  proof (cases "sw_err obs")
    case None
    show thesis
      by (rule that [where ready = ?ready and observed = "mk_condition ''FleetStateReady'' ConditionTrue ''Observed'' []"
            and deployments = "podDeployments (us_order E (sw_states obs))" and restoring = "wrap32 (sw_restoring obs)"])
        (simp_all add: defs None split: sum.split)
  next
    case (Some e)
    show thesis
      by (rule that [where ready = ?ready and observed = "mk_condition ''FleetStateReady'' ConditionFalse ''Unavailable'' (Error e)"
            and deployments = "[]" and restoring = 0])
        (simp_all add: defs Some split: sum.split)
  qed
qed

lemma newStatus_again:
  assumes "conditions_ok P" "conditions_stable P"
    and "\<And>observed. cn_type observed = ''FleetStateReady'' \<Longrightarrow>
      distinct (map cn_type (conditions @ [observed] @ phaseConditions out))"
    and "st = newStatus P E app out version conditions"
  shows "newStatus P E (restatus st app) out version conditions = st"
proof (rule newStatus_shape [where P = P and E = E and out = out and version = version and conditions = conditions])
  fix observed ready deployments restoring
  assume ty: "cn_type observed = ''FleetStateReady''"
    and run: "\<And>app'. newStatus P E app' out version conditions =
      \<lparr>wst_expectedAppVersion = version, wst_deployments = deployments, wst_phase = fo_phase out,
       wst_rolledOutAppVersion = (if fo_rolledOut out then version else []),
       wst_rollout = \<lparr>rl_partition = fo_partition out, rl_waitingOn = fo_waitingOn out\<rparr>,
       wst_fleet = \<lparr>fs_ready = (case ready of None \<Rightarrow> fs_ready (wst_fleet (wa_status app')) | Some n \<Rightarrow> n),
         fs_restoring = restoring\<rparr>,
       wst_conditions = mergeConditions P (om_generation (wa_meta app'))
         (conditions @ [observed] @ phaseConditions out) (wst_conditions (wa_status app'))\<rparr>"
  show ?thesis
    using mergeConditions_again [OF assms(1,2) assms(3) [OF ty]]
    by (simp add: assms(4) run split: option.split)
qed

section \<open>Two passes\<close>

lemma newStatus_capRequeue: "newStatus P S app (capRequeue c i out) version cs = newStatus P S app out version cs"
  by (simp add: newStatus_def phaseConditions_def)

lemma finishPass_sent:
  "pa_status (finishPass r P E app t reqs version conditions (capRequeue c i out)) =
     (let st = newStatus P (re_status E) app out version (conditions @ edge_conditions r P E app (fo_phase out)) in
      if st = wa_status app then None else Some st)"
  by (simp add: finishPass_def updateStatus_def newStatus_capRequeue case_prod_unfold Let_def)

text \<open>A pass that finds the foundation and the fleet as wanted goes straight to the edge.\<close>

lemma settled_pass:
  assumes "valid_app r P E app"
    and "ensureFoundation P (re_foundation E) app (rc_OperatorNamespace r) = ([], Inr creds)"
    and "resolveAppVersion P (re_tracker E) app t = (t', version, tracking, conditions)"
    and "reconcileFleet P (re_rollout E) app (rc_PrometheusURL r) version = ([], res)"
  shows "Reconcile r P E key t =
    (case res of
       Inl e \<Rightarrow> \<lparr>pa_requests = [], pa_status = None, pa_tracker = t', pa_result = Inl e\<rparr>
     | Inr out \<Rightarrow> finishPass r P E app t' [] version (specValid # creds @ conditions)
         (capRequeue tracking (dt_interval t') out))"
  unfolding Reconcile_valid [OF assms(1)] using assms(2-) by (simp add: reconcileApp_def split: sum.split)


end
