(* ===== verification/State_Client.thy ===== *)
theory State_Client
  imports Fleet_State Go_Json Go_Url
begin

text \<open>
  The state client and the metric poller (\<open>src/internal/controller/fleetstate.go\<close>): decoding
  one \<open>/state\<close> answer (\<open>StateClient.Fetch\<close>), and the sweep that turns the samples of all
  fleets into one snapshot of gauges (\<open>StatePoller.sweep\<close>, \<open>celldRestarts\<close>, \<open>stateSnapshot\<close>).

  The HTTP transport is a parameter: the answer to a request for a URL. A gauge is kept as
  the integer (or the quotient of two integers) that the code converts to \<open>float64\<close>.
\<close>

section \<open>One sample\<close>

record http_response =
  hp_status :: int
  hp_body :: "string result"

definition joinHostPort :: "string \<Rightarrow> string \<Rightarrow> string" where
  "joinHostPort host port =
     (if CHR '':'' \<in> set host \<or> CHR ''%'' \<in> set host then ''['' @ host @ '']:'' @ port
      else host @ '':'' @ port)"

definition stateURL :: "string \<Rightarrow> string" where
  "stateURL podIP = ''http://'' @ joinHostPort podIP (show_int internalPort) @ ''/state''"

definition zero_DeploymentState :: DeploymentState where
  "zero_DeploymentState = \<lparr>ds_version = [], ds_generation = 0, ds_draining = [], ds_swapping = 0\<rparr>"

definition zero_PodState :: PodState where
  "zero_PodState =
     \<lparr>po_deployment = None, po_occupied = 0, po_evicting = 0, po_restoring = 0, po_activating = 0,
      po_activationWaiting = 0, po_capacityWaiting = 0, po_shedding = None, po_rssBytes = 0,
      po_inUseBytes = 0, po_cgroupWorkingSetBytes = None, po_cgroupCurrentBytes = None\<rparr>"

text \<open>\<open>json.Unmarshal\<close> into the struct, over what the pointer already holds.\<close>

definition decodeDeployment :: "(string \<times> json) list \<Rightarrow> DeploymentState \<Rightarrow> DeploymentState option" where
  "decodeDeployment ms d =
     Option.bind (decode_field into_string (ds_version d) (field_values ''version'' ms)) (\<lambda>version.
     Option.bind (decode_field into_int64 (ds_generation d) (field_values ''generation'' ms)) (\<lambda>generation.
     Option.bind (decode_field into_raw_slice (ds_draining d) (field_values ''draining'' ms)) (\<lambda>draining.
     Option.bind (decode_field into_int64 (ds_swapping d) (field_values ''swapping'' ms)) (\<lambda>swapping.
     Some \<lparr>ds_version = version, ds_generation = generation, ds_draining = draining, ds_swapping = swapping\<rparr>))))"

definition into_deployment :: "DeploymentState option \<Rightarrow> json \<Rightarrow> DeploymentState option option" where
  "into_deployment x v =
     (case v of
        JNull \<Rightarrow> Some None
      | JObj ms \<Rightarrow> map_option Some (decodeDeployment ms (case x of Some d \<Rightarrow> d | None \<Rightarrow> zero_DeploymentState))
      | _ \<Rightarrow> None)"

definition decodeState :: "(string \<times> json) list \<Rightarrow> PodState option" where
  "decodeState ms =
     (let count = (\<lambda>k. decode_field into_int64 0 (field_values k ms)) in
      Option.bind (decode_field into_deployment None (field_values ''deployment'' ms)) (\<lambda>deployment.
      Option.bind (count ''occupied'') (\<lambda>occupied.
      Option.bind (count ''evicting'') (\<lambda>evicting.
      Option.bind (count ''restoring'') (\<lambda>restoring.
      Option.bind (count ''activating'') (\<lambda>activating.
      Option.bind (count ''activation_waiting'') (\<lambda>activationWaiting.
      Option.bind (count ''capacity_waiting'') (\<lambda>capacityWaiting.
      Option.bind (decode_field into_string_ptr None (field_values ''shedding'' ms)) (\<lambda>shedding.
      Option.bind (count ''rss_bytes'') (\<lambda>rssBytes.
      Option.bind (count ''in_use_bytes'') (\<lambda>inUseBytes.
      Option.bind (decode_field into_int64_ptr None (field_values ''cgroup_working_set_bytes'' ms)) (\<lambda>workingSet.
      Option.bind (decode_field into_int64_ptr None (field_values ''cgroup_current_bytes'' ms)) (\<lambda>current.
      Some \<lparr>po_deployment = deployment, po_occupied = occupied, po_evicting = evicting, po_restoring = restoring,
            po_activating = activating, po_activationWaiting = activationWaiting,
            po_capacityWaiting = capacityWaiting, po_shedding = shedding, po_rssBytes = rssBytes,
            po_inUseBytes = inUseBytes, po_cgroupWorkingSetBytes = workingSet,
            po_cgroupCurrentBytes = current\<rparr>)))))))))))))"

text \<open>The map of raw fields: keys as written, the last value of a key wins.\<close>

definition rawFields :: "json \<Rightarrow> (string \<times> json) list option" where
  "rawFields v = (case v of JObj ms \<Rightarrow> Some (rev ms) | JNull \<Rightarrow> Some [] | _ \<Rightarrow> None)"

definition missingField :: "(string \<times> json) list \<Rightarrow> string option" where
  "missingField members =
     find (\<lambda>key. case map_of members key of
                   None \<Rightarrow> True
                 | Some v \<Rightarrow> key \<noteq> ''shedding'' \<and> v = JNull) [''occupied'', ''restoring'', ''shedding'']"

definition checkState :: "PodState \<Rightarrow> PodState result" where
  "checkState state =
     (if po_occupied state < 0 \<or> po_restoring state < 0 \<or> po_evicting state < 0
      then Inl (OtherError ''/state has negative counters'')
      else case po_deployment state of
        Some d \<Rightarrow> if ds_version d = [] \<or> ds_generation d < 1 \<or> ds_swapping d < 0
                  then Inl (OtherError ''invalid deployment state'') else Inr state
      | None \<Rightarrow> Inr state)"

definition maxStateBytes :: nat where
  "maxStateBytes = 4194304"

definition readState :: "string \<Rightarrow> PodState result" where
  "readState raw =
     (let failed = Inl (Wrapped ''decoding /state'' json_error) in
      case json_parse raw of
        None \<Rightarrow> failed
      | Some v \<Rightarrow>
          (case rawFields v of
             None \<Rightarrow> failed
           | Some members \<Rightarrow>
               if map_of members ''error'' \<noteq> None then Inl (OtherError ''/state reports a runtime error'')
               else case missingField members of
                 Some key \<Rightarrow> Inl (OtherError (''/state missing '' @ key))
               | None \<Rightarrow>
                   (case decodeState (case v of JObj ms \<Rightarrow> ms | _ \<Rightarrow> []) of
                      None \<Rightarrow> failed
                    | Some state \<Rightarrow> checkState state)))"

definition url_error :: gerror where
  "url_error = OtherError ''invalid URL''"

definition Fetch :: "platform \<Rightarrow> (string \<Rightarrow> http_response result) \<Rightarrow> string \<Rightarrow> PodState result" where
  "Fetch P http podIP =
     (if url_parse P (stateURL podIP) = None then Inl url_error
      else case http (stateURL podIP) of
        Inl e \<Rightarrow> Inl e
      | Inr resp \<Rightarrow>
          if hp_status resp \<noteq> 200 then Inl (OtherError (''/state returned '' @ show_int (hp_status resp)))
          else case hp_body resp of
            Inl e \<Rightarrow> Inl e
          | Inr body \<Rightarrow>
              let raw = take (maxStateBytes + 1) body in
              if length raw > maxStateBytes then Inl (OtherError ''/state exceeds 4 MiB'')
              else readState raw)"

section \<open>Gauges\<close>

datatype gauge = Whole int | Quotient int int

record metric =
  mt_name :: string
  mt_value :: gauge
  mt_labels :: "string list"

definition boolToGauge :: "bool \<Rightarrow> gauge" where
  "boolToGauge b = Whole (if b then 1 else 0)"

definition selfFenceExitCode :: int where
  "selfFenceExitCode = 3"

definition celldRestarts :: "Pod \<Rightarrow> int \<times> bool" where
  "celldRestarts pod =
     (case find (\<lambda>cs. cst_name cs = celldContainerName) (pod_containerStatuses pod) of
        Some cs \<Rightarrow> (cst_restartCount cs, cst_lastExitCode cs = Some selfFenceExitCode)
      | None \<Rightarrow> (0, False))"

definition stateGauges :: "WorkerApp \<Rightarrow> PodState \<Rightarrow> gauge gomap" where
  "stateGauges app state =
     gm_copy [] ([(''celld_resident_cells'', Whole (po_occupied state)), (''celld_evicting'', Whole (po_evicting state)),
       (''celld_restoring'', Whole (po_restoring state)), (''celld_shedding'', boolToGauge (IsShedding state)),
       (''celld_resident_cell_utilization'', Quotient (po_occupied state) (maxResidentCells app)),
       (''celld_rss_bytes'', Whole (po_rssBytes state)), (''celld_in_use_bytes'', Whole (po_inUseBytes state))]
      @ (case po_cgroupCurrentBytes state of Some n \<Rightarrow> [(''celld_cgroup_current_bytes'', Whole n)] | None \<Rightarrow> [])
      @ (case po_cgroupWorkingSetBytes state of Some n \<Rightarrow> [(''celld_cgroup_working_set_bytes'', Whole n)] | None \<Rightarrow> []))"

record poll_env =
  pl_apps :: "WorkerApp list result"
  pl_now :: "WorkerApp \<Rightarrow> int"
  pl_sts :: "WorkerApp \<Rightarrow> StatefulSet result"
  pl_pods :: "WorkerApp \<Rightarrow> Pod list result"
  pl_fetch :: "string \<Rightarrow> PodState result"
  pl_sched :: "Pod list \<Rightarrow> Pod list"
  pl_order :: "gauge gomap \<Rightarrow> gauge gomap"

definition podMetrics :: "poll_env \<Rightarrow> WorkerApp \<Rightarrow> PodState gomap \<Rightarrow> Pod \<Rightarrow> metric list" where
  "podMetrics E app states pod =
     (let labels = [app_namespace app, app_name app, pod_name pod];
          add = (\<lambda>(name, value). \<lparr>mt_name = name, mt_value = value, mt_labels = labels\<rparr>);
          (restarts, fenced) = celldRestarts pod
      in [add (''celld_container_restarts'', Whole restarts), add (''celld_self_fenced'', boolToGauge fenced),
          add (''celld_state_up'', boolToGauge (map_of states (pod_name pod) \<noteq> None))]
         @ (case map_of states (pod_name pod) of
              None \<Rightarrow> []
            | Some state \<Rightarrow> map add (pl_order E (stateGauges app state))))"

definition fleetComplete :: "platform \<Rightarrow> StatefulSet \<Rightarrow> Pod list \<Rightarrow> sweep \<Rightarrow> bool" where
  "fleetComplete P sts pods seen \<longleftrightarrow>
     deref0 (st_replicas sts) > 0 \<and> wrap32 (int (length pods)) = deref0 (st_replicas sts) \<and>
     ss_observedGeneration (st_status sts) = om_generation (st_meta sts) \<and>
     list_all (\<lambda>p. pf_IsControlledBy P (pod_meta p) (st_meta sts) \<and> podReady p) pods \<and>
     sw_err seen = None \<and> length (sw_states seen) = length pods"

definition appMetrics :: "platform \<Rightarrow> poll_env \<Rightarrow> WorkerApp \<Rightarrow> metric list" where
  "appMetrics P E app =
     (let labels = [app_namespace app, app_name app];
          pods = (case pl_sts E app of
                    Inl _ \<Rightarrow> []
                  | Inr _ \<Rightarrow> (case pl_pods E app of Inl _ \<Rightarrow> [] | Inr items \<Rightarrow> items));
          seen = FleetSweep (pl_fetch E) (pl_sched E pods);
          complete = (case pl_sts E app of
                        Inl _ \<Rightarrow> False
                      | Inr sts \<Rightarrow> (case pl_pods E app of Inl _ \<Rightarrow> False | Inr _ \<Rightarrow> fleetComplete P sts pods seen))
      in [\<lparr>mt_name = ''celld_fleet_complete'', mt_value = boolToGauge complete, mt_labels = labels\<rparr>,
          \<lparr>mt_name = ''celld_fleet_sample_timestamp_seconds'', mt_value = Whole (pl_now E app div seconds 1),
           mt_labels = labels\<rparr>]
         @ concat (map (podMetrics E app (sw_states seen)) pods))"

text \<open>The published snapshot after a sweep that finds \<open>snapshot\<close>, and the error.\<close>

definition StatePoller_sweep :: "platform \<Rightarrow> poll_env \<Rightarrow> metric list \<Rightarrow> metric list \<times> gerror option" where
  "StatePoller_sweep P E snapshot =
     (case pl_apps E of
        Inl e \<Rightarrow> (snapshot, Some e)
      | Inr apps \<Rightarrow> (concat (map (appMetrics P E) apps), None))"

text \<open>
  The collector shared by the poller and the scrapes. \<open>publish\<close> replaces the samples under the
  lock; \<open>Collect\<close> copies the slice under the lock and sends its elements afterwards, one by one,
  while the poller may publish again. A scrape in progress is what it has still to send and
  what it has sent.
\<close>

record stateSnapshot =
  sn_samples :: "metric list"
  sn_scrapes :: "nat \<Rightarrow> (metric list \<times> metric list) option"

definition publish :: "metric list \<Rightarrow> stateSnapshot \<Rightarrow> stateSnapshot" where
  "publish samples s = s\<lparr>sn_samples := samples\<rparr>"

definition startCollect :: "nat \<Rightarrow> stateSnapshot \<Rightarrow> stateSnapshot" where
  "startCollect i s = s\<lparr>sn_scrapes := (sn_scrapes s)(i := Some (sn_samples s, []))\<rparr>"

definition sendSample :: "nat \<Rightarrow> stateSnapshot \<Rightarrow> stateSnapshot" where
  "sendSample i s =
     (case sn_scrapes s i of
        Some (x # todo, sent) \<Rightarrow> s\<lparr>sn_scrapes := (sn_scrapes s)(i := Some (todo, sent @ [x]))\<rparr>
      | _ \<Rightarrow> s)"

text \<open>Documented behaviour: listed pods have distinct names, ranging over a map visits every entry once.\<close>

definition poll_ok :: "poll_env \<Rightarrow> bool" where
  "poll_ok E \<longleftrightarrow> (\<forall>m. mset (pl_order E m) = mset m) \<and> (\<forall>ps. mset (pl_sched E ps) = mset ps) \<and>
     (\<forall>app pods. pl_pods E app = Inr pods \<longrightarrow> distinct (map pod_name pods) \<and> length pods < 2 ^ 31)"

text \<open>Documented behaviour: listed WorkerApps have distinct names.\<close>

definition apps_ok :: "poll_env \<Rightarrow> bool" where
  "apps_ok E \<longleftrightarrow> (\<forall>apps. pl_apps E = Inr apps \<longrightarrow> distinct (map (\<lambda>a. (app_namespace a, app_name a)) apps))"

text \<open>
  Everything that can happen to the collector, in any order: ticks of the poller, its end
  (the deferred \<open>publish(nil)\<close>), and the two parts of any number of scrapes.
\<close>

inductive collector :: "platform \<Rightarrow> stateSnapshot \<Rightarrow> bool" for P where
  initial: "collector P \<lparr>sn_samples = [], sn_scrapes = (\<lambda>_. None)\<rparr>"
| tick: "collector P s \<Longrightarrow> poll_ok E \<Longrightarrow> apps_ok E \<Longrightarrow>
     collector P (publish (fst (StatePoller_sweep P E (sn_samples s))) s)"
| stop: "collector P s \<Longrightarrow> collector P (publish [] s)"
| collect: "collector P s \<Longrightarrow> collector P (startCollect i s)"
| send: "collector P s \<Longrightarrow> collector P (sendSample i s)"

section \<open>What a sample guarantees\<close>

lemma into_int64_ok: "into_int64 x v = Some y \<Longrightarrow> int64_ok x \<Longrightarrow> int64_ok y"
  by (auto simp: into_int64_def atoi_def Let_def split: json.splits if_splits)

lemma decode_field_inv:
  assumes "decode_field step x vs = Some y" "Q x" "\<And>x v y. step x v = Some y \<Longrightarrow> Q x \<Longrightarrow> Q y"
  shows "Q y"
  using assms(1,2) by (induction vs arbitrary: x) (auto simp: bind_eq_Some_conv intro: assms(3))

lemma decode_int64_ok: "decode_field into_int64 0 vs = Some y \<Longrightarrow> int64_ok y"
proof (erule decode_field_inv [where Q = int64_ok])
  show "int64_ok 0" by (simp add: int64_ok_def)
qed (rule into_int64_ok)

lemma decodeState_ok:
  "decodeState ms = Some st \<Longrightarrow> int64_ok (po_occupied st) \<and> int64_ok (po_restoring st) \<and> int64_ok (po_evicting st)"
  by (auto simp: decodeState_def Let_def bind_eq_Some_conv intro: decode_int64_ok)

lemma checkState_ok:
  assumes "checkState st = Inr st'"
  shows "st' = st" "0 \<le> po_occupied st" "0 \<le> po_restoring st" "0 \<le> po_evicting st"
    "po_deployment st = Some d \<Longrightarrow> ds_version d \<noteq> [] \<and> 1 \<le> ds_generation d \<and> 0 \<le> ds_swapping d"
  using assms by (auto simp: checkState_def split: if_splits option.splits)

lemma missingField_None:
  "missingField members = None \<longleftrightarrow>
     (\<exists>v. map_of members ''occupied'' = Some v \<and> v \<noteq> JNull) \<and> (\<exists>v. map_of members ''restoring'' = Some v \<and> v \<noteq> JNull) \<and>
     map_of members ''shedding'' \<noteq> None"
  by (auto simp: missingField_def split: option.splits)

lemma readState_ok:
  assumes "readState raw = Inr st"
  shows "\<exists>ms. json_parse raw = Some (JObj ms) \<and> decodeState ms = Some st \<and> checkState st = Inr st \<and>
    ''error'' \<notin> fst ` set ms \<and> {''occupied'', ''restoring'', ''shedding''} \<subseteq> fst ` set ms"
proof -
  from assms obtain v members where v: "json_parse raw = Some v" "rawFields v = Some members"
    "map_of members ''error'' = None" "missingField members = None"
    by (auto simp: readState_def Let_def split: option.splits if_splits)
  then obtain ms where ms: "v = JObj ms" "members = rev ms"
    by (cases v) (auto simp: rawFields_def missingField_None)
  with v assms obtain st' where "decodeState ms = Some st'" "checkState st' = Inr st"
    by (auto simp: readState_def Let_def split: option.splits)
  moreover have "{''occupied'', ''restoring'', ''shedding''} \<subseteq> fst ` set ms"
    using v(4) ms by (auto simp: missingField_None dest!: map_of_SomeD) force+
  moreover have "''error'' \<notin> fst ` set ms" using v(3) ms by (simp add: map_of_eq_None_iff)
  ultimately show ?thesis using v(1) ms checkState_ok(1) by auto
qed

lemma Fetch_readState:
  assumes "Fetch P http ip = Inr st"
  shows "\<exists>resp body. http (stateURL ip) = Inr resp \<and> hp_status resp = 200 \<and> hp_body resp = Inr body \<and>
    length body \<le> maxStateBytes \<and> readState body = Inr st"
proof -
  have "length (take (maxStateBytes + 1) body) \<le> maxStateBytes \<Longrightarrow> take (maxStateBytes + 1) body = body" for body :: string
    by simp
  then show ?thesis using assms
    by (auto simp: Fetch_def Let_def split: if_splits sum.splits)
qed

lemma Fetch_nonneg: "Fetch P http ip = Inr st \<Longrightarrow> 0 \<le> po_restoring st"
  using Fetch_readState readState_ok checkState_ok(3) by metis

lemma sweep_samples_fetched: "(name, st) \<in> set (sweep_samples fetch pods) \<Longrightarrow> \<exists>ip. fetch ip = Inr st"
  by (induction pods) (auto simp: sweepPod_def split: sum.splits if_splits)

lemma observed_fetched:
  assumes "e \<in> set (sw_states (observeFleet P E sts))" "obs_ok E" "sw_err (observeFleet P E sts) = None"
    and "oe_listed E = Inr pods"
  shows "\<exists>ip. oe_fetch E ip = Inr (snd e)"
proof -
  have "e \<in> set (sweep_samples (oe_fetch E) (oe_sched E pods))"
    using assms(1) observeFleet_ok(1) [OF assms(3,2,4)]
      gm_copy_elems [of "[]" "sweep_samples (oe_fetch E) (oe_sched E pods)"]
    by (auto simp: FleetSweep_states)
  then have "(fst e, snd e) \<in> set (sweep_samples (oe_fetch E) (oe_sched E pods))" by simp
  then show ?thesis by (rule sweep_samples_fetched)
qed

section \<open>What a snapshot contains\<close>

abbreviation series :: "metric \<Rightarrow> string \<times> string list" where
  "series m \<equiv> (mt_name m, mt_labels m)"

definition gaugeNames :: "string list" where
  "gaugeNames = [''celld_resident_cells'', ''celld_evicting'', ''celld_restoring'', ''celld_shedding'',
     ''celld_resident_cell_utilization'', ''celld_rss_bytes'', ''celld_in_use_bytes'',
     ''celld_cgroup_current_bytes'', ''celld_cgroup_working_set_bytes'']"

lemma stateGauges_names: "fst ` set (stateGauges app st) \<subseteq> set gaugeNames"
  by (auto simp: stateGauges_def gm_copy_keys gaugeNames_def split: option.splits)

lemma stateGauges_distinct: "distinct (map fst (stateGauges app st))"
  unfolding stateGauges_def by (rule gm_wf_distinct) simp

lemma podMetrics_names:
  assumes "\<forall>m. mset (pl_order E m) = mset m"
  shows "distinct (map mt_name (podMetrics E app states pod))"
    and "set (map mt_name (podMetrics E app states pod)) \<subseteq>
      {''celld_container_restarts'', ''celld_self_fenced'', ''celld_state_up''} \<union> set gaugeNames"
proof -
  let ?gs = "\<lambda>st. map fst (pl_order E (stateGauges app st))"
  have gs: "distinct (?gs st)" "set (?gs st) \<subseteq> set gaugeNames" for st
    using stateGauges_distinct [of app st] stateGauges_names [of app st] assms
    by (metis mset_eq_imp_distinct_iff mset_map, metis mset_eq_setD set_map)
  have names: "map mt_name (podMetrics E app states pod) =
      [''celld_container_restarts'', ''celld_self_fenced'', ''celld_state_up'']
      @ (case map_of states (pod_name pod) of None \<Rightarrow> [] | Some st \<Rightarrow> ?gs st)"
    by (auto simp: podMetrics_def Let_def case_prod_unfold split: option.splits)
  moreover have "set [''celld_container_restarts'', ''celld_self_fenced'', ''celld_state_up''] \<inter> set gaugeNames = {}"
    by (simp add: gaugeNames_def)
  ultimately show "distinct (map mt_name (podMetrics E app states pod))"
    using gs by (auto split: option.splits)
  show "set (map mt_name (podMetrics E app states pod)) \<subseteq>
      {''celld_container_restarts'', ''celld_self_fenced'', ''celld_state_up''} \<union> set gaugeNames"
    unfolding names using gs(2) by (auto split: option.splits)
qed

lemma podMetrics_series:
  assumes "\<forall>m. mset (pl_order E m) = mset m"
  shows "distinct (map series (podMetrics E app states pod))"
    and "\<forall>m \<in> set (podMetrics E app states pod). mt_labels m = [app_namespace app, app_name app, pod_name pod]"
proof -
  have "distinct (map fst (map series (podMetrics E app states pod)))"
    using podMetrics_names(1) [OF assms] by (simp add: comp_def)
  then show "distinct (map series (podMetrics E app states pod))" by (simp only: distinct_map)
  show "\<forall>m \<in> set (podMetrics E app states pod). mt_labels m = [app_namespace app, app_name app, pod_name pod]"
    by (auto simp: podMetrics_def Let_def case_prod_unfold split: option.splits)
qed

lemma distinct_concat_tagged:
  assumes "\<forall>x \<in> set xs. distinct (f x) \<and> (\<forall>y \<in> set (f x). tag y = g x)" "distinct (map g xs)"
  shows "distinct (concat (map f xs))"
  using assms by (induction xs) fastforce+

text \<open>The pods whose state a sweep of a fleet asks for.\<close>

definition sampledPods :: "poll_env \<Rightarrow> WorkerApp \<Rightarrow> Pod list" where
  "sampledPods E app =
     (case pl_sts E app of
        Inl _ \<Rightarrow> []
      | Inr _ \<Rightarrow> (case pl_pods E app of Inl _ \<Rightarrow> [] | Inr items \<Rightarrow> items))"

lemma sampledPods_distinct: "poll_ok E \<Longrightarrow> distinct (map pod_name (sampledPods E app))"
  by (auto simp: sampledPods_def poll_ok_def split: sum.split)

definition published_complete :: "platform \<Rightarrow> poll_env \<Rightarrow> WorkerApp \<Rightarrow> bool" where
  "published_complete P E app \<longleftrightarrow>
     (\<exists>sts pods. pl_sts E app = Inr sts \<and> pl_pods E app = Inr pods \<and>
        fleetComplete P sts pods (FleetSweep (pl_fetch E) (pl_sched E pods)))"

lemma appMetrics_split:
  "appMetrics P E app =
     [\<lparr>mt_name = ''celld_fleet_complete'', mt_value = boolToGauge (published_complete P E app),
       mt_labels = [app_namespace app, app_name app]\<rparr>,
      \<lparr>mt_name = ''celld_fleet_sample_timestamp_seconds'', mt_value = Whole (pl_now E app div seconds 1),
       mt_labels = [app_namespace app, app_name app]\<rparr>]
     @ concat (map (podMetrics E app (sw_states (FleetSweep (pl_fetch E) (pl_sched E (sampledPods E app)))))
         (sampledPods E app))"
  by (simp add: appMetrics_def Let_def sampledPods_def published_complete_def split: sum.split)

lemma appMetrics_series:
  assumes "poll_ok E"
  shows "distinct (map series (appMetrics P E app))"
    and "\<forall>m \<in> set (appMetrics P E app). take 2 (mt_labels m) = [app_namespace app, app_name app]"
proof -
  let ?pods = "sampledPods E app"
  let ?f = "podMetrics E app (sw_states (FleetSweep (pl_fetch E) (pl_sched E ?pods)))"
  have ord: "\<forall>m. mset (pl_order E m) = mset m" using assms by (simp add: poll_ok_def)
  note pm = podMetrics_series [OF ord, of app "sw_states (FleetSweep (pl_fetch E) (pl_sched E ?pods))"]
  have "distinct (concat (map (\<lambda>p. map series (?f p)) ?pods))"
  proof (rule distinct_concat_tagged [where tag = snd and g = "\<lambda>p. [app_namespace app, app_name app, pod_name p]"])
    show "distinct (map (\<lambda>p. [app_namespace app, app_name app, pod_name p]) ?pods)"
      using sampledPods_distinct [OF assms, of app] by (simp add: distinct_map inj_on_def)
  qed (use pm in auto)
  then have pods: "distinct (map series (concat (map ?f ?pods)))" by (simp add: map_concat comp_def)
  have labels: "\<forall>m \<in> set (concat (map ?f ?pods)). length (mt_labels m) = 3 \<and>
      take 2 (mt_labels m) = [app_namespace app, app_name app]"
    using pm(2) by auto
  note a = appMetrics_split [of P E app]
  show "distinct (map series (appMetrics P E app))"
    unfolding a using pods labels by fastforce
  show "\<forall>m \<in> set (appMetrics P E app). take 2 (mt_labels m) = [app_namespace app, app_name app]"
    unfolding a using labels by auto
qed

lemma sweep_series:
  assumes "pl_apps E = Inr apps" "apps_ok E" "poll_ok E"
  shows "distinct (map series (concat (map (appMetrics P E) apps)))"
proof -
  have "distinct (concat (map (\<lambda>a. map series (appMetrics P E a)) apps))"
  proof (rule distinct_concat_tagged [where tag = "\<lambda>s. take 2 (snd s)" and g = "\<lambda>a. [app_namespace a, app_name a]"])
    show "distinct (map (\<lambda>a. [app_namespace a, app_name a]) apps)"
      using assms(1,2) by (simp add: distinct_map inj_on_def apps_ok_def)
  qed (use appMetrics_series [OF assms(3)] in auto)
  then show ?thesis by (simp add: map_concat comp_def)
qed

section \<open>Scrapes\<close>

text \<open>One sweep of the poller as a whole, or nothing.\<close>

definition whole_sweep :: "platform \<Rightarrow> metric list \<Rightarrow> bool" where
  "whole_sweep P ms \<longleftrightarrow> ms = [] \<or> (\<exists>E apps. poll_ok E \<and> apps_ok E \<and> pl_apps E = Inr apps \<and>
     ms = concat (map (appMetrics P E) apps))"

lemma whole_sweep_series: "whole_sweep P ms \<Longrightarrow> distinct (map series ms)"
  using sweep_series by (auto simp: whole_sweep_def)

lemma whole_sweep_tick:
  "whole_sweep P ms \<Longrightarrow> poll_ok E \<Longrightarrow> apps_ok E \<Longrightarrow> whole_sweep P (fst (StatePoller_sweep P E ms))"
  by (cases "pl_apps E") (auto simp: StatePoller_sweep_def whole_sweep_def)

lemma collector_whole:
  assumes "collector P s"
  shows "whole_sweep P (sn_samples s) \<and>
    (\<forall>i todo sent. sn_scrapes s i = Some (todo, sent) \<longrightarrow> whole_sweep P (sent @ todo))"
  using assms
proof (induction rule: collector.induct)
  case (send s i)
  then show ?case
    by (auto simp: sendSample_def split: option.splits prod.splits list.splits if_splits)
qed (auto simp: whole_sweep_def [of _ "[]"] whole_sweep_tick publish_def startCollect_def)

section \<open>Properties\<close>

text \<open>
  C34. A sample that passes the checks of the client is complete and sane: the answer was a
  JSON object of at most 4 MiB with status 200 that reports no error and carries the three
  safety fields; the counters are not negative and fit in 64 bits, and a reported deployment
  names a version and a positive generation.
\<close>

theorem Fetch_sound:
  assumes "Fetch P http ip = Inr st"
  shows "(\<exists>resp body ms. http (stateURL ip) = Inr resp \<and> hp_status resp = 200 \<and> hp_body resp = Inr body \<and>
      length body \<le> 4 * 2 ^ 20 \<and> json_parse body = Some (JObj ms) \<and> ''error'' \<notin> fst ` set ms \<and>
      {''occupied'', ''restoring'', ''shedding''} \<subseteq> fst ` set ms) \<and>
    0 \<le> po_occupied st \<and> 0 \<le> po_restoring st \<and> 0 \<le> po_evicting st \<and>
    po_occupied st < 2 ^ 63 \<and> po_restoring st < 2 ^ 63 \<and> po_evicting st < 2 ^ 63 \<and>
    (po_deployment st = Some d \<longrightarrow> ds_version d \<noteq> [] \<and> 1 \<le> ds_generation d \<and> 0 \<le> ds_swapping d)"
proof -
  obtain resp body where r: "http (stateURL ip) = Inr resp" "hp_status resp = 200" "hp_body resp = Inr body"
    "length body \<le> maxStateBytes" "readState body = Inr st"
    using Fetch_readState [OF assms] by blast
  from readState_ok [OF r(5)] obtain ms where ms: "json_parse body = Some (JObj ms)" "decodeState ms = Some st"
    "checkState st = Inr st" "''error'' \<notin> fst ` set ms" "{''occupied'', ''restoring'', ''shedding''} \<subseteq> fst ` set ms"
    by blast
  have "length body \<le> 4 * 2 ^ 20" using r(4) by (simp add: maxStateBytes_def)
  with r ms(1,4,5) checkState_ok(2-5) [OF ms(3)] decodeState_ok [OF ms(2)] show ?thesis
    unfolding int64_ok_def by blast
qed

text \<open>
  C11. The rollout gate observes the whole fleet: when an observation through the state
  client succeeds with \<open>restoring = 0\<close>, the pods sampled are exactly the expected ordinals,
  every one of them is ready, controlled by the StatefulSet and answered its state request,
  and none of them is restoring. (The sum of the counters fits in 64 bits.)
\<close>

theorem observeFleet_quiet:
  assumes "obs_ok E" "oe_listed E = Inr pods" "oe_fetch E = Fetch P http"
    and "sw_err (observeFleet P E sts) = None" "sw_restoring (observeFleet P E sts) = 0"
    and "sum_list (map (po_restoring \<circ> snd) (sw_states (observeFleet P E sts))) < 2 ^ 63"
  shows "set (map pod_name pods) = fleet_members sts \<and> distinct (map pod_name pods) \<and>
    (\<forall>p \<in> set pods. pf_IsControlledBy P (pod_meta p) (st_meta sts) \<and> podReady p) \<and>
    (\<forall>m \<in> fleet_members sts. \<exists>st. (m, st) \<in> set (sw_states (observeFleet P E sts)) \<and> po_restoring st = 0)"
proof (rule observeFleet_all_zero [OF assms(1,2,4,5) _ assms(6)])
  show "\<forall>e \<in> set (sw_states (observeFleet P E sts)). 0 \<le> po_restoring (snd e)"
    using observed_fetched [OF _ assms(1,4,2)] Fetch_nonneg unfolding assms(3) by blast
qed

text \<open>
  C35. The gauge the scaler trusts means what it says: where a fleet is published as
  complete, its StatefulSet is observed at its generation with a positive replica count, and
  exactly that many pods are listed, all controlled by it, ready, and answering with a valid
  state.
\<close>

theorem complete_gauge_sound:
  assumes "pl_apps E = Inr apps" "poll_ok E"
    and "m \<in> set (fst (StatePoller_sweep P E snapshot))"
    and "mt_name m = ''celld_fleet_complete''" "mt_value m = Whole 1"
  shows "\<exists>app \<in> set apps. \<exists>sts pods. mt_labels m = [app_namespace app, app_name app] \<and>
    pl_sts E app = Inr sts \<and> pl_pods E app = Inr pods \<and> 0 < deref0 (st_replicas sts) \<and>
    int (length pods) = deref0 (st_replicas sts) \<and>
    ss_observedGeneration (st_status sts) = om_generation (st_meta sts) \<and>
    \<not> (\<exists>p \<in> set pods. \<not> (pf_IsControlledBy P (pod_meta p) (st_meta sts) \<and> podReady p \<and>
         (\<exists>st. sweepPod (pl_fetch E) p = Inr st)))"
proof -
  from assms(1,3) obtain app where app: "app \<in> set apps" "m \<in> set (appMetrics P E app)"
    by (auto simp: StatePoller_sweep_def)
  have ord: "\<forall>m. mset (pl_order E m) = mset m" using assms(2) by (simp add: poll_ok_def)
  have other: "mt_name m \<notin> {''celld_container_restarts'', ''celld_self_fenced'', ''celld_state_up''} \<union> set gaugeNames"
    unfolding assms(4) gaugeNames_def by simp
  have "m \<notin> set (podMetrics E app states pod)" for states pod
  proof
    assume "m \<in> set (podMetrics E app states pod)"
    then have "mt_name m \<in> set (map mt_name (podMetrics E app states pod))" by simp
    from other subsetD [OF podMetrics_names(2) [OF ord] this] show False by (rule notE)
  qed
  with app(2) [unfolded appMetrics_split] assms(4)
  have "mt_value m = boolToGauge (published_complete P E app)" "mt_labels m = [app_namespace app, app_name app]"
    by auto
  with assms(5) obtain sts pods where s: "pl_sts E app = Inr sts" "pl_pods E app = Inr pods"
      "fleetComplete P sts pods (FleetSweep (pl_fetch E) (pl_sched E pods))" "mt_labels m = [app_namespace app, app_name app]"
    by (auto simp: boolToGauge_def published_complete_def split: if_splits)
  have "int (length pods) = deref0 (st_replicas sts)"
    using s(2,3) assms(2) by (auto simp: fleetComplete_def poll_ok_def wrap32_id)
  moreover have "set (pl_sched E pods) = set pods"
    using assms(2) by (intro mset_eq_setD) (simp add: poll_ok_def)
  ultimately show ?thesis
    using app(1) s unfolding fleetComplete_def FleetSweep_err list_all_iff
    by (intro bexI [OF _ app(1)] exI [of _ sts] exI [of _ pods]) simp
qed


end
