(* ===== verification/Manager.thy ===== *)
theory Manager
  imports Routes Deploy_Tracker
begin

text \<open>
  The entry point of the operator (\<open>src/cmd/main.go\<close>): the flags with their defaults, the
  check that precedes everything else, and the manager, reconciler, tracker and poller that
  are built from the flags. \<open>startup\<close> is \<open>main\<close> up to the start of the manager: the exit status,
  or what is handed to the controller runtime. The calls into that library may fail; their
  answers are a \<open>startup_env\<close>.
\<close>

section \<open>Lists in flags\<close>

text \<open>\<open>strings.Split\<close> at one character.\<close>

fun splitAll :: "char \<Rightarrow> string \<Rightarrow> string list" where
  "splitAll c [] = [[]]"
| "splitAll c (x # s) =
     (if x = c then [] # splitAll c s
      else case splitAll c s of y # ys \<Rightarrow> (x # y) # ys | [] \<Rightarrow> [[x]])"

text \<open>\<open>strings.TrimSpace\<close>: the encoded characters with the property \<open>White_Space\<close>.\<close>

definition spaces :: "string list" where
  "spaces = map utf8_encode ([0x9, 0xA, 0xB, 0xC, 0xD, 0x20, 0x85, 0xA0, 0x1680] @ [0x2000..<0x200B]
     @ [0x2028, 0x2029, 0x202F, 0x205F, 0x3000])"

lemma find_SomeD: "find Q xs = Some x \<Longrightarrow> Q x"
  by (induction xs) (auto split: if_splits)

function trimLeft :: "string \<Rightarrow> string" where
  "trimLeft s =
     (case find (\<lambda>p. p \<noteq> [] \<and> hasPrefix s p) spaces of
        Some p \<Rightarrow> trimLeft (drop (length p) s)
      | None \<Rightarrow> s)"
  by pat_completeness auto
termination
proof (relation "measure length")
  fix s p
  assume "find (\<lambda>p. p \<noteq> [] \<and> hasPrefix s p) spaces = Some p"
  then have "p \<noteq> [] \<and> hasPrefix s p" by (rule find_SomeD)
  then have "s \<noteq> []" "p \<noteq> []" by (auto simp: hasPrefix_def)
  then show "(drop (length p) s, s) \<in> measure length" by simp
qed simp

declare trimLeft.simps [simp del]

function trimRight :: "string \<Rightarrow> string" where
  "trimRight s =
     (case find (\<lambda>p. p \<noteq> [] \<and> hasSuffix s p) spaces of
        Some p \<Rightarrow> trimRight (take (length s - length p) s)
      | None \<Rightarrow> s)"
  by pat_completeness auto
termination
proof (relation "measure length")
  fix s p
  assume "find (\<lambda>p. p \<noteq> [] \<and> hasSuffix s p) spaces = Some p"
  then have "p \<noteq> [] \<and> hasSuffix s p" by (rule find_SomeD)
  then have "s \<noteq> []" "p \<noteq> []" by (auto simp: hasSuffix_def)
  then show "(take (length s - length p) s, s) \<in> measure length" by simp
qed simp

declare trimRight.simps [simp del]

definition trimSpace :: "string \<Rightarrow> string" where
  "trimSpace s = trimRight (trimLeft s)"

definition splitList :: "string \<Rightarrow> string list" where
  "splitList value = filter (\<lambda>item. item \<noteq> []) (map trimSpace (splitAll (CHR '','') value))"

section \<open>Flags\<close>

record operator_flags =
  fl_metricsAddr :: string
  fl_probeAddr :: string
  fl_leaderElect :: bool
  fl_secureMetrics :: bool
  fl_webhookCert :: "string \<times> string \<times> string"
  fl_metricsCert :: "string \<times> string \<times> string"
  fl_enableHTTP2 :: bool
  fl_ingressMode :: string
  fl_ingressClass :: string
  fl_clusterIssuer :: string
  fl_istioGateways :: string
  fl_gatewayName :: string
  fl_gatewayNamespace :: string
  fl_prometheusURL :: string
  fl_operatorNamespace :: string
  fl_operatorPrincipal :: string
  fl_statePollInterval :: int
  fl_deployPollInterval :: int
  fl_watchNamespace :: string
  fl_imagePrefixes :: string
  fl_iamRoles :: string
  fl_azureIDs :: string
  fl_bucketEndpoints :: string
  fl_routeRetries :: bool

definition defaultFlags :: operator_flags where
  "defaultFlags =
     \<lparr>fl_metricsAddr = ''0'', fl_probeAddr = '':8081'', fl_leaderElect = False, fl_secureMetrics = True,
      fl_webhookCert = ([], ''tls.crt'', ''tls.key''), fl_metricsCert = ([], ''tls.crt'', ''tls.key''),
      fl_enableHTTP2 = False, fl_ingressMode = IngressModeHTTPRoute, fl_ingressClass = [],
      fl_clusterIssuer = [], fl_istioGateways = [], fl_gatewayName = ''edge'', fl_gatewayNamespace = ''infra'',
      fl_prometheusURL = ''http://prometheus-operated.monitoring.svc:9090'',
      fl_operatorNamespace = ''celld-operator-system'',
      fl_operatorPrincipal = ''cluster.local/ns/celld-operator-system/sa/celld-operator-controller-manager'',
      fl_statePollInterval = seconds 15, fl_deployPollInterval = seconds 60, fl_watchNamespace = [],
      fl_imagePrefixes = ''ghcr.io/denoland/celld:'', fl_iamRoles = [], fl_azureIDs = [],
      fl_bucketEndpoints = [], fl_routeRetries = False\<rparr>"

definition validModes :: "string list" where
  "validModes = [IngressModeHTTPRoute, IngressModeIngress, IngressModeVirtualService, IngressModeNone]"

definition validFlags :: "operator_flags \<Rightarrow> bool" where
  "validFlags f \<longleftrightarrow> fl_ingressMode f \<in> set validModes \<and> \<not> fl_statePollInterval f \<le> 0 \<and> \<not> fl_deployPollInterval f \<le> 0"

section \<open>What is built from them\<close>

text \<open>A server with TLS: the protocols offered (\<open>None\<close>: the library's), the certificate files.\<close>

record server_options =
  so_bindAddress :: string
  so_secure :: bool
  so_authorized :: bool
  so_protocols :: "string list option"
  so_cert :: "(string \<times> string \<times> string) option"

record manager_options =
  mo_namespaces :: "string list"
  mo_metrics :: server_options
  mo_webhook :: server_options
  mo_probeAddr :: string
  mo_leaderElection :: bool
  mo_leaderElectionID :: string
  mo_uncached :: "string list"

text \<open>The controller: the kind it reconciles, the kinds whose owner it is woken for.\<close>

record controller =
  ct_name :: string
  ct_for :: string
  ct_owns :: "string list"
  ct_tracker :: DeployTracker

record manager =
  mg_options :: manager_options
  mg_reconciler :: WorkerAppReconciler
  mg_controller :: controller
  mg_pollInterval :: int

record startup_env =
  se_newManager :: "gerror option"
  se_controller :: "gerror option"
  se_poller :: "gerror option"
  se_healthz :: "gerror option"
  se_readyz :: "gerror option"
  se_run :: "gerror option"

definition tlsProtocols :: "operator_flags \<Rightarrow> string list option" where
  "tlsProtocols f = (if fl_enableHTTP2 f then None else Some [''http/1.1''])"

definition certFiles :: "string \<times> string \<times> string \<Rightarrow> (string \<times> string \<times> string) option" where
  "certFiles c = (if length (fst c) > 0 then Some c else None)"

definition managerOptions :: "operator_flags \<Rightarrow> manager_options" where
  "managerOptions f =
     \<lparr>mo_namespaces = (if fl_watchNamespace f \<noteq> [] then [fl_watchNamespace f] else []),
      mo_metrics = \<lparr>so_bindAddress = fl_metricsAddr f, so_secure = fl_secureMetrics f,
        so_authorized = fl_secureMetrics f, so_protocols = tlsProtocols f, so_cert = certFiles (fl_metricsCert f)\<rparr>,
      mo_webhook = \<lparr>so_bindAddress = [], so_secure = True, so_authorized = False,
        so_protocols = tlsProtocols f, so_cert = certFiles (fl_webhookCert f)\<rparr>,
      mo_probeAddr = fl_probeAddr f, mo_leaderElection = fl_leaderElect f,
      mo_leaderElectionID = ''c849b945.celld-operator.io'',
      mo_uncached = [''Secret'', ''HTTPRoute'']\<rparr>"

definition newReconciler :: "operator_flags \<Rightarrow> WorkerAppReconciler" where
  "newReconciler f =
     \<lparr>tp_allowedImagePrefixes = splitList (fl_imagePrefixes f), tp_allowedIAMRoles = splitList (fl_iamRoles f),
      tp_allowedAzureClientIDs = splitList (fl_azureIDs f),
      tp_allowedBucketEndpoints = splitList (fl_bucketEndpoints f),
      rc_HTTPRouteRetries = fl_routeRetries f, rc_IngressMode = fl_ingressMode f,
      rc_GatewayName = fl_gatewayName f, rc_GatewayNamespace = fl_gatewayNamespace f,
      rc_IstioGateways = (if fl_istioGateways f \<noteq> [] then splitAll (CHR '','') (fl_istioGateways f) else []),
      rc_IngressClassName = fl_ingressClass f, rc_ClusterIssuer = fl_clusterIssuer f,
      rc_PrometheusURL = fl_prometheusURL f, rc_OperatorNamespace = fl_operatorNamespace f,
      rc_OperatorPrincipal = fl_operatorPrincipal f\<rparr>"

definition SetupWithManager :: "DeployTracker option \<Rightarrow> controller" where
  "SetupWithManager deploys =
     \<lparr>ct_name = ''workerapp'', ct_for = ''WorkerApp'',
      ct_owns = [''StatefulSet'', ''Service'', ''ServiceAccount'', ''NetworkPolicy'', ''PodDisruptionBudget'', ''Ingress''],
      ct_tracker = (case deploys of None \<Rightarrow> NewDeployTracker 0 | Some t \<Rightarrow> t)\<rparr>"

definition startup :: "startup_env \<Rightarrow> operator_flags \<Rightarrow> int + manager" where
  "startup E f =
     (if \<not> validFlags f then Inl 1
      else if se_newManager E \<noteq> None then Inl 1
      else if se_controller E \<noteq> None then Inl 1
      else if se_poller E \<noteq> None then Inl 1
      else if se_healthz E \<noteq> None then Inl 1
      else if se_readyz E \<noteq> None then Inl 1
      else Inr \<lparr>mg_options = managerOptions f, mg_reconciler = newReconciler f,
                mg_controller = SetupWithManager (Some (NewDeployTracker (fl_deployPollInterval f))),
                mg_pollInterval = fl_statePollInterval f\<rparr>)"

text \<open>The exit status of the operator.\<close>

definition operator_main :: "startup_env \<Rightarrow> operator_flags \<Rightarrow> int" where
  "operator_main E f =
     (case startup E f of Inl status \<Rightarrow> status | Inr _ \<Rightarrow> if se_run E \<noteq> None then 1 else 0)"

text \<open>\<open>StatePoller.Start\<close> guards its interval once more.\<close>

definition pollInterval :: "int \<Rightarrow> int" where
  "pollInterval interval = (if interval \<le> 0 then seconds 15 else interval)"

section \<open>Lists read back\<close>

lemma splitAll_nonempty [simp]: "splitAll c s \<noteq> []"
  by (induction s) (auto split: list.splits)

lemma splitAll_none: "c \<notin> set s \<Longrightarrow> splitAll c s = [s]"
  by (induction s) auto

lemma splitAll_sep: "c \<notin> set s \<Longrightarrow> splitAll c (s @ c # t) = s # splitAll c t"
  by (induction s) auto

lemma splitAll_join:
  assumes "xs \<noteq> []" "\<forall>x \<in> set xs. c \<notin> set x"
  shows "splitAll c (join xs [c]) = xs"
  using assms
proof (induction xs)
  case (Cons x xs)
  then show ?case by (cases xs) (simp_all add: splitAll_none splitAll_sep)
qed simp

lemma trim_Nil: "trimLeft [] = []" "trimRight [] = []"
proof -
  have "find (\<lambda>p. p \<noteq> [] \<and> hasPrefix [] p) spaces = None" "find (\<lambda>p. p \<noteq> [] \<and> hasSuffix [] p) spaces = None"
    by (auto simp: find_None_iff hasPrefix_def hasSuffix_def)
  then show "trimLeft [] = []" "trimRight [] = []"
    by (simp_all add: trimLeft.simps [of "[]"] trimRight.simps [of "[]"])
qed

lemma splitList_nonempty: "[] \<notin> set (splitList v)"
  by (simp add: splitList_def)

section \<open>One mode, one kind of route\<close>

text \<open>The mode whose route an object is.\<close>

fun route_mode :: "kobject \<Rightarrow> string" where
  "route_mode (KIngress _) = IngressModeIngress"
| "route_mode (KHTTPRoute _) = IngressModeHTTPRoute"
| "route_mode (KUnstructured _) = IngressModeVirtualService"
| "route_mode _ = IngressModeNone"

lemma obsoleteRoute_mode:
  assumes "obsoleteRoute E kind = Inr obj" "kind \<in> {IngressModeIngress, IngressModeHTTPRoute, IngressModeVirtualService}"
  shows "route_mode obj = kind"
  using assms by (auto simp: obsoleteRoute_def map_sum_def mode_defs split: sum.splits)

lemma ensured_mode:
  "Create k \<in> set (fst (ensureVirtualService r P E1 app)) \<or> Update k \<in> set (fst (ensureVirtualService r P E1 app)) \<Longrightarrow>
     route_mode k = IngressModeVirtualService"
  "Create k \<in> set (fst (ensureV1Ingress r P E2 app)) \<or> Update k \<in> set (fst (ensureV1Ingress r P E2 app)) \<Longrightarrow>
     route_mode k = IngressModeIngress"
  "Create k \<in> set (fst (ensureHTTPRoute r P E3 app)) \<or> Update k \<in> set (fst (ensureHTTPRoute r P E3 app)) \<Longrightarrow>
     route_mode k = IngressModeHTTPRoute"
  by (auto simp: ensureVirtualService_def ensureV1Ingress_def ensureHTTPRoute_def case_prod_unfold Let_def kind_defs
      split: sum.splits if_splits dest!: ensureUnstructured_writes ensureObject_writes)

lemma ensureIngress_writes_mode:
  assumes "rc_IngressMode r \<in> set validModes"
    and "Create k \<in> set (fst (ensureIngress r P E app)) \<or> Update k \<in> set (fst (ensureIngress r P E app))"
  shows "route_mode k = activeMode r app"
proof -
  have "Create k \<notin> set (fst (removeObsoleteRoutes r P (rt_obsolete E) app)) \<and>
      Update k \<notin> set (fst (removeObsoleteRoutes r P (rt_obsolete E) app))"
    unfolding removeObsoleteRoutes_def using removeRoutes_sound by fastforce
  with assms show ?thesis
    using ensured_mode(1) [of k r P "rt_virtualService E" app] ensured_mode(2) [of k r P "rt_ingress E" app]
      ensured_mode(3) [of k r P "rt_httpRoute E" app]
    by (auto simp: ensureIngress_def activeMode_def validModes_def mode_defs split: prod.splits sum.splits if_splits)
qed

section \<open>Properties\<close>

text \<open>
  C23. With flags that pass the check, the edge never fights itself: a pass does not delete a
  route of the kind it creates or updates, whatever hostnames an application has.
\<close>

theorem mode_consistent:
  assumes "startup S f = Inr m" "r = mg_reconciler m"
    and "set (ox_order (rt_obsolete E)) = {IngressModeIngress, IngressModeHTTPRoute, IngressModeVirtualService}"
    and "Delete k \<in> set (fst (ensureIngress r P E app))"
    and "Create k' \<in> set (fst (ensureIngress r P E app)) \<or> Update k' \<in> set (fst (ensureIngress r P E app))"
  shows "route_mode k \<noteq> route_mode k'"
proof -
  have "rc_IngressMode r \<in> set validModes"
    using assms(1,2) by (auto simp: startup_def validFlags_def newReconciler_def split: if_splits)
  then have k': "route_mode k' = activeMode r app" using assms(5) by (rule ensureIngress_writes_mode)
  have "Delete k \<in> set (fst (removeObsoleteRoutes r P (rt_obsolete E) app))"
    using assms(4)
    by (auto simp: ensureIngress_def ensureVirtualService_def ensureV1Ingress_def ensureHTTPRoute_def case_prod_unfold
        Let_def split: prod.splits sum.splits if_splits dest!: ensureUnstructured_writes ensureObject_writes)
  then obtain kind where "kind \<in> set (ox_order (rt_obsolete E))" "kind \<noteq> activeMode r app"
      "obsoleteRoute (rt_obsolete E) kind = Inr k"
    unfolding removeObsoleteRoutes_def using removeRoutes_sound by blast
  with obsoleteRoute_mode assms(3) k' show ?thesis by metis
qed

text \<open>
  The flag check makes the guards behind it redundant: a manager that runs polls at the
  intervals of the flags, both positive.
\<close>

lemma startup_intervals:
  assumes "startup S f = Inr m"
  shows "0 < fl_statePollInterval f" "pollInterval (mg_pollInterval m) = fl_statePollInterval f"
    "0 < fl_deployPollInterval f" "dt_interval (ct_tracker (mg_controller m)) = fl_deployPollInterval f"
  using assms
  by (auto simp: startup_def validFlags_def pollInterval_def SetupWithManager_def NewDeployTracker_def split: if_splits)

lemma operator_main_zero:
  "operator_main S f = 0 \<longleftrightarrow> (\<exists>m. startup S f = Inr m) \<and> se_run S = None"
  by (auto simp: operator_main_def startup_def split: sum.splits if_splits)

text \<open>
  A list given as a flag is read back as given: entries that are not empty, contain no
  comma and no surrounding white space are kept in order, and blank entries disappear.
\<close>

lemma splitList_join:
  assumes "\<forall>x \<in> set xs. x \<noteq> [] \<and> CHR '','' \<notin> set x \<and> trimSpace x = x"
  shows "splitList (join xs '','') = xs"
proof (cases xs)
  case Nil
  have "trimSpace [] = []" by (simp add: trimSpace_def trim_Nil)
  with Nil show ?thesis by (simp add: splitList_def)
next
  case (Cons y ys)
  with assms have "splitAll (CHR '','') (join xs '','') = xs" by (intro splitAll_join) auto
  moreover have "map trimSpace xs = xs" using assms by (intro map_idI) simp
  ultimately show ?thesis using assms by (simp add: splitList_def)
qed

text \<open>
  No setting of the flags turns the image allowlist off: whatever the flag says, an image
  that validates starts with an allowed prefix that is not empty.
\<close>

lemma image_allowlist_total:
  assumes "validateApp P (trust_policy.truncate (newReconciler f)) app = Inr ()"
  shows "\<exists>p. p \<noteq> [] \<and> hasPrefix (app_image app) p \<and>
    (p \<in> set (splitList (fl_imagePrefixes f)) \<or> splitList (fl_imagePrefixes f) = [] \<and> p = ''ghcr.io/denoland/celld:'')"
  using validateTrust_checked(1) [OF validateApp_checked(7) [OF assms]] splitList_nonempty [of "fl_imagePrefixes f"]
  by (auto simp: trust_policy.truncate_def newReconciler_def split: if_splits) metis

end
