(* ===== verification/Cas_Hammer.thy ===== *)
theory Cas_Hammer
  imports Op_Prelude "HOL-Library.Multiset"
begin

text \<open>
  The probe for conditional writes (\<open>src/hack/cas-hammer/main.go\<close>): \<open>classify\<close>, the two racers,
  a round, a phase and the exit status, with the writes and deletions the probe issues.

  The object store is a parameter: its answers to the requests of a round, for the client the
  flags configure. The writers of a round run concurrently; the round depends on them through
  the order in which they report (\<open>hm_order\<close>).
\<close>

section \<open>The program\<close>

datatype put_error = APIError string | OtherFailure string

record put_request =
  pr_bucket :: string
  pr_key :: string
  pr_body :: string
  pr_ifNoneMatch :: "string option"
  pr_ifMatch :: "string option"

record hammer_flags =
  hf_bucket :: string
  hf_endpoint :: string
  hf_region :: string
  hf_writers :: int
  hf_rounds :: int
  hf_prefix :: string

text \<open>The client of the store: a custom endpoint is addressed by path.\<close>

record store_client =
  cl_region :: string
  cl_baseEndpoint :: "string option"
  cl_usePathStyle :: bool

definition hammer_client :: "hammer_flags \<Rightarrow> store_client" where
  "hammer_client f =
     (if hf_endpoint f \<noteq> []
      then \<lparr>cl_region = hf_region f, cl_baseEndpoint = Some (hf_endpoint f), cl_usePathStyle = True\<rparr>
      else \<lparr>cl_region = hf_region f, cl_baseEndpoint = None, cl_usePathStyle = False\<rparr>)"

text \<open>What the probe sends to change the store; a deletion names bucket and key.\<close>

datatype store_op = PutObject put_request | DeleteObject string string

type_synonym store_answers = "put_request \<Rightarrow> put_error option"

definition classify :: "put_error option \<Rightarrow> bool \<times> put_error option" where
  "classify err =
     (case err of
        None \<Rightarrow> (True, None)
      | Some (APIError code) \<Rightarrow>
          if code = ''PreconditionFailed'' \<or> code = ''ConditionalRequestConflict'' then (False, None) else (False, err)
      | Some (OtherFailure _) \<Rightarrow> (False, err))"

definition writer_put :: "hammer_flags \<Rightarrow> string \<Rightarrow> nat \<Rightarrow> put_request" where
  "writer_put f key writer =
     \<lparr>pr_bucket = hf_bucket f, pr_key = key, pr_body = ''writer-'' @ show_nat writer,
      pr_ifNoneMatch = None, pr_ifMatch = None\<rparr>"

type_synonym racer = "hammer_flags \<Rightarrow> string \<Rightarrow> nat \<Rightarrow> string option \<Rightarrow> put_request"

definition raceCreate :: racer where
  "raceCreate f key writer etag = (writer_put f key writer)\<lparr>pr_ifNoneMatch := Some ''*''\<rparr>"

definition raceUpdate :: racer where
  "raceUpdate f key writer etag = (writer_put f key writer)\<lparr>pr_ifMatch := etag\<rparr>"

text \<open>One goroutine's report under the lock: the winners so far and the last hard error.\<close>

definition report :: "nat \<times> put_error option \<Rightarrow> bool \<times> put_error option \<Rightarrow> nat \<times> put_error option" where
  "report acc res =
     (case res of
        (_, Some e) \<Rightarrow> (fst acc, Some e)
      | (won, None) \<Rightarrow> (if won then fst acc + 1 else fst acc, snd acc))"

definition race_round ::
  "racer \<Rightarrow> hammer_flags \<Rightarrow> string \<Rightarrow> string option \<Rightarrow> store_answers \<Rightarrow> nat list \<Rightarrow> nat \<times> put_error option" where
  "race_round race f key etag answers order =
     foldl report (0, None) (map (\<lambda>w. classify (answers (race f key w etag))) order)"

record hammer_env =
  hm_now :: "string \<Rightarrow> nat \<Rightarrow> int"
  hm_seed :: "put_request \<Rightarrow> put_error option"
  hm_head :: "string \<Rightarrow> string option option"
  hm_answers :: "string \<Rightarrow> store_answers"
  hm_order :: "string \<Rightarrow> nat list"

definition round_key :: "hammer_env \<Rightarrow> hammer_flags \<Rightarrow> string \<Rightarrow> nat \<Rightarrow> string" where
  "round_key E f name round =
     hf_prefix f @ ''/'' @ name @ ''/'' @ show_int (hm_now E name round) @ ''-'' @ show_nat round"

text \<open>
  The seed of the update phase: \<open>None\<close> where it cannot be written or its ETag (the inner
  option) cannot be read.
\<close>

definition seed_put :: "hammer_flags \<Rightarrow> string \<Rightarrow> put_request" where
  "seed_put f key =
     \<lparr>pr_bucket = hf_bucket f, pr_key = key, pr_body = ''seed'', pr_ifNoneMatch = None, pr_ifMatch = None\<rparr>"

definition seed_etag :: "hammer_env \<Rightarrow> hammer_flags \<Rightarrow> string \<Rightarrow> string \<Rightarrow> string option option" where
  "seed_etag E f name key =
     (if name \<noteq> ''update'' then Some None
      else if hm_seed E (seed_put f key) \<noteq> None then None
      else case hm_head E key of Some (Some etag) \<Rightarrow> Some (Some etag) | _ \<Rightarrow> None)"

definition seeding :: "hammer_flags \<Rightarrow> string \<Rightarrow> string \<Rightarrow> store_op list" where
  "seeding f name key = (if name = ''update'' then [PutObject (seed_put f key)] else [])"

text \<open>
  The rounds that are left: what is sent, and the number of violations or \<open>os.Exit(2)\<close>. The
  object of a completed round is deleted, whatever the answer to that.
\<close>

fun runRounds :: "hammer_env \<Rightarrow> hammer_flags \<Rightarrow> string \<Rightarrow> racer \<Rightarrow> nat list \<Rightarrow> store_op list \<times> (int + nat)" where
  "runRounds E f name race [] = ([], Inr 0)"
| "runRounds E f name race (round # rounds) =
     (let key = round_key E f name round in
      case seed_etag E f name key of
        None \<Rightarrow> (seeding f name key, Inl 2)
      | Some etag \<Rightarrow>
          let puts = seeding f name key @ map (\<lambda>w. PutObject (race f key w etag)) (hm_order E key) in
          (case race_round race f key etag (hm_answers E key) (hm_order E key) of
             (_, Some e) \<Rightarrow> (puts, Inl 2)
           | (winners, None) \<Rightarrow>
               let (ops, res) = runRounds E f name race rounds in
               (puts @ [DeleteObject (hf_bucket f) key] @ ops,
                map_sum id (\<lambda>n. (if winners \<noteq> 1 then 1 else 0) + n) res)))"

definition runPhase :: "hammer_env \<Rightarrow> hammer_flags \<Rightarrow> string \<Rightarrow> racer \<Rightarrow> store_op list \<times> (int + nat)" where
  "runPhase E f name race = runRounds E f name race [0..<nat (hf_rounds f)]"

text \<open>
  What is sent and the exit status; \<open>S\<close> is the store behind a client, \<open>configured\<close> is whether
  the AWS configuration loads.
\<close>

definition hammer_main :: "(store_client \<Rightarrow> hammer_env) \<Rightarrow> hammer_flags \<Rightarrow> bool \<Rightarrow> store_op list \<times> int" where
  "hammer_main S f configured =
     (if hf_bucket f = [] then ([], 2)
      else if hf_writers f < 2 \<or> hf_rounds f < 1 then ([], 2)
      else if \<not> configured then ([], 2)
      else let E = S (hammer_client f) in
        case runPhase E f ''create'' raceCreate of
          (ops, Inl status) \<Rightarrow> (ops, status)
        | (ops, Inr created) \<Rightarrow>
            (case runPhase E f ''update'' raceUpdate of
               (ops', Inl status) \<Rightarrow> (ops @ ops', status)
             | (ops', Inr updated) \<Rightarrow> (ops @ ops', if created + updated > 0 then 1 else 0)))"

section \<open>Rounds\<close>

abbreviation won :: "put_error option \<Rightarrow> bool" where
  "won a \<equiv> classify a = (True, None)"

abbreviation hard :: "put_error option \<Rightarrow> bool" where
  "hard a \<equiv> snd (classify a) \<noteq> None"

lemma classify_cases: "won a \<and> a = None \<or> classify a = (False, None) \<and> a \<noteq> None \<or> classify a = (False, a) \<and> a \<noteq> None"
  by (auto simp: classify_def split: option.split put_error.split)

lemma report_classify:
  "fst (report acc (classify a)) = fst acc + (if won a then 1 else 0)"
  "snd (report acc (classify a)) = None \<longleftrightarrow> snd acc = None \<and> \<not> hard a"
  using classify_cases [of a] by (auto simp: report_def)

lemma foldl_report:
  "fst (foldl report acc (map classify as)) = fst acc + length (filter won as)"
  "snd (foldl report acc (map classify as)) = None \<longleftrightarrow> snd acc = None \<and> \<not> (\<exists>a \<in> set as. hard a)"
  by (induction as arbitrary: acc) (auto simp: report_classify)

text \<open>The answers of a round, in the order of the reports.\<close>

definition round_answers ::
  "racer \<Rightarrow> hammer_flags \<Rightarrow> string \<Rightarrow> string option \<Rightarrow> store_answers \<Rightarrow> nat list \<Rightarrow> put_error option list" where
  "round_answers race f key etag answers order = map (\<lambda>w. answers (race f key w etag)) order"

lemma race_round_result:
  "fst (race_round race f key etag answers order) = length (filter won (round_answers race f key etag answers order))"
  "snd (race_round race f key etag answers order) = None \<longleftrightarrow>
     \<not> (\<exists>a \<in> set (round_answers race f key etag answers order). hard a)"
proof -
  have r: "race_round race f key etag answers order =
      foldl report (0, None) (map classify (round_answers race f key etag answers order))"
    by (simp add: race_round_def round_answers_def comp_def)
  show "fst (race_round race f key etag answers order) = length (filter won (round_answers race f key etag answers order))"
    "snd (race_round race f key etag answers order) = None \<longleftrightarrow>
      \<not> (\<exists>a \<in> set (round_answers race f key etag answers order). hard a)"
    unfolding r foldl_report by simp_all
qed

text \<open>A round that ends well: it was seeded, no writer failed hard, one writer won.\<close>

definition good_round :: "hammer_env \<Rightarrow> hammer_flags \<Rightarrow> string \<Rightarrow> racer \<Rightarrow> nat \<Rightarrow> bool" where
  "good_round E f name race round \<longleftrightarrow>
     (let key = round_key E f name round in
      case seed_etag E f name key of
        None \<Rightarrow> False
      | Some etag \<Rightarrow> race_round race f key etag (hm_answers E key) (hm_order E key) = (1, None))"

lemma runRounds_Cons:
  fixes name round E f
  defines "key \<equiv> round_key E f name round"
  shows "seed_etag E f name key = None \<Longrightarrow> snd (runRounds E f name race (round # rounds)) = Inl 2"
    and "seed_etag E f name key = Some etag \<Longrightarrow>
      race_round race f key etag (hm_answers E key) (hm_order E key) = (winners, Some e) \<Longrightarrow>
      snd (runRounds E f name race (round # rounds)) = Inl 2"
    and "seed_etag E f name key = Some etag \<Longrightarrow>
      race_round race f key etag (hm_answers E key) (hm_order E key) = (winners, None) \<Longrightarrow>
      runRounds E f name race (round # rounds) =
        (seeding f name key @ map (\<lambda>w. PutObject (race f key w etag)) (hm_order E key)
           @ DeleteObject (hf_bucket f) key # fst (runRounds E f name race rounds),
         map_sum id (\<lambda>n. (if winners \<noteq> 1 then 1 else 0) + n) (snd (runRounds E f name race rounds)))"
  by (simp_all only: key_def runRounds.simps Let_def option.case prod.case case_prod_unfold fst_conv snd_conv
      append_assoc append.simps)

text \<open>The three ways a round ends: not seeded, a hard error, a number of winners.\<close>

lemma round_cases:
  obtains "seed_etag E f name key = None"
  | etag winners e where "seed_etag E f name key = Some etag"
      "race_round race f key etag (hm_answers E key) (hm_order E key) = (winners, Some e)"
  | etag winners where "seed_etag E f name key = Some etag"
      "race_round race f key etag (hm_answers E key) (hm_order E key) = (winners, None)"
proof (cases "seed_etag E f name key")
  case (Some etag)
  obtain winners err where r: "race_round race f key etag (hm_answers E key) (hm_order E key) = (winners, err)"
    by (rule prod.exhaust)
  with Some that(2,3) show ?thesis by (cases err) simp_all
qed (rule that(1))

lemma runRounds_zero:
  "snd (runRounds E f name race rounds) = Inr 0 \<longleftrightarrow> list_all (good_round E f name race) rounds"
proof (induction rounds)
  case (Cons round rounds)
  show ?case
  proof (cases rule: round_cases [of E f name "round_key E f name round" _ race])
    case (3 etag winners)
    from runRounds_Cons(3) [OF this] Cons 3 show ?thesis
      by (cases "snd (runRounds E f name race rounds)") (auto simp: good_round_def Let_def)
  qed (simp_all add: runRounds_Cons(1,2) good_round_def del: runRounds.simps)
qed simp

text \<open>Status 2 of a phase: some round could not be completed.\<close>

lemma runRounds_status: "snd (runRounds E f name race rounds) = Inl status \<Longrightarrow> status = 2"
proof (induction rounds)
  case (Cons round rounds)
  show ?case
  proof (cases rule: round_cases [of E f name "round_key E f name round" _ race])
    case (3 etag winners)
    from runRounds_Cons(3) [OF this] Cons show ?thesis
      by (cases "snd (runRounds E f name race rounds)") simp_all
  qed (use Cons.prems in \<open>simp_all add: runRounds_Cons(1,2) del: runRounds.simps\<close>)
qed simp

section \<open>What the probe leaves behind\<close>

text \<open>Every object that is written is deleted later.\<close>

fun cleaned :: "store_op list \<Rightarrow> bool" where
  "cleaned [] \<longleftrightarrow> True"
| "cleaned (PutObject q # ops) \<longleftrightarrow> DeleteObject (pr_bucket q) (pr_key q) \<in> set ops \<and> cleaned ops"
| "cleaned (DeleteObject b k # ops) \<longleftrightarrow> cleaned ops"

lemma cleaned_append: "cleaned xs \<Longrightarrow> cleaned ys \<Longrightarrow> cleaned (xs @ ys)"
  by (induction xs rule: cleaned.induct) auto

abbreviation target :: "put_request \<Rightarrow> string \<times> string" where
  "target q \<equiv> (pr_bucket q, pr_key q)"

lemma cleaned_round:
  "list_all (\<lambda>q. target q = (b, k)) qs \<Longrightarrow> cleaned ops \<Longrightarrow> cleaned (map PutObject qs @ DeleteObject b k # ops)"
proof (induction qs)
  case (Cons q qs)
  then have "pr_bucket q = b" "pr_key q = k" by simp_all
  with Cons show ?case by simp
qed simp

lemma racer_target:
  "race \<in> {raceCreate, raceUpdate} \<Longrightarrow> target (race f key w etag) = (hf_bucket f, key)"
  by (auto simp: raceCreate_def raceUpdate_def writer_put_def)

lemma runRounds_cleaned:
  assumes "race \<in> {raceCreate, raceUpdate}" "snd (runRounds E f name race rounds) = Inr n"
  shows "cleaned (fst (runRounds E f name race rounds))"
  using assms(2)
proof (induction rounds arbitrary: n)
  case (Cons round rounds)
  let ?key = "round_key E f name round"
  let ?rest = "runRounds E f name race rounds"
  let ?seeds = "if name = ''update'' then [seed_put f ?key] else []"
  show ?case
  proof (cases rule: round_cases [of E f name ?key _ race])
    case (3 etag winners)
    note ends = runRounds_Cons(3) [OF 3]
    have ops: "fst (runRounds E f name race (round # rounds)) =
        map PutObject (?seeds @ map (\<lambda>w. race f ?key w etag) (hm_order E ?key))
          @ DeleteObject (hf_bucket f) ?key # fst ?rest"
      unfolding ends by (simp add: seeding_def comp_def)
    have "cleaned (fst ?rest)"
      using Cons.prems Cons.IH unfolding ends by (cases "snd ?rest") auto
    then show ?thesis unfolding ops
      using racer_target [OF assms(1)] by (intro cleaned_round) (simp_all add: seed_put_def list.pred_map comp_def list.pred_True)
  qed (use Cons.prems in \<open>simp_all add: runRounds_Cons(1,2) del: runRounds.simps\<close>)
qed simp

section \<open>A store that compares and swaps\<close>

text \<open>
  The documented contract of a conditional put, as a sequential store: \<open>step s q\<close> is the store
  after the request \<open>q\<close> and its answer. For a set of requests that share one precondition,
  the first one to be served succeeds, and from then on each of them is refused cleanly.
\<close>

fun serve :: "('s \<Rightarrow> put_request \<Rightarrow> 's \<times> put_error option) \<Rightarrow> 's \<Rightarrow> put_request list \<Rightarrow> put_error option list" where
  "serve step s [] = []"
| "serve step s (q # qs) = (case step s q of (s', a) \<Rightarrow> a # serve step s' qs)"

definition cas_contract ::
  "('s \<Rightarrow> put_request \<Rightarrow> 's \<times> put_error option) \<Rightarrow> ('s \<Rightarrow> bool) \<Rightarrow> ('s \<Rightarrow> bool) \<Rightarrow> put_request set \<Rightarrow> bool" where
  "cas_contract step open_at taken qs \<longleftrightarrow>
     (\<forall>s. \<forall>q \<in> qs. open_at s \<longrightarrow> snd (step s q) = None \<and> taken (fst (step s q))) \<and>
     (\<forall>s. \<forall>q \<in> qs. taken s \<longrightarrow> taken (fst (step s q)) \<and> classify (snd (step s q)) = (False, None))"

lemma serve_taken:
  assumes "cas_contract step open_at taken qs" "taken s" "set lin \<subseteq> qs"
  shows "filter won (serve step s lin) = [] \<and> \<not> (\<exists>a \<in> set (serve step s lin). hard a)"
  using assms(2,3)
proof (induction lin arbitrary: s)
  case (Cons q lin)
  have "taken (fst (step s q))" "classify (snd (step s q)) = (False, None)"
    using assms(1) Cons.prems by (auto simp: cas_contract_def)
  with Cons.IH [of "fst (step s q)"] Cons.prems show ?case by (auto split: prod.split)
qed simp

lemma serve_once:
  assumes "cas_contract step open_at taken qs" "open_at s" "set lin \<subseteq> qs" "lin \<noteq> []"
  shows "length (filter won (serve step s lin)) = 1 \<and> \<not> (\<exists>a \<in> set (serve step s lin). hard a)"
proof -
  obtain q rest where lin: "lin = q # rest" using assms(4) by (cases lin) auto
  have "snd (step s q) = None" "taken (fst (step s q))"
    using assms lin by (auto simp: cas_contract_def)
  with serve_taken [OF assms(1), of "fst (step s q)" rest] assms(3) lin show ?thesis
    by (auto simp: classify_def split: prod.split)
qed

text \<open>
  A round against such a store: the requests of its writers take effect one after the other
  in some order \<open>lin\<close>, from a state in which the precondition holds.
\<close>

definition served_atomically ::
  "('s \<Rightarrow> put_request \<Rightarrow> 's \<times> put_error option) \<Rightarrow> 's \<Rightarrow> put_request list \<Rightarrow> store_answers \<Rightarrow> bool" where
  "served_atomically step s qs answers \<longleftrightarrow>
     (\<exists>lin. mset lin = mset qs \<and> map answers lin = serve step s lin)"

lemma atomic_round:
  assumes "cas_contract step open_at taken (set (map (\<lambda>w. race f key w etag) order))" "open_at s" "order \<noteq> []"
    and "served_atomically step s (map (\<lambda>w. race f key w etag) order) answers"
  shows "race_round race f key etag answers order = (1, None)"
proof -
  let ?qs = "map (\<lambda>w. race f key w etag) order"
  obtain lin where lin: "mset lin = mset ?qs" "map answers lin = serve step s lin"
    using assms(4) by (auto simp: served_atomically_def)
  have "round_answers race f key etag answers order = map answers ?qs" by (simp add: round_answers_def)
  moreover have "mset (map answers ?qs) = mset (serve step s lin)"
    unfolding lin(2) [symmetric] mset_map [of answers] lin(1) ..
  ultimately have "mset (round_answers race f key etag answers order) = mset (serve step s lin)" by simp
  then have m: "length (filter won (round_answers race f key etag answers order)) = length (filter won (serve step s lin))"
    "set (round_answers race f key etag answers order) = set (serve step s lin)"
    by (metis mset_filter size_mset, metis mset_eq_setD)
  have "set lin = set ?qs" using lin(1) by (rule mset_eq_setD)
  then have "lin \<noteq> []" "set lin \<subseteq> set ?qs" using assms(3) by auto
  from serve_once [OF assms(1,2) this(2,1)] race_round_result [of race f key etag answers order] show ?thesis
    unfolding m by (simp add: prod_eq_iff)
qed

section \<open>Properties\<close>

lemma runPhase_zero:
  "snd (runPhase E f name race) = Inr 0 \<longleftrightarrow> list_all (good_round E f name race) [0..<nat (hf_rounds f)]"
  unfolding runPhase_def by (rule runRounds_zero)

lemma runPhase_status: "snd (runPhase E f name race) = Inl status \<Longrightarrow> status = 2"
  unfolding runPhase_def by (rule runRounds_status)

lemma runPhase_cleaned:
  "race \<in> {raceCreate, raceUpdate} \<Longrightarrow> snd (runPhase E f name race) = Inr n \<Longrightarrow> cleaned (fst (runPhase E f name race))"
  unfolding runPhase_def by (rule runRounds_cleaned)



end
