(* ===== verification/Pass_Witnesses.thy ===== *)
theory Pass_Witnesses
  imports Input_Witnesses Steady_State State_Client Manager Cas_Hammer
begin

text \<open>
  The theorems of \<open>Routes\<close>, \<open>Reconciler\<close>, \<open>Steady_State\<close>, \<open>State_Client\<close>, \<open>Manager\<close> and \<open>Cas_Hammer\<close> on the
  application of \<open>Scenario\<close>.
\<close>

section \<open>Routes\<close>

definition demo_reconciler :: WorkerAppReconciler where
  "demo_reconciler = newReconciler defaultFlags"

lemma demo_reconciler_fields [simp]:
  "rc_IngressMode demo_reconciler = IngressModeHTTPRoute" "rc_PrometheusURL demo_reconciler = fl_prometheusURL defaultFlags"
  "rc_OperatorNamespace demo_reconciler = fl_operatorNamespace defaultFlags"
  "rc_HTTPRouteRetries demo_reconciler = False"
  by (simp_all add: demo_reconciler_def newReconciler_def defaultFlags_def)

definition demo_ingress :: Ingress where
  "demo_ingress = (buildIngress demo_app [] [])\<lparr>ing_meta := demo_live_meta\<rparr>"

definition demo_obsolete :: obsolete_env where
  "demo_obsolete =
     \<lparr>ox_ingress = Inr demo_ingress, ox_route = Inl (NotFound ''route''), ox_virtualService = Inl (NoMatch ''istio''),
      ox_delete = (\<lambda>_. None), ox_order = [IngressModeIngress, IngressModeVirtualService, IngressModeHTTPRoute]\<rparr>"

lemma demo_active: "activeMode demo_reconciler demo_app = IngressModeHTTPRoute"
  by (simp add: activeMode_def demo_app_def demo_spec_def mode_defs)

lemma demo_removed: "removeObsoleteRoutes demo_reconciler demo_platform demo_obsolete demo_app =
    ([Delete (KIngress demo_ingress)], Inr ())"
  unfolding removeObsoleteRoutes_def demo_active
  by (simp add: demo_obsolete_def obsoleteRoute_def mode_defs eff_bind_def demo_ingress_def)
    (simp add: demo_platform_def demo_meta_def demo_app_def)

theorem obsolete_routes_removed_witness:
  "Delete (KIngress demo_ingress) \<in> set (fst (removeObsoleteRoutes demo_reconciler demo_platform demo_obsolete demo_app))"
proof -
  have "pf_IsControlledBy demo_platform (kobject_meta (KIngress demo_ingress)) (wa_meta demo_app)"
    "obsoleteRoute demo_obsolete IngressModeIngress = Inr (KIngress demo_ingress)"
    by (simp_all add: demo_platform_def demo_ingress_def demo_meta_def demo_app_def obsoleteRoute_def demo_obsolete_def)
  moreover have "IngressModeIngress \<noteq> activeMode demo_reconciler demo_app"
    unfolding demo_active by (simp add: mode_defs)
  moreover have "set (ox_order demo_obsolete) = {IngressModeIngress, IngressModeHTTPRoute, IngressModeVirtualService}"
    by (auto simp: demo_obsolete_def)
  ultimately show ?thesis
    using obsolete_routes_removed [of demo_reconciler demo_platform demo_obsolete demo_app] demo_removed
    by simp blast
qed

definition demo_route :: HTTPRoute where
  "demo_route = (buildHTTPRoute demo_app ''edge'' ''infra'')\<lparr>
     hr_meta := demo_meta ''shop-celld'' ''u2'' [] [(retryRequestedAnnotation, annotationTrue)] ''app-1'',
     hr_rules := [\<lparr>rr_backendName = ''shop-celld'', rr_backendPort = publicPort, rr_retry = None, rr_requestTimeout = None\<rparr>]\<rparr>"

definition demo_http :: "HTTPRoute result \<Rightarrow> httproute_env" where
  "demo_http found =
     \<lparr>he_configure = found, he_nowDefault = 0, he_nowBefore = 10,
      he_object = \<lparr>ob_get = (\<lambda>_. found), ob_create = Inr, ob_update = (\<lambda>_. None)\<rparr>,
      he_recheck = found, he_ready = found, he_gateway = (\<lambda>_ _. Inl (NotFound ''gateway''))\<rparr>"

theorem retry_latch_permanent_witness:
  "fst (configureHTTPRouteRetries (demo_reconciler\<lparr>rc_HTTPRouteRetries := True\<rparr>)
     (demo_http (Inr demo_route)) (buildHTTPRoute demo_app ''edge'' ''infra''))"
proof -
  have "latched demo_route"
    by (simp add: latched_def retryMissing_def demo_route_def demo_meta_def gm_index_def)
  from retry_latch_permanent [OF this route_stored.initial [where P = demo_platform], of "demo_reconciler\<lparr>rc_HTTPRouteRetries := True\<rparr>"
      "demo_http (Inr demo_route)"]
  show ?thesis by (simp add: demo_http_def)
qed

definition demo_routes :: route_env where
  "demo_routes =
     \<lparr>rt_obsolete = demo_obsolete,
      rt_ingress = \<lparr>ob_get = (\<lambda>_. Inl (NotFound ''ingress'')), ob_create = Inr, ob_update = (\<lambda>_. None)\<rparr>,
      rt_virtualService = \<lparr>ue_get = Inl (NoMatch ''istio''), ue_create = (\<lambda>_. None), ue_update = (\<lambda>_. None),
        ue_delete = (\<lambda>_. None)\<rparr>,
      rt_httpRoute = demo_http (Inl (NotFound ''route''))\<rparr>"

lemma demo_edge_writes:
  "Delete (KIngress demo_ingress) \<in> set (fst (ensureIngress demo_reconciler demo_platform demo_routes demo_app))"
  "\<exists>h. Create (KHTTPRoute h) \<in> set (fst (ensureIngress demo_reconciler demo_platform demo_routes demo_app))"
  unfolding ensureIngress_def
  by (simp_all add: demo_removed demo_routes_def mode_defs ensureHTTPRoute_def case_prod_unfold Let_def
      ensureObject_def prepared_def kind_defs demo_http_def split: sum.split)
    (simp_all add: demo_app_def demo_spec_def demo_platform_def)

theorem mode_consistent_witness:
  "\<exists>h. route_mode (KIngress demo_ingress) \<noteq> route_mode (KHTTPRoute h)"
proof -
  obtain h where h: "Create (KHTTPRoute h) \<in> set (fst (ensureIngress demo_reconciler demo_platform demo_routes demo_app))"
    using demo_edge_writes(2) by blast
  have s: "startup \<lparr>se_newManager = None, se_controller = None, se_poller = None, se_healthz = None, se_readyz = None,
      se_run = None\<rparr> defaultFlags = Inr \<lparr>mg_options = managerOptions defaultFlags, mg_reconciler = demo_reconciler,
      mg_controller = SetupWithManager (Some (NewDeployTracker (fl_deployPollInterval defaultFlags))),
      mg_pollInterval = fl_statePollInterval defaultFlags\<rparr>"
    by (simp add: startup_def validFlags_def demo_reconciler_def) (simp add: defaultFlags_def validModes_def)
  have "route_mode (KIngress demo_ingress) \<noteq> route_mode (KHTTPRoute h)"
    by (rule mode_consistent [OF s _ _ demo_edge_writes(1) disjI1 [OF h]])
      (auto simp: demo_routes_def demo_obsolete_def)
  then show ?thesis by blast
qed

section \<open>Whole passes\<close>

definition demo_absent :: un_env where
  "demo_absent = \<lparr>ue_get = Inl (NoMatch ''crd''), ue_create = (\<lambda>_. None), ue_update = (\<lambda>_. None), ue_delete = (\<lambda>_. None)\<rparr>"

definition demo_status_env :: status_env where
  "demo_status_env = \<lparr>us_sts = Inr demo_rolling, us_obs = demo_obs, us_order = rev, us_update = (\<lambda>_. None)\<rparr>"

text \<open>All answers of a pass over \<open>app\<close> that finds the fleet \<open>existing\<close>.\<close>

definition demo_pass_env :: "WorkerApp result \<Rightarrow> StatefulSet \<Rightarrow> reconcile_env" where
  "demo_pass_env app existing =
     \<lparr>re_app = app, re_invalid = (\<lambda>_. None), re_foundation = demo_foundation,
      re_tracker = demo_tracking (Inl (OtherError ''unused'')) 0, re_rollout = demo_env existing 60,
      re_routes = demo_routes, re_policy = demo_absent, re_scaler = demo_absent, re_status = demo_status_env\<rparr>"

abbreviation demo_pass_found :: "StatefulSet \<Rightarrow> reconcile_env" where
  "demo_pass_found \<equiv> demo_pass_env (Inr demo_app)"

abbreviation demo_key :: tracker_key where
  "demo_key \<equiv> (''prod'', ''shop'')"

lemma demo_valid_app: "valid_app demo_reconciler demo_platform (demo_pass_found existing) demo_app"
proof -
  have "validateApp demo_platform (trust_policy.truncate demo_reconciler) demo_app = Inr ()" by code_simp
  then show ?thesis by (simp add: demo_pass_env_def demo_app_def demo_meta_def)
qed

lemma demo_foundation_pass:
  "ensureFoundation demo_platform demo_foundation demo_app (rc_OperatorNamespace demo_reconciler) =
     ([], Inr [credentialsCondition demo_app])"
  by code_simp

lemma demo_resolve: "resolveAppVersion P E demo_app t = (t, ''v7'', False, [])"
  by (simp add: resolveAppVersion_def demo_app_def demo_spec_def AppVersionAuto_def trackableBucket_def Let_def)

lemma demo_pass_fleet:
  "fst (reconcileFleet demo_platform demo_rolling_env demo_app (rc_PrometheusURL demo_reconciler) ''v7'') =
     [Update (KStatefulSet (released demo_rolling_env 2 demo_rolling))]"
  "map_sum id fo_phase (snd (reconcileFleet demo_platform demo_rolling_env demo_app (rc_PrometheusURL demo_reconciler) ''v7'')) =
     Inr PhaseRollingOut"
  by code_simp+

lemma demo_pass_run:
  assumes "reconcileFleet demo_platform (demo_env existing 60) demo_app (rc_PrometheusURL demo_reconciler) ''v7'' = (reqs, Inr out)"
  shows "Reconcile demo_reconciler demo_platform (demo_pass_found existing) demo_key demo_tracker =
    finishPass demo_reconciler demo_platform (demo_pass_found existing) demo_app demo_tracker reqs ''v7''
      (specValid # [credentialsCondition demo_app]) out"
  unfolding Reconcile_valid [OF demo_valid_app]
  using assms demo_foundation_pass
  by (simp add: reconcileApp_def demo_pass_env_def demo_resolve capRequeue_def)

lemma demo_rolling_pass:
  obtains out where "reconcileFleet demo_platform demo_rolling_env demo_app (rc_PrometheusURL demo_reconciler) ''v7'' =
    ([Update (KStatefulSet (released demo_rolling_env 2 demo_rolling))], Inr out)"
proof -
  obtain out where "snd (reconcileFleet demo_platform demo_rolling_env demo_app (rc_PrometheusURL demo_reconciler) ''v7'') = Inr out"
    using demo_pass_fleet(2)
    by (cases "snd (reconcileFleet demo_platform demo_rolling_env demo_app (rc_PrometheusURL demo_reconciler) ''v7'')") auto
  with demo_pass_fleet(1) that show thesis by (metis prod.collapse)
qed

abbreviation demo_run :: pass where
  "demo_run \<equiv> Reconcile demo_reconciler demo_platform (demo_pass_found demo_rolling) demo_key demo_tracker"

lemma demo_run_writes:
  "Update (KStatefulSet (released demo_rolling_env 2 demo_rolling)) \<in> set (pa_requests demo_run)"
  by (rule demo_rolling_pass) (simp add: demo_pass_run finishPass_fields)

lemma demo_run_result: "\<exists>res. pa_result demo_run = Inr res"
proof (rule demo_rolling_pass)
  fix out
  assume "reconcileFleet demo_platform demo_rolling_env demo_app (rc_PrometheusURL demo_reconciler) ''v7'' =
    ([Update (KStatefulSet (released demo_rolling_env 2 demo_rolling))], Inr out)"
  note run = demo_pass_run [OF this]
  have "us_update (re_status (demo_pass_found demo_rolling)) st = None" for st
    by (simp add: demo_pass_env_def demo_status_env_def)
  then show ?thesis
    unfolding run by (simp add: finishPass_def updateStatus_def case_prod_unfold Let_def answer_def)
qed

theorem pass_owned_witness:
  "owned_request demo_platform demo_app (Update (KStatefulSet (released demo_rolling_env 2 demo_rolling)))"
proof -
  have "keeps_owners (re_rollout (demo_pass_found demo_rolling))"
    by (simp add: keeps_owners_def demo_pass_env_def demo_env_def)
  from pass_owned [OF demo_owner(2) this demo_run_writes] show ?thesis by (simp add: demo_pass_env_def)
qed

theorem fleet_written_after_foundation_witness:
  "\<exists>pre mid post. pa_requests demo_run = pre @ mid @ post \<and>
     Update (KStatefulSet (released demo_rolling_env 2 demo_rolling)) \<in> set mid"
proof -
  have "fleet_write (Update (KStatefulSet (released demo_rolling_env 2 demo_rolling)))"
    by (simp add: fleet_write_def)
  from fleet_written_after_foundation [OF demo_run_writes this] show ?thesis by blast
qed

theorem pass_rescheduled_witness:
  "\<exists>res. pa_result demo_run = Inr res \<and> (rq_requeue res \<or> 0 < rq_requeueAfter res \<or>
     settle_race demo_rolling_env \<or>
     (\<exists>out. snd (reconcileFleet demo_platform demo_rolling_env demo_app (rc_PrometheusURL demo_reconciler) ''v7'') = Inr out \<and>
        fo_phase out = PhaseDegraded \<and> fo_requeue out = 0))"
proof -
  obtain res where res: "pa_result demo_run = Inr res" using demo_run_result by blast
  from pass_rescheduled [OF demo_valid_app tracker_reachable.start res] res show ?thesis
    by (simp add: demo_resolve) (simp add: demo_pass_env_def)
qed


lemma demo_conditions: "conditions_ok demo_platform" "conditions_stable demo_platform"
proof -
  have set: "cond_of (demo_setCondition c cs) ty = (if ty = cn_type c then Some c else cond_of cs ty)" for c cs ty
    by (induction cs) (auto simp: cond_of_def)
  have removed: "cond_of (filter (\<lambda>x. cn_type x \<noteq> k) cs) ty = (if ty = k then None else cond_of cs ty)" for k cs ty
    by (induction cs) (auto simp: cond_of_def)
  have "cond_of cs (cn_type c) = Some c \<Longrightarrow> demo_setCondition c cs = cs" for c cs
    by (induction cs) (auto simp: cond_of_def split: if_splits)
  moreover have "cond_of cs k = None \<Longrightarrow> filter (\<lambda>x. cn_type x \<noteq> k) cs = cs" for k cs
    by (induction cs) (auto simp: cond_of_def split: if_splits)
  ultimately show "conditions_ok demo_platform" "conditions_stable demo_platform"
    by (simp_all add: conditions_ok_def conditions_stable_def demo_platform_def set removed)
qed

definition demo_invalid :: WorkerApp where
  "demo_invalid = demo_app\<lparr>wa_spec := demo_spec\<lparr>ws_appVersion := []\<rparr>\<rparr>"

theorem invalid_spec_inert_witness:
  "pa_requests (Reconcile demo_reconciler demo_platform (demo_pass_env (Inr demo_invalid) demo_rolling) demo_key demo_tracker) = []"
proof -
  have "validateApp demo_platform (trust_policy.truncate demo_reconciler) demo_invalid =
      Inl (OtherError ''appVersion is required'')" by code_simp
  moreover have "\<not> om_deleting (wa_meta demo_invalid)"
    by (simp add: demo_invalid_def demo_app_def demo_meta_def)
  ultimately show ?thesis
    using invalid_spec_inert [OF _ _ _ demo_conditions(1) refl] by (simp add: demo_pass_env_def)
qed

definition demo_serving :: StatefulSet where
  "demo_serving = demo_fleet ''ghcr.io/denoland/celld:v0.5.2'' 3 0 [(templateHashAnnotation, demo_hash)]"

lemma demo_serving_pass:
  "reconcileFleet demo_platform (demo_env demo_serving 60) demo_app (rc_PrometheusURL demo_reconciler) ''v7'' =
     ([], Inr ((outcome PhaseReady [] (seconds 30))\<lparr>fo_rolledOut := True\<rparr>))"
  by code_simp

theorem published_rollout_witness:
  "\<exists>st. pa_status (Reconcile demo_reconciler demo_platform (demo_pass_found demo_serving) demo_key demo_tracker) = Some st \<and>
     wst_rolledOutAppVersion st = ''v7'' \<and> wst_phase st = PhaseReady"
proof -
  let ?run = "Reconcile demo_reconciler demo_platform (demo_pass_found demo_serving) demo_key demo_tracker"
  obtain st where st: "pa_status ?run = Some st" "wst_rolledOutAppVersion st = ''v7''"
  proof -
    have new: "newStatus P E demo_app out v c \<noteq> wa_status demo_app" if "fo_phase out = PhaseReady" for P E out v c
    proof
      assume "newStatus P E demo_app out v c = wa_status demo_app"
      then have "wst_phase (newStatus P E demo_app out v c) = wst_phase (wa_status demo_app)" by simp
      with that show False by (simp add: demo_app_def demo_status_def)
    qed
    have "\<exists>st. pa_status ?run = Some st \<and> wst_rolledOutAppVersion st = ''v7''"
      unfolding demo_pass_run [OF demo_serving_pass]
      by (simp add: finishPass_def updateStatus_def case_prod_unfold Let_def new)
    then show thesis using that by blast
  qed
  have "''shop-celld-0'' \<in> fleet_members demo_serving"
  proof -
    have "''shop-celld-0'' = ordinal_name ''shop-celld'' 0" by code_simp
    then show ?thesis by (simp add: fleet_members_def demo_serving_def demo_fleet_def demo_meta_def)
  qed
  with published_rollout [OF st, of demo_serving "''shop-celld-0''"] st demo_obs_ok demo_conditions(1) show ?thesis
    by (simp add: demo_pass_env_def demo_env_def)
qed

section \<open>At rest\<close>

definition demo_calm :: reconcile_env where
  "demo_calm = (demo_pass_found demo_serving)\<lparr>re_routes :=
     \<lparr>rt_obsolete = demo_obsolete\<lparr>ox_ingress := Inl (NotFound ''ingress'')\<rparr>,
      rt_ingress = rt_ingress demo_routes, rt_virtualService = demo_absent,
      rt_httpRoute = (demo_http (Inr demo_route))\<lparr>he_object :=
        demo_stored routeKind mutateHTTPRoute (buildHTTPRoute demo_app ''edge'' ''infra'')\<rparr>\<rparr>\<rparr>"

lemma demo_calm_fields [simp]:
  "re_app demo_calm = Inr demo_app" "re_foundation demo_calm = demo_foundation"
  "re_rollout demo_calm = demo_env demo_serving 60" "re_policy demo_calm = demo_absent" "re_scaler demo_calm = demo_absent"
  by (simp_all add: demo_calm_def demo_pass_env_def)

lemma demo_object_settled:
  "(\<And>m x. ok_meta K (ok_setMeta K m x) = m) \<Longrightarrow> object_settled K demo_platform demo_app mutate (demo_stored K mutate built)"
  unfolding object_settled_def demo_stored_def
  by (intro exI [of _ "ok_setMeta K demo_live_meta built"]) (simp add: demo_live_own)

lemma demo_foundation_settled: "foundation_settled demo_platform demo_app demo_foundation"
proof -
  have "annotations_ok (svc_meta (buildPublicService demo_app))"
    by (simp add: annotations_ok_def keys_ascii_def buildPublicService_def new_meta_def Let_def demo_app_def demo_spec_def)
  then show ?thesis
    unfolding foundation_settled_def demo_foundation_def foundation_env.simps
    by (intro conjI demo_object_settled) (simp_all add: kind_defs)
qed

lemma demo_fleet_settled: "fleet_settled demo_platform (demo_env demo_serving 60) demo_app ''v7''"
proof -
  have "(case desired_fleet demo_platform (demo_env demo_serving 60) demo_app ''v7'' of
      None \<Rightarrow> False | Some d \<Rightarrow> arrived (goal_for demo_app d) (position demo_serving))" by code_simp
  moreover have "ro_existing (demo_env demo_serving 60) = Inr demo_serving" by (simp add: demo_env_def)
  ultimately show ?thesis unfolding fleet_settled_def by (auto split: option.splits)
qed

lemma demo_edge_settled: "edge_settled demo_reconciler demo_platform (re_routes demo_calm) demo_app"
proof -
  have "object_settled routeKind demo_platform demo_app mutateHTTPRoute (he_object (rt_httpRoute (re_routes demo_calm)))"
    by (simp add: demo_calm_def) (rule demo_object_settled, simp add: kind_defs)
  then show ?thesis
    unfolding edge_settled_def demo_active
    by (simp add: mode_defs) (simp add: demo_calm_def demo_obsolete_def obsoleteRoute_def mode_defs)
qed


section \<open>The state client\<close>

definition demo_body :: string where
  "demo_body = ''{'' @ dq @ ''occupied'' @ dq @ '':4,'' @ dq @ ''restoring'' @ dq @ '':0,'' @ dq @ ''shedding'' @ dq @ '':null}''"

definition demo_transport :: "string \<Rightarrow> http_response result" where
  "demo_transport url = Inr \<lparr>hp_status = 200, hp_body = Inr demo_body\<rparr>"

lemma demo_fetch:
  "Fetch demo_platform demo_transport (''10.0.0.1'') = Inr (zero_PodState\<lparr>po_occupied := 4\<rparr>)"
  by code_simp

theorem Fetch_sound_witness: "(0 :: int) \<le> po_restoring (zero_PodState\<lparr>po_occupied := 4\<rparr>)"
  using Fetch_sound [OF demo_fetch] by simp

definition demo_fetched :: obs_env where
  "demo_fetched = \<lparr>oe_listed = Inr [demo_pod 0], oe_fetch = Fetch demo_platform demo_transport, oe_sched = rev\<rparr>"

definition demo_single :: StatefulSet where
  "demo_single = demo_fleet ''ghcr.io/denoland/celld:v0.5.2'' 1 0 []"

lemma demo_fetched_seen:
  "(\<lambda>seen. (sw_err seen, sw_restoring seen, sum_list (map (po_restoring \<circ> snd) (sw_states seen))))
     (observeFleet demo_platform demo_fetched demo_single) = (None, 0, 0)"
  by code_simp

theorem observeFleet_quiet_witness: "set (map pod_name [demo_pod 0]) = fleet_members demo_single"
proof -
  have "obs_ok demo_fetched" by (simp add: obs_ok_def demo_fetched_def)
  moreover have "oe_listed demo_fetched = Inr [demo_pod 0]" "oe_fetch demo_fetched = Fetch demo_platform demo_transport"
    by (simp_all add: demo_fetched_def)
  ultimately show ?thesis
    using observeFleet_quiet [of demo_fetched "[demo_pod 0]" demo_platform demo_transport demo_single] demo_fetched_seen
    by simp
qed

definition demo_poll :: poll_env where
  "demo_poll =
     \<lparr>pl_apps = Inr [demo_app], pl_now = (\<lambda>_. 0), pl_sts = (\<lambda>_. Inr demo_rolling), pl_pods = (\<lambda>_. Inr demo_pods),
      pl_fetch = (\<lambda>_. Inr demo_state), pl_sched = rev, pl_order = rev\<rparr>"

lemma demo_poll_ok: "poll_ok demo_poll"
proof -
  have "distinct (map pod_name demo_pods)" by code_simp
  then show ?thesis by (simp add: poll_ok_def demo_poll_def demo_pods_def)
qed

lemma demo_collected:
  "collector demo_platform (startCollect 0 (publish (fst (StatePoller_sweep demo_platform demo_poll []))
     \<lparr>sn_samples = [], sn_scrapes = (\<lambda>_. None)\<rparr>))"
proof -
  have "apps_ok demo_poll" by (simp add: apps_ok_def demo_poll_def)
  from collector.tick [OF collector.initial demo_poll_ok this] show ?thesis
    by (intro collector.collect) simp
qed


theorem complete_gauge_sound_witness: "int (length demo_pods) = deref0 (st_replicas demo_rolling)"
proof -
  let ?m = "\<lparr>mt_name = ''celld_fleet_complete'', mt_value = Whole 1, mt_labels = [app_namespace demo_app, app_name demo_app]\<rparr>"
  have "fleetComplete demo_platform demo_rolling demo_pods (FleetSweep (\<lambda>_. Inr demo_state) (rev demo_pods))" by code_simp
  then have "published_complete demo_platform demo_poll demo_app" by (simp add: published_complete_def demo_poll_def)
  then have "?m \<in> set (appMetrics demo_platform demo_poll demo_app)"
    by (simp add: appMetrics_split boolToGauge_def)
  moreover have "pl_apps demo_poll = Inr [demo_app]" by (simp add: demo_poll_def)
  ultimately have "?m \<in> set (fst (StatePoller_sweep demo_platform demo_poll []))"
    by (simp add: StatePoller_sweep_def)
  from complete_gauge_sound [OF _ demo_poll_ok this, of "[demo_app]"] show ?thesis
    by (simp add: demo_poll_def)
qed

section \<open>The conditional write probe\<close>

definition demo_hammer :: hammer_flags where
  "demo_hammer = \<lparr>hf_bucket = ''b'', hf_endpoint = [], hf_region = ''auto'', hf_writers = 2, hf_rounds = 1, hf_prefix = ''p''\<rparr>"

definition demo_store :: "bool \<Rightarrow> put_request \<Rightarrow> bool \<times> put_error option" where
  "demo_store taken q = (True, if taken then Some (APIError ''PreconditionFailed'') else None)"

definition demo_answers :: store_answers where
  "demo_answers q = (if pr_body q = ''writer-1'' then None else Some (APIError ''PreconditionFailed''))"

lemma demo_served:
  "served_atomically demo_store False (map (\<lambda>w. raceCreate demo_hammer ''k'' w None) [0, 1]) demo_answers"
proof -
  let ?lin = "[raceCreate demo_hammer ''k'' 1 None, raceCreate demo_hammer ''k'' 0 None]"
  have "map demo_answers ?lin = serve demo_store False ?lin" by code_simp
  moreover have "mset ?lin = mset (map (\<lambda>w. raceCreate demo_hammer ''k'' w None) [0, 1])" by simp
  ultimately show ?thesis unfolding served_atomically_def by blast
qed


end
