(* ===== verification/Fleet_Wiring.thy ===== *)
theory Fleet_Wiring
  imports Fleet_Objects "HOL-Library.Multiset" "HOL-Library.Sublist"
begin

text \<open>
  The objects built for one WorkerApp (\<open>src/internal/controller/fleet_resources.go\<close>) fit
  together: selectors against pod labels, mounts against volumes and claims, Service ports
  against container ports, the environment of the container, the drain budget against the
  grace period of the pod.
\<close>

section \<open>Selectors\<close>

text \<open>A label selector matches a set of labels.\<close>

definition selects :: "smap \<Rightarrow> smap \<Rightarrow> bool" where
  "selects sel labels \<longleftrightarrow> list_all (\<lambda>(k, v). map_of labels k = Some v) sel"

lemma fleetLabels_name: "map_of (fleetLabels app) workerAppLabel = Some (app_name app)"
  by (simp add: fleetLabels_def gm_copy_def fleet_consts)

lemma template_labels:
  "map_of (pt_labels (buildPodTemplate app hash version)) workerAppLabel = Some (app_name app)"
proof -
  have "gm_wf (fleetLabels app)" by (simp add: fleetLabels_def)
  moreover have "workerAppLabel \<noteq> azureWorkloadIdentityUseLabel" by (simp add: fleet_consts)
  ultimately show ?thesis
    by (simp add: buildPodTemplate_def Let_def map_of_gm_set fleetLabels_name)
qed

text \<open>The selectors of the fleet's objects, in the order the reconciler creates them.\<close>

definition fleet_selectors :: "platform \<Rightarrow> WorkerApp \<Rightarrow> string \<Rightarrow> string \<Rightarrow> string \<Rightarrow> smap list" where
  "fleet_selectors P app ns hash version =
     [svc_selector (buildInternalService app), svc_selector (buildPublicService app),
      np_podSelector (buildNetworkPolicy app ns), pdb_selector (buildPDB app),
      st_selector (buildStatefulSet P app hash version)]
     @ map sp_matchLabels (ps_topologySpread (pt_spec (buildPodTemplate app hash version)))
     @ (case ps_antiAffinity (pt_spec (buildPodTemplate app hash version)) of
          None \<Rightarrow> [] | Some terms \<Rightarrow> map at_matchLabels terms)"

lemma fleet_selectors_all: "set (fleet_selectors P app ns hash version) = {selectorLabels app}"
  by (auto simp: fleet_selectors_def buildInternalService_def buildPublicService_def buildNetworkPolicy_def
      buildPDB_def buildStatefulSet_def buildPodTemplate_def fleetAffinity_def Let_def split: option.split)

section \<open>The environment\<close>

text \<open>The variables the operator can set, in the order it sets them.\<close>

definition env_names :: "string list" where
  "env_names =
     [''HOME'', ''POD_NAME'', ''CELLD_BUCKET'', ''CELLD_INTERNAL_ADDR'', ''CELLD_ADVERTISE'', ''CELLD_WATCH'',
      ''CELLD_SHUTDOWN_TOTAL_MS'', ''CELLD_MAX_RESIDENT_CELLS'', ''CELLD_MAX_RSS_MB''] @ [''S3_ENDPOINT''] @ [''AWS_REGION'']
     @ [''AZURE_STORAGE_ACCOUNT_NAME''] @ [''CELLD_DURABILITY''] @ [''CELLD_TRUST_FORWARDED_HEADERS'']
     @ ([''CELLD_OTEL'', ''OTEL_SERVICE_NAME''] @ [''CELLD_OTEL_SINK''] @ [''OTEL_EXPORTER_OTLP_ENDPOINT'']
        @ [''CELLD_OTEL_RETENTION''])
     @ [''CELLD_VARS_FILE'']"

lemma map_if: "map f (if b then xs else ys) = (if b then map f xs else map f ys)"
  by simp

lemma subseq_if: "subseq xs zs \<Longrightarrow> subseq ys zs \<Longrightarrow> subseq (if b then xs else ys) zs"
  by simp

lemma subseq_distinctD: "subseq xs ys \<Longrightarrow> distinct ys \<Longrightarrow> distinct xs"
  by (metis distinct_nthsI subseq_conv_nths)

lemma templateEnv_names: "subseq (map ev_name (templateEnv app)) env_names"
  unfolding templateEnv_def env_names_def Let_def map_append map_if
  by (intro list_emb_append_mono subseq_if) simp_all

text \<open>
  The durability is always pinned: an application that leaves it unset gets the bucket proof,
  not the default of celld.
\<close>

lemma durability_pinned:
  "filter (\<lambda>e. ev_name e = ''CELLD_DURABILITY'') (templateEnv app) =
     [env_val ''CELLD_DURABILITY'' (if ws_durability (wa_spec app) = [] then ''bucket'' else ws_durability (wa_spec app))]"
  by (simp add: templateEnv_def Let_def DurabilityBucket_def)

section \<open>Who reaches a port\<close>

text \<open>
  A peer of an ingress rule: the labels of the calling pod, those of its namespace, and whether
  it is in the namespace of the policy. A rule without peers admits every caller.
\<close>

definition peer_matches :: "smap \<Rightarrow> smap \<Rightarrow> bool \<Rightarrow> np_peer \<Rightarrow> bool" where
  "peer_matches pod ns same p \<longleftrightarrow>
     (case npp_podSelector p of None \<Rightarrow> True | Some sel \<Rightarrow> selects sel pod) \<and>
     (case npp_namespaceSelector p of None \<Rightarrow> same | Some sel \<Rightarrow> selects sel ns)"

definition admits :: "NetworkPolicy \<Rightarrow> int \<Rightarrow> smap \<Rightarrow> smap \<Rightarrow> bool \<Rightarrow> bool" where
  "admits np port pod ns same \<longleftrightarrow>
     list_ex (\<lambda>r. (''TCP'', port) \<in> set (npr_ports r) \<and>
       (npr_from r = [] \<or> list_ex (peer_matches pod ns same) (npr_from r))) (np_ingress np)"

section \<open>Properties\<close>

text \<open>
  C17. The objects of a fleet fit together. Every selector (Services, network policy,
  disruption budget, StatefulSet, spreading and affinity) matches the labels of the pod
  template; every mount is backed by a volume or a claim, exactly one of them, and nothing is
  left unmounted; the Services target ports the container opens; no environment variable is set
  twice, so the last-one-wins rule of the kubelet never applies; and the drain budget given to
  celld ends before the pod is killed.
\<close>

theorem fleet_wiring:
  fixes P app ns hash version
  defines "t \<equiv> st_template (buildStatefulSet P app hash version)"
    and "c \<equiv> templateContainer app"
  shows "list_all (\<lambda>sel. selects sel (pt_labels t)) (fleet_selectors P app ns hash version) \<and>
    ps_containers (pt_spec t) = [c] \<and>
    mset (map vm_name (co_volumeMounts c)) =
      mset (map vo_name (ps_volumes (pt_spec t))) + mset (map pvc_name (st_volumeClaims (buildStatefulSet P app hash version))) \<and>
    distinct (map vm_name (co_volumeMounts c)) \<and>
    set (map spt_targetPort (svc_ports (buildInternalService app) @ svc_ports (buildPublicService app))) = set (map snd (co_ports c)) \<and>
    distinct (map ev_name (co_env c)) \<and>
    env_val ''CELLD_SHUTDOWN_TOTAL_MS'' (show_int shutdownTotalMs) \<in> set (co_env c) \<and>
    map_option (\<lambda>s. shutdownTotalMs < s * 1000) (ps_terminationGracePeriodSeconds (pt_spec t)) = Some True"
proof (intro conjI)
  show "list_all (\<lambda>sel. selects sel (pt_labels t)) (fleet_selectors P app ns hash version)"
    unfolding list_all_iff fleet_selectors_all t_def
    by (simp add: selects_def selectorLabels_def buildStatefulSet_def Let_def template_labels)
  show "distinct (map ev_name (co_env c))"
    using subseq_distinctD [OF templateEnv_names] by (simp add: c_def templateContainer_def Let_def env_names_def)
  show "mset (map vm_name (co_volumeMounts c)) =
      mset (map vo_name (ps_volumes (pt_spec t))) + mset (map pvc_name (st_volumeClaims (buildStatefulSet P app hash version)))"
    by (auto simp: c_def t_def templateContainer_def templateMounts_def templateVolumes_def buildStatefulSet_def
        buildPodTemplate_def fleetClaims_def Let_def split: option.split)
  show "env_val ''CELLD_SHUTDOWN_TOTAL_MS'' (show_int shutdownTotalMs) \<in> set (co_env c)"
    by (simp add: c_def templateContainer_def templateEnv_def Let_def)
qed (auto simp: c_def t_def templateContainer_def templateMounts_def buildStatefulSet_def buildPodTemplate_def
    buildInternalService_def buildPublicService_def service_port_def fleet_consts Let_def split: option.split)

text \<open>
  C18. The unauthenticated internal listener is closed to the rest of the cluster: the network
  policy of a fleet, which selects its pods, admits to port 8081 only pods of the same fleet in
  its namespace and the controller-manager pods of the operator's namespace, while the public
  port admits everyone and no other port anyone.
\<close>

theorem internal_port_guarded:
  "admits (buildNetworkPolicy app operatorNamespace) port pod ns same \<longleftrightarrow>
     port = publicPort \<or>
     port = internalPort \<and>
       (same \<and> map_of pod workerAppLabel = Some (app_name app) \<or>
        map_of pod ''app.kubernetes.io/name'' = Some ''celld-operator'' \<and>
        map_of pod ''control-plane'' = Some ''controller-manager'' \<and>
        map_of ns ''kubernetes.io/metadata.name'' = Some operatorNamespace)"
  by (auto simp: admits_def peer_matches_def selects_def buildNetworkPolicy_def selectorLabels_def
      publicPort_def internalPort_def)

end
