(* ===== verification/Spec2Isabelle.thy ===== *)
theory Spec2Isabelle
  imports Rollout_Witnesses Input_Witnesses Pass_Witnesses Fleet_Wiring
begin

text \<open>
  \<^bold>\<open>A verification of the celld operator.\<close>

  The operator runs stateful fleets of the celld runtime on Kubernetes. A \<open>WorkerApp\<close> object
  describes one fleet; the controller writes a StatefulSet and the objects around it, rolls out
  changes one ordinal at a time behind live checks of the pods, follows the application version
  a bucket points to, routes hostnames to the fleet, and exports metrics that drive the
  autoscaler. A separate tool probes whether an object store fences concurrent writers.

  \<^bold>\<open>Parts of the program and the theories that model them.\<close>

  \<^item> \<open>src/api/v1alpha1/workerapp_types.go\<close>: \<open>Api_Types\<close> (specification and status as records, the
    phases as a datatype). The Kubernetes objects the program reads and writes are records of
    \<open>K8s_Types\<close>, with the fields the sources use.
  \<^item> \<open>src/internal/controller/validation.go\<close>: \<open>App_Validation\<close> (\<open>validateApp\<close>, \<open>validateTrust\<close>,
    \<open>validateVars\<close>, the tag expression).
  \<^item> \<open>src/internal/controller/fleet_resources.go\<close>: \<open>Fleet_Resources\<close> (names, labels, sizes, pod
    template, StatefulSet) and \<open>Fleet_Objects\<close> (all other builders).
  \<^item> \<open>src/internal/controller/rollout.go\<close>: \<open>Celld_Version\<close> (versions, breaking boundaries),
    \<open>Rollout\<close> (\<open>reconcileFleet\<close> with \<open>rolloutStep\<close>, \<open>recreateStep\<close>, \<open>steadyFleet\<close>, the checks on
    a change, the digest of Secrets), \<open>Scaling\<close> (\<open>pauseScaling\<close>) and \<open>Fleet_State\<close>
    (\<open>observeFleet\<close>).
  \<^item> \<open>src/internal/controller/fleetstate.go\<close>: \<open>Fleet_State\<close> (concurrent sweeps) and
    \<open>State_Client\<close> (the \<open>/state\<close> request with its decoding, the gauges and the snapshots of the
    poller).
  \<^item> \<open>src/internal/controller/deploytracker.go\<close>: \<open>Deploy_Tracker\<close> (pointer read, cache, version
    resolution).
  \<^item> \<open>src/internal/controller/workerapp_controller.go\<close>: \<open>Scaling\<close> (ownership, metadata merging,
    unstructured objects, ScaledObject), \<open>Child_Objects\<close> (\<open>ensureObject\<close>, \<open>ensureFoundation\<close>,
    \<open>reconcileAnnotations\<close>), \<open>Routes\<close> (edge and mesh) and \<open>Reconciler\<close> (\<open>Reconcile\<close>,
    \<open>updateStatus\<close>); \<open>Steady_State\<close> says what it means that a cluster is as wanted.
  \<^item> \<open>src/cmd/main.go\<close>: \<open>Manager\<close> (flags, start-up check, what is built from the flags, exit
    status). \<open>src/hack/cas-hammer/main.go\<close>: \<open>Cas_Hammer\<close>.

  The language and its standard library are modelled as far as the sources use them: strings,
  decimal numbers, machine integers and errors in \<open>Op_Prelude\<close>, maps keyed by strings in
  \<open>Go_Map\<close>, \<open>encoding/json\<close> in \<open>Go_Json\<close>, \<open>net/url\<close> in \<open>Go_Url\<close>, RFC 3339 times in \<open>Go_Time\<close>.

  \<^bold>\<open>How state and effects correspond to the code.\<close> A function of the program that talks to the
  API server takes a record of the answers it can get, with one field per call site, so that the
  cluster may change arbitrarily between two calls; it returns the write requests it issues, in
  order, and its result or error (\<open>'a eff\<close>). Every early return is a branch of the result type.
  The order in which Go ranges over a map and the order in which goroutines finish are fields of
  the environment, so the properties hold for every order. The clock is read through fields.
  The cache of the deploy tracker is passed and returned. Integers of 32 and 64 bits are
  integers with the wrap-around written out at the operations that can overflow. Code outside
  the repository (the API machinery, the S3 service, the HTTP transport, SHA-256, the JSON text
  of a template) is the record \<open>platform\<close> or an argument; what a property needs of it is a named
  hypothesis, and \<open>Scenario\<close> gives a concrete instance on which the witnesses evaluate.

  \<^bold>\<open>What is shown.\<close>

  \<^item> Rollout. \<open>Rollout_Safety\<close>: a step releases one ordinal and only behind every gate; a template
    changes only frozen or on a stopped fleet; no write before the autoscalers are out of the way;
    releases are ten seconds apart. \<open>Rollout_Machine\<close>: the writes of a pass are moves of an
    abstract machine (refinement), any number of passes with one goal write a bounded number of
    times (termination), and unobstructed passes reach the goal.
  \<^item> A whole pass. \<open>Reconciler\<close>: only owned objects are touched, the StatefulSet only after
    validation and foundation, invalid specifications are inert, the published status is true,
    the next pass is scheduled in time. \<open>Steady_State\<close>: where every object is as wanted, two
    passes write no child object and the second one not even the status, so the operator comes
    to rest.
  \<^item> Child objects. \<open>Child_Objects\<close>: the foundation converges; managed annotations follow the
    specification and foreign ones survive. \<open>Fleet_Wiring\<close>: the built objects fit together, and
    the network policy closes the internal port. \<open>Routes\<close> and \<open>Manager\<close>: obsolete routes go, the
    active kind is never deleted, readiness means what it says, and the retry latch never opens.
  \<^item> Inputs. \<open>App_Validation\<close>: what a validated specification guarantees of its children, with
    bounds on sizes and name lengths, and the tag matcher against the language of its expression.
    \<open>Deploy_Tracker\<close>: the cache is bounded, never serves another identity, and an unreachable
    bucket starts no rollout. \<open>Celld_Version\<close>: a jump breaks exactly when a leg of it breaks.
  \<^item> Observation. \<open>State_Client\<close> and \<open>Fleet_State\<close>: an accepted sample is complete and sane, a quiet
    observation covers exactly the expected ordinals, sweeps do not depend on scheduling, the
    completeness gauge is sound, and a scrape that races with the poller sends one whole sweep.
  \<^item> \<open>Cas_Hammer\<close>: the exit status is 0 exactly when every round had one winner, a run that is not
    cut short deletes what it wrote, and an atomic store always passes.

  Interfaces between components are locales, interpreted on the model: \<open>keyed_store\<close> (\<open>Go_Map\<close>),
  \<open>version_order\<close> (\<open>Celld_Version\<close>), \<open>fleet_observer\<close> (\<open>Fleet_State\<close>), \<open>pointer_source\<close>
  (\<open>Deploy_Tracker\<close>), \<open>object_kind\<close> and \<open>object_mutation\<close> (\<open>Child_Objects\<close>), \<open>edge_operation\<close>
  (\<open>Routes\<close>), \<open>ranked_steps\<close> (\<open>Rollout_Machine\<close>). \<open>Rollout_Witnesses\<close>, \<open>Input_Witnesses\<close> and
  \<open>Pass_Witnesses\<close> apply the properties to a concrete fleet.

  \<^bold>\<open>Bounds and fuel.\<close> Every definition is total. Loops are recursion over the list they range over,
  and the string scanners of \<open>Go_Json\<close> and \<open>Manager\<close> terminate because they consume input. The JSON
  reader alone takes fuel, twice the length of the document; \<open>json_value_fuel\<close> shows that more of
  it changes nothing. It has the nesting limit of the library. The text form of a time reads back
  for the years 1970 to 9999.

  \<^bold>\<open>Not modelled.\<close> Log lines; timeouts of requests, which appear as error answers; the TLS and HTTP
  machinery behind the options; the generated deep copies, since values are immutable here;
  registration of types with a scheme; transition times of conditions, which follow their
  status; the test fixtures. Type headers, constants without behaviour and comments are what
  remains of the sources.
\<close>

end
